theory Spec2Isabelle
  imports Complex_Main
begin

section \<open>Errors\<close>

text \<open>
  The exceptions that \<^verbatim>\<open>sima/motion/frame_align.py\<close> can raise, as values. The
  assertion failures are told apart by the line that raises them: the bounds that are not
  ordered, the refinement without a candidate, the shift outside its bounds, and the
  assertion inside the scorer. \<open>ValueError\<close> is the one that numpy raises for operands
  that do not broadcast; \<open>UnrecognizedMethod\<close> is
  \<^verbatim>\<open>ValueError('Unrecognized alignment method')\<close>; \<open>TypeError\<close> is raised by a
  subscript on a number that is not an array.
\<close>

datatype error =
    NotImplementedError
  | ValueError
  | IndexError
  | AssertBoundsOrdered
  | AssertNoCandidate
  | AssertShiftInBounds
  | ScoreError
  | UnrecognizedMethod
  | TypeError

section \<open>Worker pool size\<close>

text \<open>
  Lines 95 to 100 of \<^verbatim>\<open>_frame_alignment_base\<close>:
  \<^verbatim>\<open>
    if n_processes is None:
        n_pools = multiprocessing.cpu_count() / 2
    else:
        n_pools = n_processes
        if n_pools == 0:
            n_pools = 1
  \<close>
  The module is Python 2 (\<^verbatim>\<open>it.imap\<close>, \<^verbatim>\<open>future_builtins\<close>, no
  \<^verbatim>\<open>from __future__ import division\<close>), so \<^verbatim>\<open>/\<close> on two integers is floor
  division. The number of processors is an input of the environment.
\<close>

definition n_pools :: "int option \<Rightarrow> int \<Rightarrow> int" where
  "n_pools n_processes cpu_count =
     (case n_processes of
        None \<Rightarrow> cpu_count div 2
      | Some n \<Rightarrow> if n = 0 then 1 else n)"

section \<open>Vectors and arrays\<close>

text \<open>
  Displacements, offsets and bounds are integer vectors of length 3 (plane, row, column):
  \<^verbatim>\<open>namespace.offset = np.zeros(3, dtype=int)\<close>, \<^verbatim>\<open>pad_width[:3, 0]\<close>, and
  \<^verbatim>\<open>shifted_corr\<close> slices exactly three leading axes. The arrays the module works on
  have four axes (\<^verbatim>\<open>assert pixel_sums.ndim == 4\<close>): three spatial ones and the
  channel axis.
\<close>

type_synonym vec3 = "int \<times> int \<times> int"

type_synonym shape4 = "nat \<times> nat \<times> nat \<times> nat"

fun vadd :: "vec3 \<Rightarrow> vec3 \<Rightarrow> vec3" where
  "vadd (a0, a1, a2) (b0, b1, b2) = (a0 + b0, a1 + b1, a2 + b2)"

fun vsub :: "vec3 \<Rightarrow> vec3 \<Rightarrow> vec3" where
  "vsub (a0, a1, a2) (b0, b1, b2) = (a0 - b0, a1 - b1, a2 - b2)"

fun vneg :: "vec3 \<Rightarrow> vec3" where
  "vneg (a0, a1, a2) = (- a0, - a1, - a2)"

fun vmax :: "vec3 \<Rightarrow> vec3 \<Rightarrow> vec3" where
  "vmax (a0, a1, a2) (b0, b1, b2) = (max a0 b0, max a1 b1, max a2 b2)"

fun vmin :: "vec3 \<Rightarrow> vec3 \<Rightarrow> vec3" where
  "vmin (a0, a1, a2) (b0, b1, b2) = (min a0 b0, min a1 b1, min a2 b2)"

text \<open>\<^verbatim>\<open>np.all(a <= b)\<close> and \<^verbatim>\<open>np.all(a < b)\<close>.\<close>

fun vle :: "vec3 \<Rightarrow> vec3 \<Rightarrow> bool" where
  "vle (a0, a1, a2) (b0, b1, b2) = (a0 \<le> b0 \<and> a1 \<le> b1 \<and> a2 \<le> b2)"

fun vlt :: "vec3 \<Rightarrow> vec3 \<Rightarrow> bool" where
  "vlt (a0, a1, a2) (b0, b1, b2) = (a0 < b0 \<and> a1 < b1 \<and> a2 < b2)"

text \<open>
  A numpy array: its shape and its elements by index. An index outside the shape is never
  read by the functions below; where numpy would raise, they return an error.
\<close>

record 'a ndarray =
  shape :: shape4
  elems :: "shape4 \<Rightarrow> 'a"

fun in_range :: "shape4 \<Rightarrow> shape4 \<Rightarrow> bool" where
  "in_range (n0, n1, n2, n3) (i0, i1, i2, i3) = (i0 < n0 \<and> i1 < n1 \<and> i2 < n2 \<and> i3 < n3)"

definition map_array :: "('a \<Rightarrow> 'b) \<Rightarrow> 'a ndarray \<Rightarrow> 'b ndarray" where
  "map_array f a = \<lparr>shape = shape a, elems = (\<lambda>i. f (elems a i))\<rparr>"

text \<open>\<^verbatim>\<open>np.zeros(shape)\<close> and \<^verbatim>\<open>np.full(shape, v)\<close>.\<close>

definition zeros :: "shape4 \<Rightarrow> 'a::zero ndarray" where
  "zeros s = \<lparr>shape = s, elems = (\<lambda>i. 0)\<rparr>"

definition full :: "shape4 \<Rightarrow> 'a \<Rightarrow> 'a ndarray" where
  "full s v = \<lparr>shape = s, elems = (\<lambda>i. v)\<rparr>"

text \<open>
  \<^verbatim>\<open>np.pad(array, pad_width, 'constant')\<close>: \<open>pad_width\<close> gives, for each axis, the
  number of zeros put before and after.
\<close>

type_synonym pad_width = "(nat \<times> nat) \<times> (nat \<times> nat) \<times> (nat \<times> nat) \<times> (nat \<times> nat)"

fun np_pad :: "'a::zero ndarray \<Rightarrow> pad_width \<Rightarrow> 'a ndarray" where
  "np_pad a ((l0, h0), (l1, h1), (l2, h2), (l3, h3)) =
     (case shape a of (n0, n1, n2, n3) \<Rightarrow>
        \<lparr>shape = (l0 + n0 + h0, l1 + n1 + h1, l2 + n2 + h2, l3 + n3 + h3),
         elems = (\<lambda>(i0, i1, i2, i3).
           if l0 \<le> i0 \<and> i0 < l0 + n0 \<and> l1 \<le> i1 \<and> i1 < l1 + n1 \<and>
              l2 \<le> i2 \<and> i2 < l2 + n2 \<and> l3 \<le> i3 \<and> i3 < l3 + n3
           then elems a (i0 - l0, i1 - l1, i2 - l2, i3 - l3) else 0)\<rparr>)"

text \<open>\<^verbatim>\<open>np.any(pad_width)\<close>.\<close>

fun any_pad :: "pad_width \<Rightarrow> bool" where
  "any_pad ((l0, h0), (l1, h1), (l2, h2), (l3, h3)) =
     (l0 \<noteq> 0 \<or> h0 \<noteq> 0 \<or> l1 \<noteq> 0 \<or> h1 \<noteq> 0 \<or> l2 \<noteq> 0 \<or> h2 \<noteq> 0 \<or> l3 \<noteq> 0 \<or> h3 \<noteq> 0)"

text \<open>
  A Python slice \<^verbatim>\<open>slice(start, stop)\<close> on an axis of length \<open>n\<close>: a negative bound
  counts from the end, and both bounds are clamped to the axis. The result is the first
  index selected and the number of indices selected.
\<close>

definition slice_bound :: "nat \<Rightarrow> int \<Rightarrow> nat" where
  "slice_bound n x = (if x < 0 then nat (max (x + int n) 0) else min (nat x) n)"

definition py_slice :: "nat \<Rightarrow> int \<Rightarrow> int \<Rightarrow> nat \<times> nat" where
  "py_slice n start stop =
     (let s = slice_bound n start; t = slice_bound n stop in (s, t - s))"

text \<open>
  numpy's broadcasting of an operand axis of extent \<open>e\<close> to a target axis of extent
  \<open>l\<close>, and the operand index that a target index reads.
\<close>

definition broadcasts :: "nat \<Rightarrow> nat \<Rightarrow> bool" where
  "broadcasts e l = (e = l \<or> e = 1)"

definition bidx :: "nat \<Rightarrow> nat \<Rightarrow> nat" where
  "bidx e i = (if e = 1 then 0 else i)"

section \<open>The reference accumulator\<close>

text \<open>
  \<^verbatim>\<open>_resize_array\<close>:
  \<^verbatim>\<open>
    pad_width = np.zeros((len(array.shape), 2))
    pad_width[:3, 0] = - np.minimum(0, displacement)
    pad_width[:3, 1] = np.maximum(
        0, np.array(displacement) + np.array(frame_shape[:-1]) -
        np.array(array.shape[:-1]))
    if np.any(pad_width):
        array = np.pad(array, tuple(tuple(x) for x in pad_width.astype(int)),
                       'constant')
    return array
  \<close>
\<close>

definition resize_array :: "'a::zero ndarray \<Rightarrow> vec3 \<Rightarrow> shape4 \<Rightarrow> 'a ndarray" where
  "resize_array array displacement frame_shape =
     (case (shape array, displacement, frame_shape) of
        ((n0, n1, n2, n3), (d0, d1, d2), (f0, f1, f2, f3)) \<Rightarrow>
          let pad_width =
                ((nat (- min 0 d0), nat (max 0 (d0 + int f0 - int n0))),
                 (nat (- min 0 d1), nat (max 0 (d1 + int f1 - int n1))),
                 (nat (- min 0 d2), nat (max 0 (d2 + int f2 - int n2))),
                 (0, 0))
          in if any_pad pad_width then np_pad array pad_width else array)"

text \<open>
  \<^verbatim>\<open>_add_with_offset\<close>:
  \<^verbatim>\<open>
    slices = tuple(slice(o, o + e) for o, e in zip(offset, array2.shape))
    array1[slices] += array2
  \<close>
  The offset has three components, so three axes are sliced and the channel axis is taken
  whole. numpy raises \<^verbatim>\<open>ValueError\<close> when \<^verbatim>\<open>array2\<close> does not broadcast to the
  shape of the selection.
\<close>

definition add_with_offset ::
  "'a::plus ndarray \<Rightarrow> 'a ndarray \<Rightarrow> vec3 \<Rightarrow> error + 'a ndarray" where
  "add_with_offset array1 array2 offset =
     (case (shape array1, shape array2, offset) of
        ((n0, n1, n2, n3), (e0, e1, e2, e3), (o0, o1, o2)) \<Rightarrow>
          (case (py_slice n0 o0 (o0 + int e0), py_slice n1 o1 (o1 + int e1),
                 py_slice n2 o2 (o2 + int e2)) of
             ((s0, l0), (s1, l1), (s2, l2)) \<Rightarrow>
               if broadcasts e0 l0 \<and> broadcasts e1 l1 \<and> broadcasts e2 l2 \<and> broadcasts e3 n3
               then Inr (array1\<lparr>elems := (\<lambda>(i0, i1, i2, i3).
                      if s0 \<le> i0 \<and> i0 < s0 + l0 \<and> s1 \<le> i1 \<and> i1 < s1 + l1 \<and>
                         s2 \<le> i2 \<and> i2 < s2 + l2 \<and> i3 < n3
                      then elems array1 (i0, i1, i2, i3) +
                           elems array2 (bidx e0 (i0 - s0), bidx e1 (i1 - s1),
                                         bidx e2 (i2 - s2), bidx e3 i3)
                      else elems array1 (i0, i1, i2, i3))\<rparr>)
               else Inl ValueError))"

text \<open>
  \<^verbatim>\<open>_update_sums_and_counts\<close>:
  \<^verbatim>\<open>
    disp = offset + shift
    _add_with_offset(pixel_sums, np.nan_to_num(image), disp)
    _add_with_offset(pixel_counts, np.isfinite(image), disp)
    return pixel_sums, pixel_counts
  \<close>
  The floating-point primitives \<^verbatim>\<open>np.nan_to_num\<close> and \<^verbatim>\<open>np.isfinite\<close> are
  parameters; nothing is assumed of them, nor of the addition of the element type. A
  boolean added into the counts is 1 or 0.
\<close>

definition update_sums_and_counts ::
  "('a \<Rightarrow> 'a) \<Rightarrow> ('a \<Rightarrow> bool) \<Rightarrow> 'a::{zero,one,plus} ndarray \<Rightarrow> 'a ndarray \<Rightarrow> vec3 \<Rightarrow> vec3 \<Rightarrow>
     'a ndarray \<Rightarrow> error + ('a ndarray \<times> 'a ndarray)" where
  "update_sums_and_counts nan_to_num isfinite pixel_sums pixel_counts offset shift img =
     (let disp = vadd offset shift in
      case add_with_offset pixel_sums (map_array nan_to_num img) disp of
        Inl e \<Rightarrow> Inl e
      | Inr pixel_sums' \<Rightarrow>
          (case add_with_offset pixel_counts
                  (map_array (\<lambda>x. if isfinite x then 1 else 0) img) disp of
             Inl e \<Rightarrow> Inl e
           | Inr pixel_counts' \<Rightarrow> Inr (pixel_sums', pixel_counts')))"

text \<open>
  \<^verbatim>\<open>_update_reference\<close>:
  \<^verbatim>\<open>
    displacement = np.array(displacement)
    sums = _resize_array(sums, displacement + offset, image.shape)
    counts = _resize_array(counts, displacement + offset, image.shape)
    offset = np.maximum(offset, -displacement)
    sums, counts = _update_sums_and_counts(
        sums, counts, offset, displacement, image)
    return sums, counts, offset
  \<close>
\<close>

definition update_reference ::
  "('a \<Rightarrow> 'a) \<Rightarrow> ('a \<Rightarrow> bool) \<Rightarrow> 'a::{zero,one,plus} ndarray \<Rightarrow> 'a ndarray \<Rightarrow> vec3 \<Rightarrow> vec3 \<Rightarrow>
     'a ndarray \<Rightarrow> error + ('a ndarray \<times> 'a ndarray \<times> vec3)" where
  "update_reference nan_to_num isfinite sums0 counts0 offset displacement img =
     (let sums1 = resize_array sums0 (vadd displacement offset) (shape img);
          counts1 = resize_array counts0 (vadd displacement offset) (shape img);
          offset1 = vmax offset (vneg displacement)
      in case update_sums_and_counts nan_to_num isfinite sums1 counts1 offset1
                displacement img of
           Inl e \<Rightarrow> Inl e
         | Inr (sums2, counts2) \<Rightarrow> Inr (sums2, counts2, offset1))"

text \<open>
  A sequence of calls of \<^verbatim>\<open>_update_reference\<close>, each on the sums, counts and offset
  that the call before returned, as both callers make them
  (\<^verbatim>\<open>VolumeTranslation._estimate\<close> and \<^verbatim>\<open>_align_frame\<close>). An exception ends the
  sequence.
\<close>

fun update_all ::
  "('a \<Rightarrow> 'a) \<Rightarrow> ('a \<Rightarrow> bool) \<Rightarrow> 'a::{zero,one,plus} ndarray \<times> 'a ndarray \<times> vec3 \<Rightarrow>
     (vec3 \<times> 'a ndarray) list \<Rightarrow> error + ('a ndarray \<times> 'a ndarray \<times> vec3)" where
  "update_all nan_to_num isfinite st [] = Inr st"
| "update_all nan_to_num isfinite (sums0, counts0, offset) ((displacement, img) # calls) =
     (case update_reference nan_to_num isfinite sums0 counts0 offset displacement img of
        Inl e \<Rightarrow> Inl e
      | Inr st' \<Rightarrow> update_all nan_to_num isfinite st' calls)"

section \<open>The pyramid alignment engine\<close>

text \<open>
  Bounds are \<^verbatim>\<open>None\<close> or an array of shape (2, 3): a lower and an upper vector.
\<close>

type_synonym bounds = "(vec3 \<times> vec3) option"

type_synonym bool3 = "bool \<times> bool \<times> bool"

text \<open>
  What the engine calls and this model does not compute, since it is floating-point
  arithmetic or code outside the module:
  \<^item> \<^verbatim>\<open>scipy.ndimage.filters.gaussian_filter(image, stdevs)\<close>;
  \<^item> \<^verbatim>\<open>shifted_corr(reference, image, displacement)\<close>, the normalised
    cross-correlation of the overlap. It fails an assertion when the value is not finite
    (\<open>None\<close> here), so a score that is returned is a finite number, and finite numbers
    are linearly ordered. It subtracts the channel means from slices of its two
    arguments in place (\<^verbatim>\<open>ref -= nanmean(...)\<close> on a view), so it returns the two
    arrays as it leaves them, next to the score;
  \<^item> \<^verbatim>\<open>base_alignment(reference, target, bounds)\<close>, which is
    \<^verbatim>\<open>align_cross_correlation(reference, target, bounds)[0]\<close> of
    \<^verbatim>\<open>sima.misc.align\<close>.
\<close>

record ('a, 'c) externals =
  gaussian_filter :: "'a ndarray \<Rightarrow> rat \<times> rat \<times> rat \<times> rat \<Rightarrow> 'a ndarray"
  shifted_corr :: "'a ndarray \<Rightarrow> 'a ndarray \<Rightarrow> vec3 \<Rightarrow> ('c \<times> 'a ndarray \<times> 'a ndarray) option"
  base_alignment :: "'a ndarray \<Rightarrow> 'a ndarray \<Rightarrow> bounds \<Rightarrow> vec3"

text \<open>
  \<^verbatim>\<open>within_bounds\<close>:
  \<^verbatim>\<open>
    if bounds is None:
        return True
    assert len(displacement) == bounds.shape[1]
    return np.all(bounds[0] <= displacement) and \
        np.all(bounds[1] >= displacement)
  \<close>
  Both lengths are 3 here.
\<close>

definition within_bounds :: "vec3 \<Rightarrow> bounds \<Rightarrow> bool" where
  "within_bounds displacement bounds =
     (case bounds of
        None \<Rightarrow> True
      | Some (lower, upper) \<Rightarrow> vle lower displacement \<and> vle displacement upper)"

text \<open>\<^verbatim>\<open>np.nonzero(axes_bool)[0]\<close>: the indices of the axes that are downsampled.\<close>

fun nonzero :: "bool3 \<Rightarrow> nat list" where
  "nonzero (b0, b1, b2) =
     (if b0 then [0] else []) @ (if b1 then [1] else []) @ (if b2 then [2] else [])"

text \<open>The number of indices that \<^verbatim>\<open>slice(None, None, step)\<close> selects on an axis.\<close>

definition slice_len :: "nat \<Rightarrow> nat \<Rightarrow> nat" where
  "slice_len n step = (n + step - 1) div step"

text \<open>
  \<^verbatim>\<open>pyr_down_3d\<close>:
  \<^verbatim>\<open>
    stdevs = [1.05 if i in axes else 0 for i in range(image.ndim)]
    filtered_image = scipy.ndimage.filters.gaussian_filter(image, stdevs)
    slices = tuple(slice(None, None, 2) if i in axes else slice(None)
                   for i in range(filtered_image.ndim))
    return filtered_image[slices]
  \<close>
\<close>

definition pyr_down_3d ::
  "('a ndarray \<Rightarrow> rat \<times> rat \<times> rat \<times> rat \<Rightarrow> 'a ndarray) \<Rightarrow> 'a ndarray \<Rightarrow> nat list \<Rightarrow> 'a ndarray" where
  "pyr_down_3d gaussian_filter_fn img axes =
     (let stdev = (\<lambda>i. if i \<in> set axes then 105 / 100 else 0);
          filtered_image = gaussian_filter_fn img (stdev 0, stdev 1, stdev 2, stdev 3);
          step = (\<lambda>i. if i \<in> set axes then 2 else 1 :: nat)
      in case shape filtered_image of (n0, n1, n2, n3) \<Rightarrow>
           \<lparr>shape = (slice_len n0 (step 0), slice_len n1 (step 1), slice_len n2 (step 2),
                     slice_len n3 (step 3)),
            elems = (\<lambda>(i0, i1, i2, i3).
              elems filtered_image (i0 * step 0, i1 * step 1, i2 * step 2, i3 * step 3))\<rparr>)"

text \<open>
  The first lines of \<^verbatim>\<open>pyramid_align\<close>:
  \<^verbatim>\<open>
    if max_levels is None:
        max_levels = np.inf
    assert bounds is None or np.all(bounds[0] < bounds[1])  # BUGBUG
    smallest_shape = np.minimum(reference.shape[:-1], target.shape[:-1])
    axes_bool = smallest_shape >= 2 * np.array(min_shape)
    if max_levels > 0 and np.any(axes_bool):
  \<close>
  \<^verbatim>\<open>min_shape\<close> is an integer or a tuple of integers; an integer stands for the
  vector with that integer on every axis. \<^verbatim>\<open>max_levels\<close> is \<open>None\<close> for no limit.
\<close>

definition axes_bool :: "'a ndarray \<Rightarrow> 'a ndarray \<Rightarrow> vec3 \<Rightarrow> bool3" where
  "axes_bool reference target min_shape =
     (case (shape reference, shape target, min_shape) of
        ((r0, r1, r2, r3), (t0, t1, t2, t3), (m0, m1, m2)) \<Rightarrow>
          (int (min r0 t0) \<ge> 2 * m0, int (min r1 t1) \<ge> 2 * m1, int (min r2 t2) \<ge> 2 * m2))"

fun np_any :: "bool3 \<Rightarrow> bool" where
  "np_any (b0, b1, b2) = (b0 \<or> b1 \<or> b2)"

definition levels_left :: "int option \<Rightarrow> bool" where
  "levels_left max_levels = (case max_levels of None \<Rightarrow> True | Some n \<Rightarrow> n > 0)"

definition bounds_ordered :: "bounds \<Rightarrow> bool" where
  "bounds_ordered bounds = (case bounds of None \<Rightarrow> True | Some (lower, upper) \<Rightarrow> vlt lower upper)"

text \<open>
  \<^verbatim>\<open>(1 + axes_bool)\<close>, and \<^verbatim>\<open>bounds / (1 + axes_bool)\<close>. The module is Python 2
  and the bounds are integer arrays, so the division is floor division.
\<close>

fun one_plus :: "bool3 \<Rightarrow> vec3" where
  "one_plus (b0, b1, b2) = (if b0 then 2 else 1, if b1 then 2 else 1, if b2 then 2 else 1)"

fun vmul :: "vec3 \<Rightarrow> vec3 \<Rightarrow> vec3" where
  "vmul (a0, a1, a2) (b0, b1, b2) = (a0 * b0, a1 * b1, a2 * b2)"

fun vdiv :: "vec3 \<Rightarrow> vec3 \<Rightarrow> vec3" where
  "vdiv (a0, a1, a2) (b0, b1, b2) = (a0 div b0, a1 div b1, a2 div b2)"

definition new_bounds :: "bounds \<Rightarrow> bool3 \<Rightarrow> bounds" where
  "new_bounds bounds ab =
     (case bounds of
        None \<Rightarrow> None
      | Some (lower, upper) \<Rightarrow> Some (vdiv lower (one_plus ab), vdiv upper (one_plus ab)))"

text \<open>
  The refinement loop of \<^verbatim>\<open>pyramid_align\<close>:
  \<^verbatim>\<open>
    best_corr = -np.inf
    best_displacement = None
    for adjustment in it.product(
            *[range(-1, 2) if a else range(1) for a in axes_bool]):
        displacement = (1 + axes_bool) * disp + np.array(adjustment)
        if within_bounds(displacement, bounds):
            corr = shifted_corr(reference, target, displacement)
            if corr > best_corr:
                best_corr = corr
                best_displacement = displacement
    assert best_displacement is not None
    return best_displacement
  \<close>
  The pair of \<^verbatim>\<open>best_corr\<close> and \<^verbatim>\<open>best_displacement\<close> is \<open>None\<close> while it is
  \<^verbatim>\<open>(-np.inf, None)\<close>: every finite score is greater than \<^verbatim>\<open>-np.inf\<close>.
\<close>

definition adjustment_range :: "bool \<Rightarrow> int list" where
  "adjustment_range a = (if a then [- 1, 0, 1] else [0])"

fun adjustments :: "bool3 \<Rightarrow> vec3 list" where
  "adjustments (b0, b1, b2) =
     [(a0, a1, a2). a0 \<leftarrow> adjustment_range b0, a1 \<leftarrow> adjustment_range b1,
                    a2 \<leftarrow> adjustment_range b2]"

fun refine ::
  "('a ndarray \<Rightarrow> 'a ndarray \<Rightarrow> vec3 \<Rightarrow> ('c::linorder \<times> 'a ndarray \<times> 'a ndarray) option) \<Rightarrow>
     bounds \<Rightarrow> bool3 \<Rightarrow> vec3 \<Rightarrow> vec3 list \<Rightarrow> ('c \<times> vec3) option \<Rightarrow> 'a ndarray \<Rightarrow> 'a ndarray \<Rightarrow>
     error + (('c \<times> vec3) option \<times> 'a ndarray \<times> 'a ndarray)" where
  "refine score bounds ab disp [] best reference target = Inr (best, reference, target)"
| "refine score bounds ab disp (adjustment # rest) best reference target =
     (let displacement = vadd (vmul (one_plus ab) disp) adjustment in
      if within_bounds displacement bounds then
        (case score reference target displacement of
           None \<Rightarrow> Inl ScoreError
         | Some (corr, reference', target') \<Rightarrow>
             refine score bounds ab disp rest
               (if (case best of None \<Rightarrow> True | Some (best_corr, _) \<Rightarrow> corr > best_corr)
                then Some (corr, displacement) else best)
               reference' target')
      else refine score bounds ab disp rest best reference target)"

definition local_refinement ::
  "('a, 'c::linorder) externals \<Rightarrow> bounds \<Rightarrow> bool3 \<Rightarrow> vec3 \<Rightarrow> 'a ndarray \<Rightarrow> 'a ndarray \<Rightarrow>
     error + (vec3 \<times> 'a ndarray \<times> 'a ndarray)" where
  "local_refinement P bounds ab disp reference target =
     (case refine (shifted_corr P) bounds ab disp (adjustments ab) None reference target of
        Inl e \<Rightarrow> Inl e
      | Inr (None, _, _) \<Rightarrow> Inl AssertNoCandidate
      | Inr (Some (_, best_displacement), reference', target') \<Rightarrow>
          Inr (best_displacement, reference', target'))"

text \<open>
  \<^verbatim>\<open>pyramid_align\<close>, the recursion:
  \<^verbatim>\<open>
    if max_levels > 0 and np.any(axes_bool):
        axes = np.nonzero(axes_bool)[0]
        new_bounds = None if bounds is None else bounds / (1 + axes_bool)
        disp = pyramid_align(pyr_down_3d(reference, axes),
                             pyr_down_3d(target, axes),
                             min_shape, max_levels - 1, new_bounds)
        ...
    else:
        return base_alignment(reference, target, bounds)
  \<close>
  The result is \<open>None\<close> when the recursion does not end, \<open>Some (Inl e)\<close> when an
  exception is raised, and otherwise the displacement with the two arrays as the scorer
  left them. The arrays of the recursive call are new ones (the filter returns a new
  array), so what the scorer does to them is not seen outside the call.
\<close>

partial_function (option) pyramid_align ::
  "('a, 'c::linorder) externals \<Rightarrow> 'a ndarray \<Rightarrow> 'a ndarray \<Rightarrow> vec3 \<Rightarrow> int option \<Rightarrow> bounds \<Rightarrow>
     (error + (vec3 \<times> 'a ndarray \<times> 'a ndarray)) option" where
  "pyramid_align P reference target min_shape max_levels bounds =
     (if \<not> bounds_ordered bounds then Some (Inl AssertBoundsOrdered)
      else if levels_left max_levels \<and> np_any (axes_bool reference target min_shape) then
        Option.bind
          (pyramid_align P
             (pyr_down_3d (gaussian_filter P) reference
                (nonzero (axes_bool reference target min_shape)))
             (pyr_down_3d (gaussian_filter P) target
                (nonzero (axes_bool reference target min_shape)))
             min_shape (map_option (\<lambda>n. n - 1) max_levels)
             (new_bounds bounds (axes_bool reference target min_shape)))
          (\<lambda>res. case res of
               Inl e \<Rightarrow> Some (Inl e)
             | Inr (disp, _, _) \<Rightarrow>
                 Some (local_refinement P bounds (axes_bool reference target min_shape) disp
                         reference target))
      else Some (Inr (base_alignment P reference target bounds, reference, target)))"

section \<open>The frame alignment coordinator\<close>

text \<open>
  numpy's elementwise floating-point primitives that the coordinator uses: parameters, as
  in the accumulator.
\<close>

record 'a float_ops =
  np_nan_to_num :: "'a \<Rightarrow> 'a"
  np_isfinite :: "'a \<Rightarrow> bool"
  np_divide :: "'a \<Rightarrow> 'a \<Rightarrow> 'a"

text \<open>
  The shared namespace of \<^verbatim>\<open>_frame_alignment_base\<close>. The shift and correlation
  records are indexed by cycle, frame and plane.
\<close>

record ('a, 'c) namespace =
  offset :: vec3
  pixel_counts :: "'a ndarray"
  pixel_sums :: "'a ndarray"
  shifts :: "vec3 list list list"
  correlations :: "'c list list list"

text \<open>
  The namespace as \<^verbatim>\<open>_frame_alignment_base\<close> creates it:
  \<^verbatim>\<open>
    namespace.offset = np.zeros(3, dtype=int)
    namespace.pixel_counts = np.zeros(dataset.frame_shape)  # TODO: int?
    namespace.pixel_sums = np.zeros(dataset.frame_shape).astype('float64')
    namespace.shifts = [
        np.zeros(seq.shape[:2] + (3,), dtype=int) for seq in dataset]
    namespace.correlations = [np.empty(seq.shape[:2]) for seq in dataset]
  \<close>
  \<^verbatim>\<open>np.empty\<close> leaves its cells as they are in memory: some value, given here.
\<close>

definition init_namespace :: "shape4 \<Rightarrow> (nat \<times> nat) list \<Rightarrow> 'c \<Rightarrow> ('a::zero, 'c) namespace" where
  "init_namespace frame_shape seq_shapes uninitialised =
     \<lparr>offset = (0, 0, 0),
      pixel_counts = zeros frame_shape,
      pixel_sums = zeros frame_shape,
      shifts = map (\<lambda>(num_frames, num_planes). replicate num_frames (replicate num_planes (0, 0, 0)))
                 seq_shapes,
      correlations = map (\<lambda>(num_frames, num_planes).
                            replicate num_frames (replicate num_planes uninitialised)) seq_shapes\<rparr>"

text \<open>
  \<^verbatim>\<open>a.shape[0]\<close>; \<^verbatim>\<open>np.expand_dims(a[p], 0)\<close>; \<^verbatim>\<open>np.any(a[p])\<close>; and the
  assignment \<^verbatim>\<open>xs[c][f][p] = v\<close>, which raises \<^verbatim>\<open>IndexError\<close> out of range
  (the indices come from \<^verbatim>\<open>it.count()\<close>, so they are not negative).
\<close>

fun planes :: "shape4 \<Rightarrow> nat" where
  "planes (n0, n1, n2, n3) = n0"

definition expand_plane :: "'a ndarray \<Rightarrow> nat \<Rightarrow> 'a ndarray" where
  "expand_plane a p =
     (case shape a of (n0, n1, n2, n3) \<Rightarrow>
        \<lparr>shape = (1, n1, n2, n3), elems = (\<lambda>(i0, i1, i2, i3). elems a (p, i1, i2, i3))\<rparr>)"

definition np_any_plane :: "'a::zero ndarray \<Rightarrow> nat \<Rightarrow> bool" where
  "np_any_plane a p =
     (case shape a of (n0, n1, n2, n3) \<Rightarrow>
        \<exists>i1<n1. \<exists>i2<n2. \<exists>i3<n3. elems a (p, i1, i2, i3) \<noteq> 0)"

definition assign3 :: "'x list list list \<Rightarrow> nat \<Rightarrow> nat \<Rightarrow> nat \<Rightarrow> 'x \<Rightarrow> error + 'x list list list" where
  "assign3 xs c f p v =
     (if c < length xs \<and> f < length (xs ! c) \<and> p < length (xs ! c ! f)
      then Inr (xs[c := (xs ! c)[f := (xs ! c ! f)[p := v]]])
      else Inl IndexError)"

text \<open>
  \<^verbatim>\<open>reference = p_sums / p_counts\<close>: elementwise, with numpy's broadcasting of axes of
  extent 1, and \<^verbatim>\<open>ValueError\<close> when the shapes do not broadcast.
\<close>

definition broadcast_extent :: "nat \<Rightarrow> nat \<Rightarrow> nat option" where
  "broadcast_extent a b =
     (if a = b then Some a else if a = 1 then Some b else if b = 1 then Some a else None)"

definition array_divide ::
  "('a \<Rightarrow> 'a \<Rightarrow> 'a) \<Rightarrow> 'a ndarray \<Rightarrow> 'a ndarray \<Rightarrow> error + 'a ndarray" where
  "array_divide div_fn x y =
     (case (shape x, shape y) of
        ((a0, a1, a2, a3), (b0, b1, b2, b3)) \<Rightarrow>
          (case (broadcast_extent a0 b0, broadcast_extent a1 b1, broadcast_extent a2 b2,
                 broadcast_extent a3 b3) of
             (Some n0, Some n1, Some n2, Some n3) \<Rightarrow>
               Inr \<lparr>shape = (n0, n1, n2, n3),
                    elems = (\<lambda>(i0, i1, i2, i3).
                      div_fn (elems x (bidx a0 i0, bidx a1 i1, bidx a2 i2, bidx a3 i3))
                             (elems y (bidx b0 i0, bidx b1 i1, bidx b2 i2, bidx b3 i3)))\<rparr>
           | _ \<Rightarrow> Inl ValueError))"

text \<open>
  \<^verbatim>\<open>np.min(list(it.chain(*it.chain(*shifts))), axis=0)\<close>: the chain runs over the cycles,
  then over the frames, and yields the shift vector of every plane; the minimum is taken
  componentwise over all of them. Likewise \<^verbatim>\<open>np.max\<close>. Both raise
  \<^verbatim>\<open>ValueError\<close> on an empty list.
\<close>

definition np_min_axis0 :: "vec3 list \<Rightarrow> error + vec3" where
  "np_min_axis0 vs = (case vs of [] \<Rightarrow> Inl ValueError | v # rest \<Rightarrow> Inr (fold vmin rest v))"

definition np_max_axis0 :: "vec3 list \<Rightarrow> error + vec3" where
  "np_max_axis0 vs = (case vs of [] \<Rightarrow> Inl ValueError | v # rest \<Rightarrow> Inr (fold vmax rest v))"

fun vabs :: "vec3 \<Rightarrow> vec3" where
  "vabs (a0, a1, a2) = (\<bar>a0\<bar>, \<bar>a1\<bar>, \<bar>a2\<bar>)"

text \<open>
  The bounds \<^verbatim>\<open>_align_frame\<close> gives to the search:
  \<^verbatim>\<open>
    if max_displacement is not None and np.all(
            np.array(max_displacement) >= 0):
        min_shift = np.min(list(it.chain(*it.chain(*shifts))), axis=0)
        max_shift = np.max(list(it.chain(*it.chain(*shifts))), axis=0)
        displacement_bounds = p_offset + np.array(
            [np.minimum(max_shift - max_displacement, min_shift),
             np.maximum(min_shift + max_displacement, max_shift)])
    else:
        displacement_bounds = None
  \<close>
\<close>

definition displacement_bounds ::
  "vec3 option \<Rightarrow> vec3 list list list \<Rightarrow> vec3 \<Rightarrow> error + bounds" where
  "displacement_bounds max_displacement shifts_snapshot p_offset =
     (case max_displacement of
        None \<Rightarrow> Inr None
      | Some md \<Rightarrow>
          if vle (0, 0, 0) md then
            (case np_min_axis0 (concat (concat shifts_snapshot)) of
               Inl e \<Rightarrow> Inl e
             | Inr min_shift \<Rightarrow>
                 (case np_max_axis0 (concat (concat shifts_snapshot)) of
                    Inl e \<Rightarrow> Inl e
                  | Inr max_shift \<Rightarrow>
                      Inr (Some (vadd p_offset (vmin (vsub max_shift md) min_shift),
                                 vadd p_offset (vmax (vadd min_shift md) max_shift)))))
          else Inr None)"

text \<open>
  The body of \<^verbatim>\<open>_align_frame\<close> for a plane whose counts are all zero. A failure is
  returned with the namespace as the statements before it left it.
  \<^verbatim>\<open>
    corrs = namespace.correlations
    corrs[cycle_idx][frame_idx][p] = 1
    namespace.correlations = corrs
    s = namespace.shifts
    s[cycle_idx][frame_idx][p][:] = 0
    namespace.shifts = s
    namespace.pixel_sums, namespace.pixel_counts, \
        namespace.offset = _update_reference(
            namespace.pixel_sums, namespace.pixel_counts,
            namespace.offset, [p, 0, 0], np.expand_dims(plane, 0))
  \<close>
\<close>

definition seed_plane ::
  "'a float_ops \<Rightarrow> nat \<Rightarrow> 'a::{zero,one,plus} ndarray \<Rightarrow> nat \<Rightarrow> nat \<Rightarrow>
     ('a, 'c::one) namespace \<Rightarrow> (error \<times> ('a, 'c) namespace) + ('a, 'c) namespace" where
  "seed_plane F frame_idx plane cycle_idx p ns =
     (case assign3 (correlations ns) cycle_idx frame_idx p 1 of
        Inl e \<Rightarrow> Inl (e, ns)
      | Inr corrs \<Rightarrow>
          (let ns1 = ns\<lparr>correlations := corrs\<rparr> in
           case assign3 (shifts ns1) cycle_idx frame_idx p (0, 0, 0) of
             Inl e \<Rightarrow> Inl (e, ns1)
           | Inr s \<Rightarrow>
               (let ns2 = ns1\<lparr>shifts := s\<rparr> in
                case update_reference (np_nan_to_num F) (np_isfinite F) (pixel_sums ns2)
                       (pixel_counts ns2) (offset ns2) (int p, 0, 0) plane of
                  Inl e \<Rightarrow> Inl (e, ns2)
                | Inr (sums', counts', offset') \<Rightarrow>
                    Inr (ns2\<lparr>pixel_sums := sums', pixel_counts := counts',
                              offset := offset'\<rparr>))))"

text \<open>
  The end of the body for any other plane, once the search has returned \<^verbatim>\<open>shift\<close>:
  \<^verbatim>\<open>
    s = namespace.shifts
    s[cycle_idx][frame_idx][p][:] = shift - p_offset
    namespace.shifts = s
    shift = namespace.shifts[cycle_idx][frame_idx][p]
    namespace.pixel_sums, namespace.pixel_counts, \
        namespace.offset = _update_reference(
            namespace.pixel_sums, namespace.pixel_counts,
            namespace.offset, [p] + list(shift)[1:],
            np.expand_dims(plane, 0))
  \<close>
\<close>

definition commit_shift ::
  "'a float_ops \<Rightarrow> nat \<Rightarrow> 'a::{zero,one,plus} ndarray \<Rightarrow> nat \<Rightarrow> nat \<Rightarrow> vec3 \<Rightarrow> vec3 \<Rightarrow>
     ('a, 'c) namespace \<Rightarrow> (error \<times> ('a, 'c) namespace) + ('a, 'c) namespace" where
  "commit_shift F frame_idx plane cycle_idx p shift p_offset ns =
     (case assign3 (shifts ns) cycle_idx frame_idx p (vsub shift p_offset) of
        Inl e \<Rightarrow> Inl (e, ns)
      | Inr s \<Rightarrow>
          (let ns1 = ns\<lparr>shifts := s\<rparr> in
           case vsub shift p_offset of (s0, s1, s2) \<Rightarrow>
             (case update_reference (np_nan_to_num F) (np_isfinite F) (pixel_sums ns1)
                     (pixel_counts ns1) (offset ns1) (int p, s1, s2) plane of
                Inl e \<Rightarrow> Inl (e, ns1)
              | Inr (sums', counts', offset') \<Rightarrow>
                  Inr (ns1\<lparr>pixel_sums := sums', pixel_counts := counts',
                            offset := offset'\<rparr>))))"

text \<open>
  The body of the loop of \<^verbatim>\<open>_align_frame\<close> over the planes of a frame, run on its
  own (the model has one worker):
  \<^verbatim>\<open>
    any_check = np.any(namespace.pixel_counts[p])
    if not any_check:
        ... the seed plane ...
    if any_check:
        p_sums = namespace.pixel_sums[p]
        p_counts = namespace.pixel_counts[p]
        p_offset = namespace.offset
        shifts = namespace.shifts
        reference = p_sums / p_counts
        if method == 'correlation':
            ... displacement_bounds ...
            shift = pyramid_align(np.expand_dims(reference, 0),
                                  np.expand_dims(plane, 0),
                                  bounds=displacement_bounds)
            if displacement_bounds is not None:
                assert np.all(shift >= displacement_bounds[0])
                assert np.all(shift <= displacement_bounds[1])
                assert np.all(abs(shift - p_offset) <= max_displacement)
        elif method == 'ECC':
            raise NotImplementedError
        else:
            raise ValueError('Unrecognized alignment method')
        ... commit the shift ...
  \<close>
  \<^verbatim>\<open>pyramid_align\<close> is called with its defaults, \<^verbatim>\<open>min_shape=32\<close> and no limit on
  the levels. The plane it is given is a view of the frame, so what the scorer does to it
  is what \<^verbatim>\<open>_update_reference\<close> adds afterwards. The result is \<open>None\<close> when the
  search does not return.
\<close>

definition align_plane ::
  "('a, 'c::{one,linorder}) externals \<Rightarrow> 'a float_ops \<Rightarrow> nat \<Rightarrow> 'a::{zero,one,plus} ndarray \<Rightarrow> nat \<Rightarrow>
     string \<Rightarrow> vec3 option \<Rightarrow> nat \<Rightarrow> ('a, 'c) namespace \<Rightarrow>
     ((error \<times> ('a, 'c) namespace) + ('a, 'c) namespace) option" where
  "align_plane P F frame_idx frame cycle_idx method max_displacement p ns =
     (if \<not> p < planes (shape (pixel_counts ns)) then Some (Inl (IndexError, ns))
      else if \<not> np_any_plane (pixel_counts ns) p then
        Some (seed_plane F frame_idx (expand_plane frame p) cycle_idx p ns)
      else if \<not> p < planes (shape (pixel_sums ns)) then Some (Inl (IndexError, ns))
      else
        (case array_divide (np_divide F) (expand_plane (pixel_sums ns) p)
                (expand_plane (pixel_counts ns) p) of
           Inl e \<Rightarrow> Some (Inl (e, ns))
         | Inr reference \<Rightarrow>
             if method = ''correlation'' then
               (case displacement_bounds max_displacement (shifts ns) (offset ns) of
                  Inl e \<Rightarrow> Some (Inl (e, ns))
                | Inr bounds \<Rightarrow>
                    Option.bind
                      (pyramid_align P reference (expand_plane frame p) (32, 32, 32) None bounds)
                      (\<lambda>res. case res of
                           Inl e \<Rightarrow> Some (Inl (e, ns))
                         | Inr (shift, reference', plane') \<Rightarrow>
                             if (case (bounds, max_displacement) of
                                   (Some (lower, upper), Some md) \<Rightarrow>
                                     \<not> (vle lower shift \<and> vle shift upper \<and>
                                        vle (vabs (vsub shift (offset ns))) md)
                                 | _ \<Rightarrow> False)
                             then Some (Inl (AssertShiftInBounds, ns))
                             else Some (commit_shift F frame_idx plane' cycle_idx p shift
                                          (offset ns) ns)))
             else if method = ''ECC'' then Some (Inl (NotImplementedError, ns))
             else Some (Inl (UnrecognizedMethod, ns))))"

text \<open>
  \<^verbatim>\<open>_align_frame\<close>:
  \<^verbatim>\<open>
    frame_idx, frame, cycle_idx, method, max_displacement = inputs
    if max_displacement is not None:
        max_displacement = [0] + list(max_displacement)
    for p, plane in zip(it.count(), frame):
        ...
  \<close>
\<close>

fun align_frame_planes ::
  "('a, 'c::{one,linorder}) externals \<Rightarrow> 'a float_ops \<Rightarrow> nat \<Rightarrow> 'a::{zero,one,plus} ndarray \<Rightarrow> nat \<Rightarrow>
     string \<Rightarrow> vec3 option \<Rightarrow> nat list \<Rightarrow> ('a, 'c) namespace \<Rightarrow>
     ((error \<times> ('a, 'c) namespace) + ('a, 'c) namespace) option" where
  "align_frame_planes P F frame_idx frame cycle_idx method max_displacement [] ns = Some (Inr ns)"
| "align_frame_planes P F frame_idx frame cycle_idx method max_displacement (p # ps) ns =
     Option.bind (align_plane P F frame_idx frame cycle_idx method max_displacement p ns)
       (\<lambda>res. case res of
            Inl failure \<Rightarrow> Some (Inl failure)
          | Inr ns' \<Rightarrow> align_frame_planes P F frame_idx frame cycle_idx method max_displacement ps ns')"

definition align_frame ::
  "('a, 'c::{one,linorder}) externals \<Rightarrow> 'a float_ops \<Rightarrow>
     nat \<times> 'a::{zero,one,plus} ndarray \<times> nat \<times> string \<times> (int \<times> int) option \<Rightarrow> ('a, 'c) namespace \<Rightarrow>
     ((error \<times> ('a, 'c) namespace) + ('a, 'c) namespace) option" where
  "align_frame P F inputs ns =
     (case inputs of (frame_idx, frame, cycle_idx, method, max_displacement) \<Rightarrow>
        align_frame_planes P F frame_idx frame cycle_idx method
          (map_option (\<lambda>(y, x). (0, y, x)) max_displacement)
          [0..<planes (shape frame)] ns)"

text \<open>
  An instance to run the coordinator on: integers for pixel values, and the namespace for
  one cycle of two frames of one plane of 2 by 2 pixels and one channel.
\<close>

definition toy_float_ops :: "int float_ops" where
  "toy_float_ops =
     \<lparr>np_nan_to_num = (\<lambda>x. x), np_isfinite = (\<lambda>x. True),
      np_divide = (\<lambda>a b. a div b)\<rparr>"

definition toy_namespace :: "(int, int) namespace" where
  "toy_namespace = init_namespace (1, 2, 2, 1) [(2, 1)] 9"

text \<open>
  A frame of two planes of 2 by 2 pixels with the values 1 to 8, and the namespace for one
  cycle of one frame of that shape.
\<close>

definition two_plane_frame :: "int ndarray" where
  "two_plane_frame =
     \<lparr>shape = (2, 2, 2, 1), elems = (\<lambda>(i0, i1, i2, i3). int (4 * i0 + 2 * i1 + i2) + 1)\<rparr>"

definition two_plane_namespace :: "(int, int) namespace" where
  "two_plane_namespace = init_namespace (2, 2, 2, 1) [(1, 2)] 9"


section \<open>Plane drift correction\<close>

text \<open>
  The correction works on float64 numbers, and whether a second pass changes anything is
  decided by how they round. A finite float64 is modelled by the real number it stands
  for, and an operation by the exact operation followed by the rounding of IEEE 754
  binary64: to the nearest number with 53 significant bits, a tie to the one whose last
  bit is even. The numbers that arise here are integers of 64 bits, their sums, the
  quotient of such a sum by a count and the difference of two quotients: none overflows,
  and none is small enough to be subnormal, so the exponent needs no bounds.

  \<open>bit_length n\<close> is the number of binary digits of \<open>n\<close>; \<open>binade q\<close>, for a positive
  \<open>q\<close>, is the exponent \<open>e\<close> with \<open>2 ^ e \<le> q < 2 ^ (e + 1)\<close>.
\<close>

fun bit_length :: "nat \<Rightarrow> nat" where
  "bit_length n = (if n = 0 then 0 else Suc (bit_length (n div 2)))"

declare bit_length.simps [simp del]

definition binade :: "real \<Rightarrow> int" where
  "binade q = (if 1 \<le> q then int (bit_length (nat \<lfloor>q\<rfloor>)) - 1
               else - int (bit_length (nat (\<lceil>1 / q\<rceil> - 1))))"

definition round_half_even :: "real \<Rightarrow> int" where
  "round_half_even q =
     (if q - of_int \<lfloor>q\<rfloor> < 1 / 2 then \<lfloor>q\<rfloor>
      else if 1 / 2 < q - of_int \<lfloor>q\<rfloor> then \<lfloor>q\<rfloor> + 1
      else if even \<lfloor>q\<rfloor> then \<lfloor>q\<rfloor> else \<lfloor>q\<rfloor> + 1)"

definition float64 :: "real \<Rightarrow> real" where
  "float64 q =
     (if q = 0 then 0
      else sgn q * of_int (round_half_even (\<bar>q\<bar> / 2 powi (binade \<bar>q\<bar> - 52))) *
             2 powi (binade \<bar>q\<bar> - 52))"

text \<open>\<^verbatim>\<open>.astype(int)\<close> on a float64: the fraction is dropped, towards zero.\<close>

definition astype_int :: "real \<Rightarrow> int" where
  "astype_int q = (if 0 \<le> q then \<lfloor>q\<rfloor> else - \<lfloor>- q\<rfloor>)"

text \<open>
  \<^verbatim>\<open>nanmean(vs, axis=0)\<close> on a list of integer vectors of length 2
  (\<^verbatim>\<open>from bottleneck import nanmean\<close>, else \<^verbatim>\<open>scipy.stats.nanmean\<close>). Integers are
  never NaN, so every entry counts: each column is converted to float64 and summed in
  float64, in the order of the list, and the sum is divided by the number of vectors. On
  an empty list the result is a number, not an array.
\<close>

type_synonym vec2 = "int \<times> int"

definition float_mean :: "int list \<Rightarrow> real" where
  "float_mean xs =
     float64 (fold (\<lambda>x asum. float64 (asum + float64 (of_int x))) xs 0 / of_nat (length xs))"

definition nanmean_axis0 :: "vec2 list \<Rightarrow> (real \<times> real) option" where
  "nanmean_axis0 vs =
     (if vs = [] then None else Some (float_mean (map fst vs), float_mean (map snd vs)))"

text \<open>
  \<^verbatim>\<open>_align_planes\<close>, applied to \<^verbatim>\<open>[s[..., 1:] for s in namespace.shifts]\<close>, the
  row and column components of the shifts:
  \<^verbatim>\<open>
    mean_shift = nanmean(list(it.chain(*it.chain(*shifts))), axis=0)
    # calculate alteration of shape (num_planes, dim)
    alteration = (mean_shift - mean_shift[0]).astype(int)
    for seq in shifts:
        seq -= alteration
  \<close>
  The chain yields the shift vector of every plane of every frame of every cycle, so
  \<^verbatim>\<open>mean_shift\<close> has one entry per component, not per plane, and
  \<^verbatim>\<open>mean_shift[0]\<close> is the mean of the row component. On an empty list
  \<^verbatim>\<open>mean_shift\<close> is a number and the subscript raises \<^verbatim>\<open>TypeError\<close>. The
  subtraction of the two means is a float64 operation; the subtraction of the alteration
  from the shifts is one of integers.
\<close>

definition align_planes :: "vec2 list list list \<Rightarrow> error + vec2 list list list" where
  "align_planes shift_records =
     (case nanmean_axis0 (concat (concat shift_records)) of
        None \<Rightarrow> Inl TypeError
      | Some (mean_y, mean_x) \<Rightarrow>
          (let alteration = (astype_int (float64 (mean_y - mean_y)),
                             astype_int (float64 (mean_x - mean_y)))
           in Inr (map (map (map (\<lambda>(y, x). (y - fst alteration, x - snd alteration))))
                     shift_records)))"

section \<open>What the engine computes\<close>

text \<open>The notions the properties of the engine are stated with.\<close>

text \<open>The sum of the spatial extents that the two images share: the measure of the recursion.\<close>

fun spatial_size :: "shape4 \<Rightarrow> shape4 \<Rightarrow> nat" where
  "spatial_size (r0, r1, r2, r3) (t0, t1, t2, t3) = min r0 t0 + min r1 t1 + min r2 t2"

fun half_shape :: "bool3 \<Rightarrow> shape4 \<Rightarrow> shape4" where
  "half_shape (b0, b1, b2) (n0, n1, n2, n3) =
     (if b0 then (n0 + 1) div 2 else n0, if b1 then (n1 + 1) div 2 else n1,
      if b2 then (n2 + 1) div 2 else n2, n3)"

text \<open>
  An axis that is downsampled gets strictly shorter; every other axis, and the channel
  axis, keeps its extent.
\<close>

fun shrinks_on :: "bool3 \<Rightarrow> shape4 \<Rightarrow> shape4 \<Rightarrow> bool" where
  "shrinks_on (b0, b1, b2) (k0, k1, k2, k3) (n0, n1, n2, n3) =
     ((if b0 then k0 < n0 else k0 = n0) \<and> (if b1 then k1 < n1 else k1 = n1) \<and>
      (if b2 then k2 < n2 else k2 = n2) \<and> k3 = n3)"

text \<open>
  The candidates of the refinement, in the order of the loop, and the scores the loop
  computes for the candidates within the bounds, each on the arrays as the call before left
  them; \<open>None\<close> when a call of the scorer fails.
\<close>

definition candidates :: "bool3 \<Rightarrow> vec3 \<Rightarrow> vec3 list" where
  "candidates ab disp = map (\<lambda>adjustment. vadd (vmul (one_plus ab) disp) adjustment) (adjustments ab)"

fun scores ::
  "('a ndarray \<Rightarrow> 'a ndarray \<Rightarrow> vec3 \<Rightarrow> ('c \<times> 'a ndarray \<times> 'a ndarray) option) \<Rightarrow> bounds \<Rightarrow> vec3 list \<Rightarrow>
     'a ndarray \<Rightarrow> 'a ndarray \<Rightarrow> (vec3 \<times> 'c) list option" where
  "scores score bounds [] reference target = Some []"
| "scores score bounds (d # ds) reference target =
     (if within_bounds d bounds then
        (case score reference target d of
           None \<Rightarrow> None
         | Some (corr, reference', target') \<Rightarrow>
             map_option ((#) (d, corr)) (scores score bounds ds reference' target'))
      else scores score bounds ds reference target)"

text \<open>
  An instance of the external functions to run the engine on: a filter that returns
  its argument, a scorer that prefers larger row and column displacements and leaves the
  arrays as they are, and a base alignment that returns the lower bound.
\<close>

definition toy_externals :: "(int, int) externals" where
  "toy_externals =
     \<lparr>gaussian_filter = (\<lambda>img stdevs. img),
      shifted_corr = (\<lambda>reference target (d0, d1, d2). Some (d1 + d2, reference, target)),
      base_alignment = (\<lambda>reference target bounds.
         case bounds of None \<Rightarrow> (0, 0, 0) | Some (lower, upper) \<Rightarrow> lower)\<rparr>"

definition toy_trace :: "(vec3 \<times> int) list" where
  "toy_trace =
     [((0, - 2, - 2), - 4), ((0, - 2, - 1), - 3), ((0, - 1, - 2), - 3), ((0, - 1, - 1), - 2)]"


section \<open>What the accumulator holds\<close>

text \<open>
  The notions the properties of the accumulator are stated with. A coordinate of the
  reference frame is an array index minus the offset: the offset records how far the
  origin of the arrays has moved. A call with displacement \<open>d\<close> and an image of extent
  \<open>e\<close> covers the coordinates from \<open>d\<close> up to \<open>d + e\<close> on every spatial axis.
\<close>

fun channels :: "shape4 \<Rightarrow> nat" where
  "channels (n0, n1, n2, n3) = n3"

text \<open>The index that a cell has after the offset has grown by \<open>t\<close>.\<close>

fun shift_index :: "shape4 \<Rightarrow> vec3 \<Rightarrow> shape4" where
  "shift_index (i0, i1, i2, i3) (t0, t1, t2) =
     (nat (int i0 + t0), nat (int i1 + t1), nat (int i2 + t2), i3)"

type_synonym coord = "int \<times> int \<times> int \<times> nat"

fun coord_of :: "shape4 \<Rightarrow> vec3 \<Rightarrow> coord" where
  "coord_of (i0, i1, i2, i3) (o0, o1, o2) = (int i0 - o0, int i1 - o1, int i2 - o2, i3)"

fun covers :: "vec3 \<Rightarrow> shape4 \<Rightarrow> coord \<Rightarrow> bool" where
  "covers (d0, d1, d2) (e0, e1, e2, e3) (x0, x1, x2, c) =
     (d0 \<le> x0 \<and> x0 < d0 + int e0 \<and> d1 \<le> x1 \<and> x1 < d1 + int e1 \<and>
      d2 \<le> x2 \<and> x2 < d2 + int e2)"

fun pixel_at :: "'a ndarray \<Rightarrow> vec3 \<Rightarrow> coord \<Rightarrow> 'a" where
  "pixel_at img (d0, d1, d2) (x0, x1, x2, c) =
     elems img (nat (x0 - d0), nat (x1 - d1), nat (x2 - d2), bidx (channels (shape img)) c)"

text \<open>
  What a sequence of calls adds, in their order, to the value \<open>v\<close> at one coordinate. The
  additions are those of the element type, associated the way the calls make them.
\<close>

fun contributions :: "('a \<Rightarrow> 'a::plus) \<Rightarrow> (vec3 \<times> 'a ndarray) list \<Rightarrow> coord \<Rightarrow> 'a \<Rightarrow> 'a" where
  "contributions g [] x v = v"
| "contributions g ((d, img) # calls) x v =
     contributions g calls x (if covers d (shape img) x then v + g (pixel_at img d x) else v)"

text \<open>A block of extent \<open>e\<close> written at \<open>p\<close> lies inside the spatial axes of a shape.\<close>

fun fits :: "shape4 \<Rightarrow> vec3 \<Rightarrow> shape4 \<Rightarrow> bool" where
  "fits (n0, n1, n2, n3) (p0, p1, p2) (e0, e1, e2, e3) =
     (0 \<le> p0 \<and> p0 + int e0 \<le> int n0 \<and> 0 \<le> p1 \<and> p1 + int e1 \<le> int n1 \<and>
      0 \<le> p2 \<and> p2 + int e2 \<le> int n2)"

text \<open>
  The other way round: a coordinate of the reference frame is stored in an array with a
  given offset when its index, coordinate plus offset, is inside the shape; the value held
  at a coordinate is the element there, and zero where nothing is stored, as the padding
  of a later growth would give.
\<close>

fun stored :: "shape4 \<Rightarrow> vec3 \<Rightarrow> coord \<Rightarrow> bool" where
  "stored (n0, n1, n2, n3) (o0, o1, o2) (x0, x1, x2, c) =
     (0 \<le> x0 + o0 \<and> x0 + o0 < int n0 \<and> 0 \<le> x1 + o1 \<and> x1 + o1 < int n1 \<and>
      0 \<le> x2 + o2 \<and> x2 + o2 < int n2 \<and> c < n3)"

fun index_of :: "coord \<Rightarrow> vec3 \<Rightarrow> shape4" where
  "index_of (x0, x1, x2, c) (o0, o1, o2) = (nat (x0 + o0), nat (x1 + o1), nat (x2 + o2), c)"

definition value_at :: "'a::zero ndarray \<Rightarrow> vec3 \<Rightarrow> coord \<Rightarrow> 'a" where
  "value_at a off x = (if stored (shape a) off x then elems a (index_of x off) else 0)"

section \<open>The scorer\<close>

text \<open>
  \<^verbatim>\<open>shifted_corr\<close>:
  \<^verbatim>\<open>
    ref_cuts = np.maximum(0, displacement)
    ref = reference[ref_cuts[0]:, ref_cuts[1]:, ref_cuts[2]:]
    im_cuts = np.maximum(0, -displacement)
    im = image[im_cuts[0]:, im_cuts[1]:, im_cuts[2]:]
    s = np.minimum(im.shape, ref.shape)
    ref = ref[:s[0], :s[1], :s[2]]
    im = im[:s[0], :s[1], :s[2]]
    ref -= nanmean(ref.reshape(-1, ref.shape[-1]), axis=0)
    ref = np.nan_to_num(ref)
    im -= nanmean(im.reshape(-1, im.shape[-1]), axis=0)
    im = np.nan_to_num(im)
    assert np.all(np.isfinite(ref)) and np.all(np.isfinite(im))
    corr = np.mean([np.sum(i * r) / np.sqrt(np.sum(i * i) * np.sum(r * r)) for
                    i, r in zip(np.rollaxis(im, -1), np.rollaxis(ref, -1))])
    assert np.isfinite(corr)
    return corr
  \<close>
  The function is modelled for arrays of finite numbers and in exact arithmetic, on the
  reals: then \<^verbatim>\<open>nanmean\<close> is the mean, \<^verbatim>\<open>nan_to_num\<close> changes nothing and the first
  assertion holds. The rounding of float64 is not modelled; where the model is evaluated
  below, every number that arises has an exact float64.

  \<^verbatim>\<open>ref\<close> and \<^verbatim>\<open>im\<close> are views of the arguments (slices with a start and a stop),
  so the two subtractions with \<^verbatim>\<open>-=\<close> change the arrays of the caller: the result
  holds them next to the score. \<^verbatim>\<open>nan_to_num\<close> returns a new array.

  On one axis: where the two views start, and their common length.
\<close>

definition axis_overlap :: "nat \<Rightarrow> nat \<Rightarrow> int \<Rightarrow> nat \<times> nat \<times> nat" where
  "axis_overlap r t d =
     (slice_bound r (max 0 d), slice_bound t (max 0 (- d)),
      min (t - slice_bound t (max 0 (- d))) (r - slice_bound r (max 0 d)))"

text \<open>
  The indices of a view that starts at \<open>(s0, s1, s2)\<close> and has the extents
  \<open>(l0, l1, l2)\<close>, in the order of the array, and the values of one channel there.
\<close>

fun window :: "nat \<times> nat \<times> nat \<Rightarrow> nat \<times> nat \<times> nat \<Rightarrow> (nat \<times> nat \<times> nat) list" where
  "window (s0, s1, s2) (l0, l1, l2) =
     [(i0, i1, i2). i0 \<leftarrow> [s0..<s0 + l0], i1 \<leftarrow> [s1..<s1 + l1], i2 \<leftarrow> [s2..<s2 + l2]]"

definition channel_values :: "'a ndarray \<Rightarrow> (nat \<times> nat \<times> nat) list \<Rightarrow> nat \<Rightarrow> 'a list" where
  "channel_values a w c = map (\<lambda>(i0, i1, i2). elems a (i0, i1, i2, c)) w"

definition np_mean :: "real list \<Rightarrow> real" where
  "np_mean xs = sum_list xs / of_nat (length xs)"

text \<open>
  \<^verbatim>\<open>view -= nanmean(view.reshape(-1, view.shape[-1]), axis=0)\<close>: the array with the
  mean of every channel over the view subtracted inside the view. The means are those of
  the array as it was.
\<close>

definition subtract_means ::
  "real ndarray \<Rightarrow> nat \<times> nat \<times> nat \<Rightarrow> nat \<times> nat \<times> nat \<Rightarrow> real ndarray" where
  "subtract_means a start extent =
     (case (start, extent, shape a) of
        ((s0, s1, s2), (l0, l1, l2), (n0, n1, n2, n3)) \<Rightarrow>
          a\<lparr>elems := (\<lambda>(i0, i1, i2, i3).
               if s0 \<le> i0 \<and> i0 < s0 + l0 \<and> s1 \<le> i1 \<and> i1 < s1 + l1 \<and>
                  s2 \<le> i2 \<and> i2 < s2 + l2 \<and> i3 < n3
               then elems a (i0, i1, i2, i3) -
                    np_mean (channel_values a (window start extent) i3)
               else elems a (i0, i1, i2, i3))\<rparr>)"

text \<open>
  The score of one channel,
  \<^verbatim>\<open>np.sum(i * r) / np.sqrt(np.sum(i * i) * np.sum(r * r))\<close>. When the product under
  the root is zero, one of the two views is zero throughout (or empty), the quotient is
  0 / 0, and the score is NaN: \<open>None\<close>.
\<close>

definition channel_corr :: "real list \<Rightarrow> real list \<Rightarrow> real option" where
  "channel_corr i r =
     (if sum_list (map2 (*) i i) * sum_list (map2 (*) r r) = 0 then None
      else Some (sum_list (map2 (*) i r) /
                 sqrt (sum_list (map2 (*) i i) * sum_list (map2 (*) r r))))"

text \<open>
  The scorer. \<^verbatim>\<open>zip\<close> pairs the channels that both arrays have. The mean of the
  scores is NaN when one of them is, or when there is no channel; the last assertion then
  fails, and the result is \<open>None\<close>.
\<close>

definition shifted_corr_exact ::
  "real ndarray \<Rightarrow> real ndarray \<Rightarrow> vec3 \<Rightarrow> (real \<times> real ndarray \<times> real ndarray) option" where
  "shifted_corr_exact reference img displacement =
     (case (shape reference, shape img, displacement) of
        ((r0, r1, r2, r3), (t0, t1, t2, t3), (d0, d1, d2)) \<Rightarrow>
          (case (axis_overlap r0 t0 d0, axis_overlap r1 t1 d1, axis_overlap r2 t2 d2) of
             ((rc0, ic0, s0), (rc1, ic1, s1), (rc2, ic2, s2)) \<Rightarrow>
               let reference' = subtract_means reference (rc0, rc1, rc2) (s0, s1, s2);
                   img' = subtract_means img (ic0, ic1, ic2) (s0, s1, s2)
               in case those (map (\<lambda>c. channel_corr
                                 (channel_values img' (window (ic0, ic1, ic2) (s0, s1, s2)) c)
                                 (channel_values reference' (window (rc0, rc1, rc2) (s0, s1, s2)) c))
                            [0..<min t3 r3]) of
                    None \<Rightarrow> None
                  | Some corrs \<Rightarrow>
                      if corrs = [] then None else Some (np_mean corrs, reference', img')))"

text \<open>
  An image to run the engine with this scorer on: one plane, one row, four columns with
  the values 4, 7, 7, 4, and one channel.
\<close>

definition bump_row :: "real ndarray" where
  "bump_row = \<lparr>shape = (1, 1, 4, 1),
               elems = (\<lambda>(i0, i1, i2, i3). if i2 = 1 \<or> i2 = 2 then 7 else 4)\<rparr>"

section \<open>Properties of the worker pool size\<close>

lemma n_pools_explicit_zero: "n_pools (Some 0) cpu_count = 1"
  by (simp add: n_pools_def)

lemma n_pools_explicit_other: "n \<noteq> 0 \<Longrightarrow> n_pools (Some n) cpu_count = n"
  by (simp add: n_pools_def)

lemma n_pools_default: "n_pools None cpu_count = cpu_count div 2"
  by (simp add: n_pools_def)

text \<open>
  Claim C9, at its failing input. The claim gives the default pool size as half the
  hardware parallelism with a minimum of 1. On a machine with one processor the default
  branch computes 0: the normalisation of 0 to 1 is applied to an explicit
  \<^verbatim>\<open>n_processes\<close> only.
\<close>

theorem n_pools_default_single_cpu:
  "n_pools None 1 = 0 \<and> n_pools None 1 \<noteq> max 1 (1 div 2) \<and> n_pools (Some 0) 1 = 1"
  by (simp add: n_pools_def)

section \<open>Properties of the reference accumulator\<close>

subsection \<open>Resizing and adding, one axis at a time\<close>

lemma resize_array_shape:
  "shape (resize_array a (d0, d1, d2) (f0, f1, f2, f3)) =
     (case shape a of (n0, n1, n2, n3) \<Rightarrow>
       (nat (- min 0 d0) + n0 + nat (max 0 (d0 + int f0 - int n0)),
        nat (- min 0 d1) + n1 + nat (max 0 (d1 + int f1 - int n1)),
        nat (- min 0 d2) + n2 + nat (max 0 (d2 + int f2 - int n2)), n3))"
  by (cases "shape a") (auto simp: resize_array_def Let_def)

lemma resize_array_elems:
  assumes "in_range (shape a) (i0, i1, i2, i3)"
  shows "elems (resize_array a (d0, d1, d2) fs)
           (i0 + nat (- min 0 d0), i1 + nat (- min 0 d1), i2 + nat (- min 0 d2), i3) =
         elems a (i0, i1, i2, i3)"
  using assms by (cases "shape a"; cases fs) (auto simp: resize_array_def Let_def)

lemma py_slice_inside:
  "0 \<le> x \<Longrightarrow> nat x + e \<le> n \<Longrightarrow> py_slice n x (x + int e) = (nat x, e)"
  by (auto simp: py_slice_def slice_bound_def Let_def min_def)

text \<open>One axis: the insertion point after the resize is inside the resized axis.\<close>

lemma axis_fits:
  fixes d off :: int and e n :: nat
  shows "0 \<le> max off (- d) + d"
    and "nat (max off (- d) + d) + e \<le>
          nat (- min 0 (d + off)) + n + nat (max 0 (d + off + int e - int n))"
    and "nat (max off (- d) - off) = nat (- min 0 (d + off))"
  by (auto simp: max_def min_def)

lemma axis_slice:
  fixes d off :: int and e n :: nat
  shows "py_slice (nat (- min 0 (d + off)) + n + nat (max 0 (d + off + int e - int n)))
           (max off (- d) + d) (max off (- d) + d + int e) = (nat (max off (- d) + d), e)"
  by (rule py_slice_inside) (rule axis_fits)+

lemma add_with_offset_shape:
  "add_with_offset a b off = Inr a' \<Longrightarrow> shape a' = shape a"
  by (cases "shape a"; cases "shape b"; cases off)
     (auto simp: add_with_offset_def split: prod.splits if_splits)

lemma update_reference_Inr:
  assumes "update_reference n f sums0 counts0 off d img = Inr (s', c', o')"
  shows "o' = vmax off (vneg d)"
    and "add_with_offset (resize_array sums0 (vadd d off) (shape img)) (map_array n img)
           (vadd o' d) = Inr s'"
    and "add_with_offset (resize_array counts0 (vadd d off) (shape img))
           (map_array (\<lambda>x. if f x then 1 else 0) img) (vadd o' d) = Inr c'"
  using assms
  by (auto simp: update_reference_def update_sums_and_counts_def Let_def
      split: sum.splits prod.splits)


lemma add_after_resize:
  assumes sa: "shape a = (n0, n1, n2, n3)" and sb: "shape b = (e0, e1, e2, e3)"
    and r: "r = resize_array a (vadd (d0, d1, d2) (o0, o1, o2)) (shape b)"
  shows "add_with_offset r b (vadd (vmax (o0, o1, o2) (vneg (d0, d1, d2))) (d0, d1, d2)) =
         (if broadcasts e3 n3 then
            Inr (r\<lparr>elems := (\<lambda>(i0, i1, i2, i3).
                 if nat (max o0 (- d0) + d0) \<le> i0 \<and> i0 < nat (max o0 (- d0) + d0) + e0 \<and>
                    nat (max o1 (- d1) + d1) \<le> i1 \<and> i1 < nat (max o1 (- d1) + d1) + e1 \<and>
                    nat (max o2 (- d2) + d2) \<le> i2 \<and> i2 < nat (max o2 (- d2) + d2) + e2 \<and>
                    i3 < n3
                 then elems r (i0, i1, i2, i3) +
                      elems b (bidx e0 (i0 - nat (max o0 (- d0) + d0)),
                               bidx e1 (i1 - nat (max o1 (- d1) + d1)),
                               bidx e2 (i2 - nat (max o2 (- d2) + d2)), bidx e3 i3)
                 else elems r (i0, i1, i2, i3))\<rparr>)
          else Inl ValueError)"
proof -
  have sh: "shape r =
       (nat (- min 0 (d0 + o0)) + n0 + nat (max 0 (d0 + o0 + int e0 - int n0)),
        nat (- min 0 (d1 + o1)) + n1 + nat (max 0 (d1 + o1 + int e1 - int n1)),
        nat (- min 0 (d2 + o2)) + n2 + nat (max 0 (d2 + o2 + int e2 - int n2)), n3)"
    by (simp add: r resize_array_shape sa sb)
  show ?thesis
    by (simp add: add_with_offset_def sb sh axis_slice broadcasts_def)
qed

lemma bidx_self: "i < e \<Longrightarrow> bidx e i = i"
  by (auto simp: bidx_def)

text \<open>One call: it succeeds exactly when the channel axes broadcast.\<close>

lemma update_reference_total:
  assumes "broadcasts (channels (shape img)) (channels (shape sums0))"
    and "broadcasts (channels (shape img)) (channels (shape counts0))"
  shows "\<exists>s' c'. update_reference n f sums0 counts0 off d img = Inr (s', c', vmax off (vneg d))"
proof -
  obtain n0 n1 n2 n3 where sa: "shape sums0 = (n0, n1, n2, n3)" by (cases "shape sums0")
  obtain m0 m1 m2 m3 where sc: "shape counts0 = (m0, m1, m2, m3)" by (cases "shape counts0")
  obtain e0 e1 e2 e3 where sb: "shape img = (e0, e1, e2, e3)" by (cases "shape img")
  obtain d0 d1 d2 where d: "d = (d0, d1, d2)" by (cases d)
  obtain o0 o1 o2 where off: "off = (o0, o1, o2)" by (cases off)
  have sbn: "shape (map_array n img) = (e0, e1, e2, e3)"
    and sbf: "shape (map_array (\<lambda>x. if f x then 1 else 0 :: 'a) img) = (e0, e1, e2, e3)"
    by (simp_all add: map_array_def sb)
  from assms have b: "broadcasts e3 n3" "broadcasts e3 m3" by (simp_all add: sa sb sc)
  have 1: "\<exists>s'. add_with_offset (resize_array sums0 (vadd d off) (shape img)) (map_array n img)
              (vadd (vmax off (vneg d)) d) = Inr s'"
    using add_after_resize [OF sa sbn, of _ d0 d1 d2 o0 o1 o2] b
    by (simp add: d off sbn sb)
  have 2: "\<exists>c'. add_with_offset (resize_array counts0 (vadd d off) (shape img))
              (map_array (\<lambda>x. if f x then 1 else 0) img)
              (vadd (vmax off (vneg d)) d) = Inr c'"
    using add_after_resize [OF sc sbf, of _ d0 d1 d2 o0 o1 o2] b
    by (simp add: d off sbf sb)
  from 1 2 show ?thesis
    by (auto simp: update_reference_def update_sums_and_counts_def Let_def)
qed


lemma axis_window:
  fixes d off :: int and i e :: nat
  shows "(nat (max off (- d) + d) \<le> i + nat (- min 0 (d + off))) = (d \<le> int i - off)"
    and "(i + nat (- min 0 (d + off)) < nat (max off (- d) + d) + e) = (int i - off < d + int e)"
    and "d \<le> int i - off \<Longrightarrow>
         i + nat (- min 0 (d + off)) - nat (max off (- d) + d) = nat (int i - off - d)"
  by (auto simp: max_def min_def)

lemma accumulate_step:
  assumes add: "add_with_offset (resize_array a (vadd d off) (shape img)) (map_array g img)
                  (vadd (vmax off (vneg d)) d) = Inr a'"
    and ir: "in_range (shape a) i"
  shows "shape a' = shape (resize_array a (vadd d off) (shape img)) \<and>
         in_range (shape a') (shift_index i (vsub (vmax off (vneg d)) off)) \<and>
         elems a' (shift_index i (vsub (vmax off (vneg d)) off)) =
           (if covers d (shape img) (coord_of i off)
            then elems a i + g (pixel_at img d (coord_of i off)) else elems a i)"
proof -
  obtain n0 n1 n2 n3 where sa: "shape a = (n0, n1, n2, n3)" by (cases "shape a")
  obtain e0 e1 e2 e3 where sb: "shape img = (e0, e1, e2, e3)" by (cases "shape img")
  obtain d0 d1 d2 where d: "d = (d0, d1, d2)" by (cases d)
  obtain o0 o1 o2 where off: "off = (o0, o1, o2)" by (cases off)
  obtain i0 i1 i2 i3 where i: "i = (i0, i1, i2, i3)" by (cases i)
  define r where "r = resize_array a (vadd (d0, d1, d2) (o0, o1, o2)) (shape (map_array g img))"
  have sbg: "shape (map_array g img) = (e0, e1, e2, e3)"
    by (simp add: map_array_def sb)
  have r': "resize_array a (vadd d off) (shape img) = r"
    by (simp add: r_def d off sbg sb)
  from ir have lt: "i0 < n0" "i1 < n1" "i2 < n2" "i3 < n3" by (simp_all add: sa i)
  have sh: "shape r =
       (nat (- min 0 (d0 + o0)) + n0 + nat (max 0 (d0 + o0 + int e0 - int n0)),
        nat (- min 0 (d1 + o1)) + n1 + nat (max 0 (d1 + o1 + int e1 - int n1)),
        nat (- min 0 (d2 + o2)) + n2 + nat (max 0 (d2 + o2 + int e2 - int n2)), n3)"
    by (simp add: r_def resize_array_shape sa sbg)
  have re: "elems r (i0 + nat (- min 0 (d0 + o0)), i1 + nat (- min 0 (d1 + o1)),
                     i2 + nat (- min 0 (d2 + o2)), i3) = elems a (i0, i1, i2, i3)"
    unfolding r_def vadd.simps by (rule resize_array_elems) (use ir in \<open>simp add: i\<close>)
  have j: "shift_index i (vsub (vmax off (vneg d)) off) =
        (i0 + nat (- min 0 (d0 + o0)), i1 + nat (- min 0 (d1 + o1)),
         i2 + nat (- min 0 (d2 + o2)), i3)"
    by (simp add: i d off) (auto simp: max_def min_def)
  from add have "add_with_offset r (map_array g img)
      (vadd (vmax (o0, o1, o2) (vneg (d0, d1, d2))) (d0, d1, d2)) = Inr a'"
    unfolding r' by (simp add: d off)
  then have b: "broadcasts e3 n3" and a': "a' = r\<lparr>elems := (\<lambda>(i0, i1, i2, i3).
                 if nat (max o0 (- d0) + d0) \<le> i0 \<and> i0 < nat (max o0 (- d0) + d0) + e0 \<and>
                    nat (max o1 (- d1) + d1) \<le> i1 \<and> i1 < nat (max o1 (- d1) + d1) + e1 \<and>
                    nat (max o2 (- d2) + d2) \<le> i2 \<and> i2 < nat (max o2 (- d2) + d2) + e2 \<and>
                    i3 < n3
                 then elems r (i0, i1, i2, i3) +
                      elems (map_array g img) (bidx e0 (i0 - nat (max o0 (- d0) + d0)),
                               bidx e1 (i1 - nat (max o1 (- d1) + d1)),
                               bidx e2 (i2 - nat (max o2 (- d2) + d2)), bidx e3 i3)
                 else elems r (i0, i1, i2, i3))\<rparr>"
    unfolding add_after_resize [OF sa sbg r_def] by (simp_all split: if_splits)
  have 1: "shape a' = shape (resize_array a (vadd d off) (shape img))"
    by (simp add: a' r')
  have 2: "in_range (shape a') (shift_index i (vsub (vmax off (vneg d)) off))"
    using lt by (simp add: a' sh j)
  have cov: "covers d (shape img) (coord_of i off) =
        ((d0 \<le> int i0 - o0 \<and> int i0 - o0 < d0 + int e0) \<and>
         (d1 \<le> int i1 - o1 \<and> int i1 - o1 < d1 + int e1) \<and>
         (d2 \<le> int i2 - o2 \<and> int i2 - o2 < d2 + int e2))"
    by (simp add: d sb i off)
  have pix: "pixel_at img d (coord_of i off) =
        elems img (nat (int i0 - o0 - d0), nat (int i1 - o1 - d1), nat (int i2 - o2 - d2),
                   bidx e3 i3)"
    by (simp add: d sb i off)
  have 3: "elems a' (shift_index i (vsub (vmax off (vneg d)) off)) =
           (if covers d (shape img) (coord_of i off)
            then elems a i + g (pixel_at img d (coord_of i off)) else elems a i)"
    unfolding j cov pix
  proof (cases "(d0 \<le> int i0 - o0 \<and> int i0 - o0 < d0 + int e0) \<and>
         (d1 \<le> int i1 - o1 \<and> int i1 - o1 < d1 + int e1) \<and>
         (d2 \<le> int i2 - o2 \<and> int i2 - o2 < d2 + int e2)")
    case True
    then have k: "bidx e0 (nat (int i0 - o0 - d0)) = nat (int i0 - o0 - d0)"
        "bidx e1 (nat (int i1 - o1 - d1)) = nat (int i1 - o1 - d1)"
        "bidx e2 (nat (int i2 - o2 - d2)) = nat (int i2 - o2 - d2)"
      by (auto intro!: bidx_self)
    show "elems a' (i0 + nat (- min 0 (d0 + o0)), i1 + nat (- min 0 (d1 + o1)),
                    i2 + nat (- min 0 (d2 + o2)), i3) =
       (if (d0 \<le> int i0 - o0 \<and> int i0 - o0 < d0 + int e0) \<and>
         (d1 \<le> int i1 - o1 \<and> int i1 - o1 < d1 + int e1) \<and>
         (d2 \<le> int i2 - o2 \<and> int i2 - o2 < d2 + int e2)
        then elems a i + g (elems img (nat (int i0 - o0 - d0), nat (int i1 - o1 - d1),
                 nat (int i2 - o2 - d2), bidx e3 i3)) else elems a i)"
      using True lt
      by (simp add: a' re axis_window k map_array_def i)
  next
    case False
    show "elems a' (i0 + nat (- min 0 (d0 + o0)), i1 + nat (- min 0 (d1 + o1)),
                    i2 + nat (- min 0 (d2 + o2)), i3) =
       (if (d0 \<le> int i0 - o0 \<and> int i0 - o0 < d0 + int e0) \<and>
         (d1 \<le> int i1 - o1 \<and> int i1 - o1 < d1 + int e1) \<and>
         (d2 \<le> int i2 - o2 \<and> int i2 - o2 < d2 + int e2)
        then elems a i + g (elems img (nat (int i0 - o0 - d0), nat (int i1 - o1 - d1),
                 nat (int i2 - o2 - d2), bidx e3 i3)) else elems a i)"
      using False lt
      by (auto simp add: a' re axis_window i)
  qed
  from 1 2 3 show ?thesis by blast
qed

lemma vle_refl: "vle a a"
  by (cases a) simp

lemma vle_trans: "vle a b \<Longrightarrow> vle b c \<Longrightarrow> vle a c"
  by (cases a; cases b; cases c) simp

lemma vle_vmax: "vle a (vmax a b)"
  by (cases a; cases b) simp

lemma insertion_nonneg: "vle (0, 0, 0) (vadd (vmax off (vneg d)) d)"
  by (cases off; cases d) (simp add: max_def)

lemma resize_array_fits:
  "fits (shape (resize_array a (vadd d off) fs)) (vadd (vmax off (vneg d)) d) fs"
proof -
  obtain n0 n1 n2 n3 where sa: "shape a = (n0, n1, n2, n3)" by (cases "shape a")
  obtain e0 e1 e2 e3 where fs: "fs = (e0, e1, e2, e3)" by (cases fs)
  obtain d0 d1 d2 where d: "d = (d0, d1, d2)" by (cases d)
  obtain o0 o1 o2 where off: "off = (o0, o1, o2)" by (cases off)
  show ?thesis
    by (simp add: sa fs d off resize_array_shape) (auto simp: max_def min_def)
qed

lemma resize_array_same:
  "shape a = shape b \<Longrightarrow> shape (resize_array a d fs) = shape (resize_array b d fs)"
  by (cases d; cases fs) (simp add: resize_array_shape)

lemma resize_array_channels:
  "channels (shape (resize_array a d fs)) = channels (shape a)"
  by (cases d; cases fs; cases "shape a") (simp add: resize_array_shape)

lemma update_all_offset_mono:
  "update_all n f (sums0, counts0, off) calls = Inr (sums0', counts0', off') \<Longrightarrow> vle off off'"
proof (induction calls arbitrary: sums0 counts0 off)
  case Nil
  then show ?case by (simp add: vle_refl)
next
  case (Cons c calls)
  obtain d img where c: "c = (d, img)" by (cases c)
  from Cons.prems obtain s1 c1 o1 where
    1: "update_reference n f sums0 counts0 off d img = Inr (s1, c1, o1)" and
    2: "update_all n f (s1, c1, o1) calls = Inr (sums0', counts0', off')"
    by (auto simp: c split: sum.splits)
  from 1 have "o1 = vmax off (vneg d)" by (rule update_reference_Inr)
  then have "vle off o1" by (simp add: vle_vmax)
  moreover from 2 have "vle o1 off'" by (rule Cons.IH)
  ultimately show ?case by (rule vle_trans)
qed

lemma shift_index_twice:
  "vle a b \<Longrightarrow> vle b c \<Longrightarrow> shift_index (shift_index i (vsub b a)) (vsub c b) = shift_index i (vsub c a)"
  by (cases a; cases b; cases c; cases i) auto

lemma coord_of_shift:
  "vle a b \<Longrightarrow> coord_of (shift_index i (vsub b a)) b = coord_of i a"
  by (cases a; cases b; cases i) auto

lemma shift_index_zero: "shift_index i (vsub a a) = i"
  by (cases a; cases i) simp

lemma contributions_uncovered:
  "\<forall>(d, img) \<in> set calls. \<not> covers d (shape img) x \<Longrightarrow> contributions g calls x v = v"
  by (induction calls arbitrary: v) auto

text \<open>
  One call, at every coordinate: what the array holds after the addition, also in the
  cells that the resize has added.
\<close>

lemma axis_cell:
  fixes d off x :: int and e n :: nat
  shows "0 \<le> x + off \<Longrightarrow> x + off < int n \<Longrightarrow>
           0 \<le> x + max off (- d) \<and>
           x + max off (- d) <
             int (nat (- min 0 (d + off)) + n + nat (max 0 (d + off + int e - int n)))"
    and "0 \<le> x + max off (- d) \<Longrightarrow>
           (nat (- min 0 (d + off)) \<le> nat (x + max off (- d)) \<and>
            nat (x + max off (- d)) < nat (- min 0 (d + off)) + n) =
           (0 \<le> x + off \<and> x + off < int n)"
    and "0 \<le> x + off \<Longrightarrow>
           nat (x + max off (- d)) - nat (- min 0 (d + off)) = nat (x + off)"
    and "0 \<le> x + max off (- d) \<Longrightarrow>
           (nat (max off (- d) + d) \<le> nat (x + max off (- d)) \<and>
            nat (x + max off (- d)) < nat (max off (- d) + d) + e) =
           (d \<le> x \<and> x < d + int e)"
    and "d \<le> x \<Longrightarrow> x < d + int e \<Longrightarrow>
           0 \<le> x + max off (- d) \<and>
           x + max off (- d) <
             int (nat (- min 0 (d + off)) + n + nat (max 0 (d + off + int e - int n)))"
    and "d \<le> x \<Longrightarrow> nat (x + max off (- d)) - nat (max off (- d) + d) = nat (x - d)"
  by (auto simp: max_def min_def)


lemma nat_less_int: "0 \<le> x \<Longrightarrow> x < int n \<Longrightarrow> nat x < n"
  by simp

lemma resize_array_elems_all:
  assumes sa: "shape a = (n0, n1, n2, n3)"
    and ir: "in_range (shape (resize_array a (d0, d1, d2) fs)) (j0, j1, j2, j3)"
  shows "elems (resize_array a (d0, d1, d2) fs) (j0, j1, j2, j3) =
           (if nat (- min 0 d0) \<le> j0 \<and> j0 < nat (- min 0 d0) + n0 \<and>
               nat (- min 0 d1) \<le> j1 \<and> j1 < nat (- min 0 d1) + n1 \<and>
               nat (- min 0 d2) \<le> j2 \<and> j2 < nat (- min 0 d2) + n2
            then elems a (j0 - nat (- min 0 d0), j1 - nat (- min 0 d1), j2 - nat (- min 0 d2), j3)
            else 0)"
proof (cases fs)
  case (fields f0 f1 f2 f3)
  show ?thesis
  proof (cases "any_pad ((nat (- min 0 d0), nat (max 0 (d0 + int f0 - int n0))),
                 (nat (- min 0 d1), nat (max 0 (d1 + int f1 - int n1))),
                 (nat (- min 0 d2), nat (max 0 (d2 + int f2 - int n2))),
                 (0, 0))")
    case True
    with ir show ?thesis
      by (simp add: resize_array_def sa fields Let_def del: any_pad.simps)
  next
    case False
    then have r: "resize_array a (d0, d1, d2) fs = a"
      by (simp add: resize_array_def sa fields Let_def del: any_pad.simps)
    from False have z: "nat (- min 0 d0) = 0" "nat (- min 0 d1) = 0" "nat (- min 0 d2) = 0"
      by simp_all
    from ir show ?thesis unfolding r z by (simp add: sa)
  qed
qed


lemma accumulate_cell:
  assumes add: "add_with_offset (resize_array a (vadd d off) (shape img)) (map_array g img)
                  (vadd (vmax off (vneg d)) d) = Inr a'"
  shows "value_at a' (vmax off (vneg d)) (x0, x1, x2, c) =
           (if covers d (shape img) (x0, x1, x2, c) \<and> c < channels (shape a)
            then value_at a off (x0, x1, x2, c) + g (pixel_at img d (x0, x1, x2, c))
            else value_at a off (x0, x1, x2, c))"
    and "covers d (shape img) (x0, x1, x2, c) \<and> c < channels (shape a) \<longrightarrow>
           stored (shape a') (vmax off (vneg d)) (x0, x1, x2, c)"
    and "stored (shape a) off (x0, x1, x2, c) \<longrightarrow>
           stored (shape a') (vmax off (vneg d)) (x0, x1, x2, c)"
proof -
  obtain n0 n1 n2 n3 where sa: "shape a = (n0, n1, n2, n3)" by (cases "shape a")
  obtain e0 e1 e2 e3 where sb: "shape img = (e0, e1, e2, e3)" by (cases "shape img")
  obtain d0 d1 d2 where d: "d = (d0, d1, d2)" by (cases d)
  obtain o0 o1 o2 where off: "off = (o0, o1, o2)" by (cases off)
  define r where "r = resize_array a (vadd (d0, d1, d2) (o0, o1, o2)) (shape (map_array g img))"
  have sbg: "shape (map_array g img) = (e0, e1, e2, e3)"
    by (simp add: map_array_def sb)
  have r': "resize_array a (vadd d off) (shape img) = r"
    by (simp add: r_def d off sbg sb)
  have sh: "shape r =
       (nat (- min 0 (d0 + o0)) + n0 + nat (max 0 (d0 + o0 + int e0 - int n0)),
        nat (- min 0 (d1 + o1)) + n1 + nat (max 0 (d1 + o1 + int e1 - int n1)),
        nat (- min 0 (d2 + o2)) + n2 + nat (max 0 (d2 + o2 + int e2 - int n2)), n3)"
    by (simp add: r_def resize_array_shape sa sbg)
  from add have "add_with_offset r (map_array g img)
      (vadd (vmax (o0, o1, o2) (vneg (d0, d1, d2))) (d0, d1, d2)) = Inr a'"
    unfolding r' by (simp add: d off)
  then have a': "a' = r\<lparr>elems := (\<lambda>(i0, i1, i2, i3).
                 if nat (max o0 (- d0) + d0) \<le> i0 \<and> i0 < nat (max o0 (- d0) + d0) + e0 \<and>
                    nat (max o1 (- d1) + d1) \<le> i1 \<and> i1 < nat (max o1 (- d1) + d1) + e1 \<and>
                    nat (max o2 (- d2) + d2) \<le> i2 \<and> i2 < nat (max o2 (- d2) + d2) + e2 \<and>
                    i3 < n3
                 then elems r (i0, i1, i2, i3) +
                      elems (map_array g img) (bidx e0 (i0 - nat (max o0 (- d0) + d0)),
                               bidx e1 (i1 - nat (max o1 (- d1) + d1)),
                               bidx e2 (i2 - nat (max o2 (- d2) + d2)), bidx e3 i3)
                 else elems r (i0, i1, i2, i3))\<rparr>"
    unfolding add_after_resize [OF sa sbg r_def] by (simp_all split: if_splits)
  have sh': "shape a' = shape r" by (simp add: a')
  define NEW where "NEW \<longleftrightarrow> 0 \<le> x0 + max o0 (- d0) \<and>
       x0 + max o0 (- d0) <
         int (nat (- min 0 (d0 + o0)) + n0 + nat (max 0 (d0 + o0 + int e0 - int n0))) \<and>
       0 \<le> x1 + max o1 (- d1) \<and>
       x1 + max o1 (- d1) <
         int (nat (- min 0 (d1 + o1)) + n1 + nat (max 0 (d1 + o1 + int e1 - int n1))) \<and>
       0 \<le> x2 + max o2 (- d2) \<and>
       x2 + max o2 (- d2) <
         int (nat (- min 0 (d2 + o2)) + n2 + nat (max 0 (d2 + o2 + int e2 - int n2))) \<and>
       c < n3"
  define OLD where "OLD \<longleftrightarrow> 0 \<le> x0 + o0 \<and> x0 + o0 < int n0 \<and> 0 \<le> x1 + o1 \<and>
       x1 + o1 < int n1 \<and> 0 \<le> x2 + o2 \<and> x2 + o2 < int n2 \<and> c < n3"
  define COV where "COV \<longleftrightarrow> d0 \<le> x0 \<and> x0 < d0 + int e0 \<and> d1 \<le> x1 \<and> x1 < d1 + int e1 \<and>
       d2 \<le> x2 \<and> x2 < d2 + int e2"
  have st_new: "stored (shape a') (vmax off (vneg d)) (x0, x1, x2, c) = NEW"
    unfolding NEW_def by (simp add: sh' sh d off)
  have st_old: "stored (shape a) off (x0, x1, x2, c) = OLD"
    unfolding OLD_def by (simp add: sa off)
  have cov: "covers d (shape img) (x0, x1, x2, c) = COV"
    unfolding COV_def by (simp add: d sb)
  have ch: "(c < channels (shape a)) = (c < n3)" by (simp add: sa)
  have old_new: "OLD \<longrightarrow> NEW"
    unfolding OLD_def NEW_def
    using axis_cell(1) [of x0 o0 n0 d0 e0] axis_cell(1) [of x1 o1 n1 d1 e1]
      axis_cell(1) [of x2 o2 n2 d2 e2]
    by blast
  have cov_new: "COV \<and> c < n3 \<longrightarrow> NEW"
    unfolding COV_def NEW_def
    using axis_cell(5) [of d0 x0 e0 o0 n0] axis_cell(5) [of d1 x1 e1 o1 n1]
      axis_cell(5) [of d2 x2 e2 o2 n2]
    by blast
  show "covers d (shape img) (x0, x1, x2, c) \<and> c < channels (shape a) \<longrightarrow>
           stored (shape a') (vmax off (vneg d)) (x0, x1, x2, c)"
    unfolding st_new cov ch by (rule cov_new)
  show "stored (shape a) off (x0, x1, x2, c) \<longrightarrow>
           stored (shape a') (vmax off (vneg d)) (x0, x1, x2, c)"
    unfolding st_new st_old by (rule old_new)
  show "value_at a' (vmax off (vneg d)) (x0, x1, x2, c) =
           (if covers d (shape img) (x0, x1, x2, c) \<and> c < channels (shape a)
            then value_at a off (x0, x1, x2, c) + g (pixel_at img d (x0, x1, x2, c))
            else value_at a off (x0, x1, x2, c))"
  proof (cases NEW)
    case False
    with old_new cov_new have "\<not> OLD" "\<not> (COV \<and> c < n3)" by blast+
    with False show ?thesis
      unfolding value_at_def st_new st_old cov ch by auto
  next
    case True
    then have p: "0 \<le> x0 + max o0 (- d0)" "0 \<le> x1 + max o1 (- d1)" "0 \<le> x2 + max o2 (- d2)"
      and u: "x0 + max o0 (- d0) <
                int (nat (- min 0 (d0 + o0)) + n0 + nat (max 0 (d0 + o0 + int e0 - int n0)))"
             "x1 + max o1 (- d1) <
                int (nat (- min 0 (d1 + o1)) + n1 + nat (max 0 (d1 + o1 + int e1 - int n1)))"
             "x2 + max o2 (- d2) <
                int (nat (- min 0 (d2 + o2)) + n2 + nat (max 0 (d2 + o2 + int e2 - int n2)))"
      and c: "c < n3"
      unfolding NEW_def by blast+
    have ir: "in_range (shape (resize_array a (d0 + o0, d1 + o1, d2 + o2) (e0, e1, e2, e3)))
        (nat (x0 + max o0 (- d0)), nat (x1 + max o1 (- d1)), nat (x2 + max o2 (- d2)), c)"
      using nat_less_int [OF p(1) u(1)] nat_less_int [OF p(2) u(2)] nat_less_int [OF p(3) u(3)] c
        sh
      unfolding r_def sbg vadd.simps by simp
    have w: "(nat (- min 0 (d0 + o0)) \<le> nat (x0 + max o0 (- d0)) \<and>
              nat (x0 + max o0 (- d0)) < nat (- min 0 (d0 + o0)) + n0 \<and>
              nat (- min 0 (d1 + o1)) \<le> nat (x1 + max o1 (- d1)) \<and>
              nat (x1 + max o1 (- d1)) < nat (- min 0 (d1 + o1)) + n1 \<and>
              nat (- min 0 (d2 + o2)) \<le> nat (x2 + max o2 (- d2)) \<and>
              nat (x2 + max o2 (- d2)) < nat (- min 0 (d2 + o2)) + n2) = OLD"
      unfolding OLD_def
      using axis_cell(2) [OF p(1), of n0] axis_cell(2) [OF p(2), of n1]
        axis_cell(2) [OF p(3), of n2] c
      by blast
    have re: "elems r (nat (x0 + max o0 (- d0)), nat (x1 + max o1 (- d1)),
                 nat (x2 + max o2 (- d2)), c) = value_at a off (x0, x1, x2, c)"
    proof (cases OLD)
      case True
      then have q: "0 \<le> x0 + o0" "0 \<le> x1 + o1" "0 \<le> x2 + o2" by (simp_all add: OLD_def)
      show ?thesis
        unfolding r_def sbg vadd.simps resize_array_elems_all [OF sa ir] w value_at_def st_old
        using True
        by (simp add: axis_cell(3) [OF q(1)] axis_cell(3) [OF q(2)] axis_cell(3) [OF q(3)] off)
    next
      case False
      then show ?thesis
        unfolding r_def sbg vadd.simps resize_array_elems_all [OF sa ir] w value_at_def st_old
        by simp
    qed
    have win: "(nat (max o0 (- d0) + d0) \<le> nat (x0 + max o0 (- d0)) \<and>
               nat (x0 + max o0 (- d0)) < nat (max o0 (- d0) + d0) + e0 \<and>
               nat (max o1 (- d1) + d1) \<le> nat (x1 + max o1 (- d1)) \<and>
               nat (x1 + max o1 (- d1)) < nat (max o1 (- d1) + d1) + e1 \<and>
               nat (max o2 (- d2) + d2) \<le> nat (x2 + max o2 (- d2)) \<and>
               nat (x2 + max o2 (- d2)) < nat (max o2 (- d2) + d2) + e2) = COV"
      unfolding COV_def
      using axis_cell(4) [OF p(1), of e0] axis_cell(4) [OF p(2), of e1]
        axis_cell(4) [OF p(3), of e2]
      by blast
    have va: "value_at a' (vmax off (vneg d)) (x0, x1, x2, c) =
        elems a' (nat (x0 + max o0 (- d0)), nat (x1 + max o1 (- d1)),
                  nat (x2 + max o2 (- d2)), c)"
      unfolding value_at_def st_new using True by (simp add: d off)
    have ea: "elems a' (nat (x0 + max o0 (- d0)), nat (x1 + max o1 (- d1)),
                  nat (x2 + max o2 (- d2)), c) =
        (if COV then value_at a off (x0, x1, x2, c) +
            g (elems img (bidx e0 (nat (x0 + max o0 (- d0)) - nat (max o0 (- d0) + d0)),
                          bidx e1 (nat (x1 + max o1 (- d1)) - nat (max o1 (- d1) + d1)),
                          bidx e2 (nat (x2 + max o2 (- d2)) - nat (max o2 (- d2) + d2)),
                          bidx e3 c))
         else value_at a off (x0, x1, x2, c))"
      unfolding a' using win c by (simp add: re map_array_def)
    show ?thesis
    proof (cases COV)
      case False
      then show ?thesis
        unfolding va cov ea by simp
    next
      case True
      then have k: "bidx e0 (nat (x0 - d0)) = nat (x0 - d0)"
          "bidx e1 (nat (x1 - d1)) = nat (x1 - d1)"
          "bidx e2 (nat (x2 - d2)) = nat (x2 - d2)"
        unfolding COV_def by (auto intro!: bidx_self)
      from True have g: "d0 \<le> x0" "d1 \<le> x1" "d2 \<le> x2" by (simp_all add: COV_def)
      have pix: "pixel_at img d (x0, x1, x2, c) =
          elems img (nat (x0 - d0), nat (x1 - d1), nat (x2 - d2), bidx e3 c)"
        by (simp add: d sb)
      from True c show ?thesis
        unfolding va cov ea pix ch
        by (simp add: axis_cell(6) [OF g(1)] axis_cell(6) [OF g(2)] axis_cell(6) [OF g(3)] k)
    qed
  qed
qed


subsection \<open>Sequences of calls\<close>

lemma update_all_values:
  assumes "update_all n f (sums0, counts0, off) calls = Inr (sums0', counts0', off')"
    and "shape sums0 = shape counts0"
  shows "shape sums0' = shape counts0' \<and>
         channels (shape sums0') = channels (shape sums0) \<and>
         (\<forall>i. in_range (shape sums0) i \<longrightarrow>
            in_range (shape sums0') (shift_index i (vsub off' off)) \<and>
            elems sums0' (shift_index i (vsub off' off)) =
              contributions n calls (coord_of i off) (elems sums0 i) \<and>
            elems counts0' (shift_index i (vsub off' off)) =
              contributions (\<lambda>x. if f x then 1 else 0) calls (coord_of i off) (elems counts0 i))"
  using assms
proof (induction calls arbitrary: sums0 counts0 off)
  case Nil
  then show ?case by (simp add: shift_index_zero)
next
  case (Cons c calls)
  obtain d img where c: "c = (d, img)" by (cases c)
  from Cons.prems(1) obtain s1 c1 o1 where
    1: "update_reference n f sums0 counts0 off d img = Inr (s1, c1, o1)" and
    2: "update_all n f (s1, c1, o1) calls = Inr (sums0', counts0', off')"
    by (auto simp: c split: sum.splits)
  note ur = update_reference_Inr [OF 1]
  have o1: "o1 = vmax off (vneg d)" by (rule ur)
  have le1: "vle off o1" by (simp add: o1 vle_vmax)
  have le2: "vle o1 off'" using 2 by (rule update_all_offset_mono)
  note S = accumulate_step [OF ur(2) [unfolded o1]]
  note C = accumulate_step [OF ur(3) [unfolded o1]]
  have sh1: "shape s1 = shape c1"
    using resize_array_same [OF Cons.prems(2)]
    by (simp add: add_with_offset_shape [OF ur(2)] add_with_offset_shape [OF ur(3)])
  have ch1: "channels (shape s1) = channels (shape sums0)"
    by (simp add: add_with_offset_shape [OF ur(2)] resize_array_channels)
  note IH = Cons.IH [OF 2 sh1]
  show ?case
  proof (intro conjI allI impI)
    show "shape sums0' = shape counts0'" by (rule IH [THEN conjunct1])
    show "channels (shape sums0') = channels (shape sums0)"
      using IH [THEN conjunct2, THEN conjunct1] ch1 by simp
  next
    fix i assume i: "in_range (shape sums0) i"
    then have ic: "in_range (shape counts0) i" by (simp add: Cons.prems(2))
    let ?i1 = "shift_index i (vsub o1 off)"
    have i1: "in_range (shape s1) ?i1"
      unfolding o1 by (rule S [OF i, THEN conjunct2, THEN conjunct1])
    have v1: "elems s1 ?i1 = (if covers d (shape img) (coord_of i off)
            then elems sums0 i + n (pixel_at img d (coord_of i off)) else elems sums0 i)"
      unfolding o1 by (rule S [OF i, THEN conjunct2, THEN conjunct2])
    have w1: "elems c1 ?i1 = (if covers d (shape img) (coord_of i off)
            then elems counts0 i + (if f (pixel_at img d (coord_of i off)) then 1 else 0)
            else elems counts0 i)"
      unfolding o1 by (rule C [OF ic, THEN conjunct2, THEN conjunct2])
    have tw: "shift_index ?i1 (vsub off' o1) = shift_index i (vsub off' off)"
      using le1 le2 by (rule shift_index_twice)
    have co: "coord_of ?i1 o1 = coord_of i off"
      using le1 by (rule coord_of_shift)
    note IHi = IH [THEN conjunct2, THEN conjunct2, rule_format, OF i1]
    have
      "in_range (shape sums0') (shift_index ?i1 (vsub off' o1))"
      "elems sums0' (shift_index ?i1 (vsub off' o1)) =
         contributions n calls (coord_of ?i1 o1) (elems s1 ?i1)"
      "elems counts0' (shift_index ?i1 (vsub off' o1)) =
         contributions (\<lambda>x. if f x then 1 else 0) calls (coord_of ?i1 o1) (elems c1 ?i1)"
      by (rule IHi [THEN conjunct1], rule IHi [THEN conjunct2, THEN conjunct1],
          rule IHi [THEN conjunct2, THEN conjunct2])
    then show "in_range (shape sums0') (shift_index i (vsub off' off))"
      and "elems sums0' (shift_index i (vsub off' off)) =
              contributions n (c # calls) (coord_of i off) (elems sums0 i)"
      and "elems counts0' (shift_index i (vsub off' off)) =
              contributions (\<lambda>x. if f x then 1 else 0) (c # calls) (coord_of i off)
                (elems counts0 i)"
      unfolding tw co v1 w1 by (simp_all add: c)
  qed
qed

lemma update_all_two_calls:
  "\<exists>s' c'. update_all (\<lambda>x. x) (\<lambda>x. True) (zeros (1, 2, 2, 1), zeros (1, 2, 2, 1), (0, 0, 0))
       [((0, 0, 0), full (1, 2, 2, 1) (5::int)), ((0, - 1, 1), full (1, 2, 2, 1) 7)] =
     Inr (s', c', (0, 1, 0))"
  by (simp add: update_reference_def update_sums_and_counts_def resize_array_def
      add_with_offset_def zeros_def full_def map_array_def py_slice_def slice_bound_def
      broadcasts_def Let_def)

text \<open>
  Claim C1. Take any sequence of calls of \<^verbatim>\<open>_update_reference\<close> that starts from
  sums and counts of one shape and runs without an exception. Afterwards the sums and the
  counts have one shape again, and the channel axis has the extent it had. Every cell of
  the arrays before the calls is a cell of the arrays after them, at the index moved by the
  growth of the offset, also where a call padded the arrays on the low or the high side;
  its value is the value it had, with the contributions added that later calls made at its
  coordinate; where no later call covers the coordinate the value is the one it had.
\<close>

theorem update_all_accumulates:
  assumes "update_all n f (sums0, counts0, off) calls = Inr (sums0', counts0', off')"
    and "shape sums0 = shape counts0"
  shows "shape sums0' = shape counts0' \<and>
         channels (shape sums0') = channels (shape sums0) \<and>
         (\<forall>i. in_range (shape sums0) i \<longrightarrow>
            in_range (shape sums0') (shift_index i (vsub off' off)) \<and>
            elems sums0' (shift_index i (vsub off' off)) =
              contributions n calls (coord_of i off) (elems sums0 i) \<and>
            elems counts0' (shift_index i (vsub off' off)) =
              contributions (\<lambda>x. if f x then 1 else 0) calls (coord_of i off) (elems counts0 i) \<and>
            ((\<forall>(d, img) \<in> set calls. \<not> covers d (shape img) (coord_of i off)) \<longrightarrow>
               elems sums0' (shift_index i (vsub off' off)) = elems sums0 i \<and>
               elems counts0' (shift_index i (vsub off' off)) = elems counts0 i))"
proof -
  note A = update_all_values [OF assms]
  show ?thesis
  proof (intro conjI allI impI)
    show "shape sums0' = shape counts0'" by (rule A [THEN conjunct1])
    show "channels (shape sums0') = channels (shape sums0)"
      by (rule A [THEN conjunct2, THEN conjunct1])
  next
    fix i assume "in_range (shape sums0) i"
    note Ai = A [THEN conjunct2, THEN conjunct2, rule_format, OF this]
    show "in_range (shape sums0') (shift_index i (vsub off' off))"
      by (rule Ai [THEN conjunct1])
    show s: "elems sums0' (shift_index i (vsub off' off)) =
              contributions n calls (coord_of i off) (elems sums0 i)"
      by (rule Ai [THEN conjunct2, THEN conjunct1])
    show c: "elems counts0' (shift_index i (vsub off' off)) =
              contributions (\<lambda>x. if f x then 1 else 0) calls (coord_of i off) (elems counts0 i)"
      by (rule Ai [THEN conjunct2, THEN conjunct2])
    assume u: "\<forall>(d, img) \<in> set calls. \<not> covers d (shape img) (coord_of i off)"
    show "elems sums0' (shift_index i (vsub off' off)) = elems sums0 i"
      unfolding s by (rule contributions_uncovered [OF u])
    show "elems counts0' (shift_index i (vsub off' off)) = elems counts0 i"
      unfolding c by (rule contributions_uncovered [OF u])
  qed
qed

theorem update_all_accumulates_witness:
  "\<exists>s' c'. update_all (\<lambda>x. x) (\<lambda>x. True) (zeros (1, 2, 2, 1), zeros (1, 2, 2, 1), (0, 0, 0))
       [((0, 0, 0), full (1, 2, 2, 1) (5::int)), ((0, - 1, 1), full (1, 2, 2, 1) 7)] =
     Inr (s', c', (0, 1, 0)) \<and>
     shape s' = shape c' \<and> channels (shape s') = 1 \<and>
     elems s' (0, 1, 0, 0) = 5 \<and> elems c' (0, 1, 0, 0) = 1 \<and>
     elems s' (0, 1, 1, 0) = 12 \<and> elems c' (0, 1, 1, 0) = 2"
proof -
  obtain s' c' where run:
    "update_all (\<lambda>x. x) (\<lambda>x. True) (zeros (1, 2, 2, 1), zeros (1, 2, 2, 1), (0, 0, 0))
       [((0, 0, 0), full (1, 2, 2, 1) (5::int)), ((0, - 1, 1), full (1, 2, 2, 1) 7)] =
     Inr (s', c', (0, 1, 0))"
    using update_all_two_calls by blast
  have sh: "shape (zeros (1, 2, 2, 1) :: int ndarray) = shape (zeros (1, 2, 2, 1) :: int ndarray)"
    by simp
  note T = update_all_accumulates [OF run sh]
  have a: "shape s' = shape c'"
    by (rule T [THEN conjunct1])
  have b: "channels (shape s') = 1"
    using T [THEN conjunct2, THEN conjunct1] by (simp add: zeros_def)
  have c: "elems s' (0, 1, 0, 0) = 5 \<and> elems c' (0, 1, 0, 0) = 1"
    using T [THEN conjunct2, THEN conjunct2, rule_format, of "(0, 0, 0, 0)"]
    by (simp add: zeros_def full_def bidx_def)
  have d: "elems s' (0, 1, 1, 0) = 12 \<and> elems c' (0, 1, 1, 0) = 2"
    using T [THEN conjunct2, THEN conjunct2, rule_format, of "(0, 0, 1, 0)"]
    by (simp add: zeros_def full_def bidx_def)
  from run a b c d show ?thesis by blast
qed

lemma update_all_one_call:
  "\<exists>s' c'. update_all (\<lambda>x. x) (\<lambda>x. True) (zeros (1, 2, 2, 1), zeros (1, 2, 2, 1), (0, 0, 0))
       [((0, - 2, 0), full (1, 2, 2, 1) (5::int))] = Inr (s', c', (0, 2, 0))"
  by (simp add: update_reference_def update_sums_and_counts_def resize_array_def
      add_with_offset_def zeros_def full_def map_array_def py_slice_def slice_bound_def
      broadcasts_def Let_def)

text \<open>
  Claim C5. A call of \<^verbatim>\<open>_update_reference\<close>, after any sequence of calls, returns
  as offset the componentwise maximum of the offset it was given and the negated
  displacement. The offset never decreases, over the sequence and in the call. The point
  where the image is written, offset plus displacement, is non-negative on every axis, and
  the block written lies inside the resized sums and counts.
\<close>

theorem update_reference_offset:
  assumes "update_all n f (sums0, counts0, off) calls = Inr (s1, c1, o1)"
    and "update_reference n f s1 c1 o1 d img = Inr (s2, c2, o2)"
  shows "o2 = vmax o1 (vneg d) \<and> vle off o1 \<and> vle o1 o2 \<and>
         vle (0, 0, 0) (vadd o2 d) \<and>
         fits (shape s2) (vadd o2 d) (shape img) \<and> fits (shape c2) (vadd o2 d) (shape img)"
proof -
  note ur = update_reference_Inr [OF assms(2)]
  have o2: "o2 = vmax o1 (vneg d)" by (rule ur)
  have "vle off o1" using assms(1) by (rule update_all_offset_mono)
  moreover have "vle o1 o2" by (simp add: o2 vle_vmax)
  moreover have "vle (0, 0, 0) (vadd o2 d)" by (simp add: o2 insertion_nonneg)
  moreover have "fits (shape s2) (vadd o2 d) (shape img)"
    unfolding add_with_offset_shape [OF ur(2)] o2 by (rule resize_array_fits)
  moreover have "fits (shape c2) (vadd o2 d) (shape img)"
    unfolding add_with_offset_shape [OF ur(3)] o2 by (rule resize_array_fits)
  ultimately show ?thesis using o2 by blast
qed

theorem update_reference_offset_witness:
  "\<exists>s1 c1 s2 c2.
     update_all (\<lambda>x. x) (\<lambda>x. True) (zeros (1, 2, 2, 1), zeros (1, 2, 2, 1), (0, 0, 0))
       [((0, - 2, 0), full (1, 2, 2, 1) (5::int))] = Inr (s1, c1, (0, 2, 0)) \<and>
     update_reference (\<lambda>x. x) (\<lambda>x. True) s1 c1 (0, 2, 0) (0, 1, - 1) (full (1, 2, 2, 1) 7) =
       Inr (s2, c2, (0, 2, 1)) \<and>
     (0, 2, 1) = vmax (0, 2, 0) (vneg (0, 1, - 1)) \<and>
     vle (0, 0, 0) (0, 2, 0) \<and> vle (0, 2, 0) (0, 2, 1) \<and>
     vle (0, 0, 0) (vadd (0, 2, 1) (0, 1, - 1)) \<and>
     fits (shape s2) (0, 3, 0) (1, 2, 2, 1) \<and> fits (shape c2) (0, 3, 0) (1, 2, 2, 1)"
proof -
  obtain s1 c1 where run:
    "update_all (\<lambda>x. x) (\<lambda>x. True) (zeros (1, 2, 2, 1), zeros (1, 2, 2, 1), (0, 0, 0))
       [((0, - 2, 0), full (1, 2, 2, 1) (5::int))] = Inr (s1, c1, (0, 2, 0))"
    using update_all_one_call by blast
  have sh: "shape (zeros (1, 2, 2, 1) :: int ndarray) = shape (zeros (1, 2, 2, 1) :: int ndarray)"
    by simp
  note V = update_all_values [OF run sh]
  have ch: "channels (shape s1) = 1" "channels (shape c1) = 1"
    using V [THEN conjunct1] V [THEN conjunct2, THEN conjunct1] by (simp_all add: zeros_def)
  have "\<exists>s2 c2. update_reference (\<lambda>x. x) (\<lambda>x. True) s1 c1 (0, 2, 0) (0, 1, - 1)
          (full (1, 2, 2, 1) 7) = Inr (s2, c2, vmax (0, 2, 0) (vneg (0, 1, - 1)))"
    by (rule update_reference_total) (simp_all add: ch full_def broadcasts_def)
  then obtain s2 c2 where step:
    "update_reference (\<lambda>x. x) (\<lambda>x. True) s1 c1 (0, 2, 0) (0, 1, - 1) (full (1, 2, 2, 1) 7) =
       Inr (s2, c2, (0, 2, 1))"
    by auto
  from update_reference_offset [OF run step] run step show ?thesis
    by (simp add: full_def)
qed

section \<open>Properties of the pyramid alignment engine\<close>

subsection \<open>Downsampling and the measure of the recursion\<close>

lemma pyr_down_3d_shape:
  assumes "shape (gf img (if b0 then 105 / 100 else 0, if b1 then 105 / 100 else 0,
                          if b2 then 105 / 100 else 0, 0)) = shape img"
  shows "shape (pyr_down_3d gf img (nonzero (b0, b1, b2))) = half_shape (b0, b1, b2) (shape img)"
  using assms
  by (cases "shape img") (auto simp: pyr_down_3d_def Let_def slice_len_def)

lemma pyr_down_3d_shape':
  assumes "\<forall>img sd. shape (gf img sd) = shape img"
  shows "shape (pyr_down_3d gf img (nonzero ab)) = half_shape ab (shape img)"
proof -
  obtain b0 b1 b2 where ab: "ab = (b0, b1, b2)" by (cases ab)
  show ?thesis unfolding ab by (rule pyr_down_3d_shape) (simp add: assms)
qed

lemma axis_half_le:
  fixes r t :: nat
  shows "min (if b then (r + 1) div 2 else r) (if b then (t + 1) div 2 else t) \<le> min r t"
  by (cases b) (simp_all add: min_def, arith)

lemma axis_half_less:
  fixes r t :: nat and m :: int
  assumes "1 \<le> m" and "2 * m \<le> int (min r t)"
  shows "min ((r + 1) div 2) ((t + 1) div 2) < min r t"
  using assms by (simp add: min_def split: if_splits) arith+

lemma sum3_less:
  fixes a b c a' b' c' :: nat
  assumes "a' \<le> a" "b' \<le> b" "c' \<le> c"
    and "p \<Longrightarrow> a' < a" "q \<Longrightarrow> b' < b" "r \<Longrightarrow> c' < c" and "p \<or> q \<or> r"
  shows "a' + b' + c' < a + b + c"
  using assms by (elim disjE) force+

lemma spatial_size_shrinks:
  assumes "vle (1, 1, 1) ms" and "np_any (axes_bool r t ms)"
  shows "spatial_size (half_shape (axes_bool r t ms) (shape r))
           (half_shape (axes_bool r t ms) (shape t)) < spatial_size (shape r) (shape t)"
proof -
  obtain r0 r1 r2 r3 where r: "shape r = (r0, r1, r2, r3)" by (cases "shape r")
  obtain t0 t1 t2 t3 where t: "shape t = (t0, t1, t2, t3)" by (cases "shape t")
  obtain m0 m1 m2 where ms: "ms = (m0, m1, m2)" by (cases ms)
  let ?b0 = "2 * m0 \<le> int (min r0 t0)"
  let ?b1 = "2 * m1 \<le> int (min r1 t1)"
  let ?b2 = "2 * m2 \<le> int (min r2 t2)"
  let ?h0 = "min (if ?b0 then (r0 + 1) div 2 else r0) (if ?b0 then (t0 + 1) div 2 else t0)"
  let ?h1 = "min (if ?b1 then (r1 + 1) div 2 else r1) (if ?b1 then (t1 + 1) div 2 else t1)"
  let ?h2 = "min (if ?b2 then (r2 + 1) div 2 else r2) (if ?b2 then (t2 + 1) div 2 else t2)"
  from assms(1) have m: "1 \<le> m0" "1 \<le> m1" "1 \<le> m2" by (simp_all add: ms)
  have le: "?h0 \<le> min r0 t0" "?h1 \<le> min r1 t1" "?h2 \<le> min r2 t2"
    by (rule axis_half_le)+
  have lt: "?b0 \<Longrightarrow> ?h0 < min r0 t0" "?b1 \<Longrightarrow> ?h1 < min r1 t1" "?b2 \<Longrightarrow> ?h2 < min r2 t2"
    using axis_half_less [OF m(1), of r0 t0] axis_half_less [OF m(2), of r1 t1]
      axis_half_less [OF m(3), of r2 t2] by simp_all
  from assms(2) have "?b0 \<or> ?b1 \<or> ?b2" by (simp add: axes_bool_def r t ms)
  with le lt have "?h0 + ?h1 + ?h2 < min r0 t0 + min r1 t1 + min r2 t2"
    by (rule sum3_less)
  then show ?thesis
    unfolding axes_bool_def r t ms prod.case half_shape.simps spatial_size.simps .
qed

lemma pyramid_align_returns:
  assumes gf: "\<forall>img sd. shape (gaussian_filter P img sd) = shape img"
    and ms: "vle (1, 1, 1) min_shape"
  shows "spatial_size (shape reference) (shape target) = n \<Longrightarrow>
         \<exists>res. pyramid_align P reference target min_shape max_levels bounds = Some res"
proof (induction n arbitrary: reference target max_levels bounds rule: less_induct)
  case (less n)
  let ?ab = "axes_bool reference target min_shape"
  show ?case
  proof (cases "bounds_ordered bounds \<and> levels_left max_levels \<and> np_any ?ab")
    case False
    then show ?thesis by (subst pyramid_align.simps) auto
  next
    case True
    let ?r = "pyr_down_3d (gaussian_filter P) reference (nonzero ?ab)"
    let ?t = "pyr_down_3d (gaussian_filter P) target (nonzero ?ab)"
    have "spatial_size (shape ?r) (shape ?t) < n"
      using spatial_size_shrinks [OF ms, of reference target] True less.prems
      by (simp add: pyr_down_3d_shape' [OF gf])
    then obtain res where "pyramid_align P ?r ?t min_shape (map_option (\<lambda>n. n - 1) max_levels)
        (new_bounds bounds ?ab) = Some res"
      using less.IH by blast
    then show ?thesis
      using True by (subst pyramid_align.simps) (auto split: sum.splits)
  qed
qed

lemma half_shape_shrinks:
  assumes "vle (1, 1, 1) ms"
  shows "shrinks_on (axes_bool r t ms) (half_shape (axes_bool r t ms) (shape r)) (shape r) \<and>
         shrinks_on (axes_bool r t ms) (half_shape (axes_bool r t ms) (shape t)) (shape t)"
proof -
  obtain r0 r1 r2 r3 where r: "shape r = (r0, r1, r2, r3)" by (cases "shape r")
  obtain t0 t1 t2 t3 where t: "shape t = (t0, t1, t2, t3)" by (cases "shape t")
  obtain m0 m1 m2 where ms: "ms = (m0, m1, m2)" by (cases ms)
  have ax: "\<And>m (x::nat) y. 1 \<le> m \<Longrightarrow> 2 * m \<le> int (min x y) \<Longrightarrow> (x + 1) div 2 < x \<and> (y + 1) div 2 < y"
    by (simp add: min_def split: if_splits) arith+
  from assms have m: "1 \<le> m0" "1 \<le> m1" "1 \<le> m2" by (simp_all add: ms)
  show ?thesis
    using ax [OF m(1), of r0 t0] ax [OF m(2), of r1 t1] ax [OF m(3), of r2 t2]
    by (simp add: axes_bool_def r t ms)
qed

subsection \<open>One level of the recursion\<close>

lemma pyramid_align_base:
  assumes "bounds_ordered bounds"
    and "\<not> (levels_left max_levels \<and> np_any (axes_bool reference target min_shape))"
  shows "pyramid_align P reference target min_shape max_levels bounds =
           Some (Inr (base_alignment P reference target bounds, reference, target))"
  using assms by (subst pyramid_align.simps) auto

lemma pyramid_align_step:
  assumes "bounds_ordered bounds" and "levels_left max_levels"
    and "np_any (axes_bool reference target min_shape)"
    and "pyramid_align P
           (pyr_down_3d (gaussian_filter P) reference
              (nonzero (axes_bool reference target min_shape)))
           (pyr_down_3d (gaussian_filter P) target
              (nonzero (axes_bool reference target min_shape)))
           min_shape (map_option (\<lambda>n. n - 1) max_levels)
           (new_bounds bounds (axes_bool reference target min_shape)) =
         Some (Inr (disp, rr, tt))"
  shows "pyramid_align P reference target min_shape max_levels bounds =
           Some (local_refinement P bounds (axes_bool reference target min_shape) disp
                   reference target)"
  using assms by (subst pyramid_align.simps) simp

lemma refine_within:
  "refine sc b ab disp adjs best r t = Inr (Some (c, d), r', t') \<Longrightarrow>
   (\<forall>c0 d0. best = Some (c0, d0) \<longrightarrow> within_bounds d0 b) \<Longrightarrow> within_bounds d b"
proof (induction adjs arbitrary: best r t)
  case Nil
  then show ?case by (cases d) auto
next
  case (Cons a adjs)
  show ?case
  proof (cases "within_bounds (vadd (vmul (one_plus ab) disp) a) b")
    case False
    with Cons.prems show ?thesis by (auto intro: Cons.IH)
  next
    case True
    with Cons.prems(1) obtain corr r1 t1 where
      sc: "sc r t (vadd (vmul (one_plus ab) disp) a) = Some (corr, r1, t1)" and
      rest: "refine sc b ab disp adjs
               (if (case best of None \<Rightarrow> True | Some (best_corr, _) \<Rightarrow> corr > best_corr)
                then Some (corr, vadd (vmul (one_plus ab) disp) a) else best) r1 t1 =
             Inr (Some (c, d), r', t')"
      by (auto simp: Let_def split: option.splits)
    from rest show ?thesis
      by (rule Cons.IH) (use True Cons.prems(2) in \<open>auto split: if_splits\<close>)
  qed
qed

lemma local_refinement_within:
  "local_refinement P b ab disp r t = Inr (d, r', t') \<Longrightarrow> within_bounds d b"
  by (auto simp: local_refinement_def split: sum.splits option.splits prod.splits
      dest: refine_within)

lemma refine_scores_None:
  "scores sc b (map (\<lambda>a. vadd (vmul (one_plus ab) disp) a) adjs) r t = None \<Longrightarrow>
   refine sc b ab disp adjs best r t = Inl ScoreError"
proof (induction adjs arbitrary: best r t)
  case Nil
  then show ?case by simp
next
  case (Cons a adjs)
  then show ?case
    by (auto simp: Let_def split: if_splits option.splits)
qed

lemma refine_scores_Some:
  "scores sc b (map (\<lambda>a. vadd (vmul (one_plus ab) disp) a) adjs) r t = Some tr \<Longrightarrow>
   \<exists>best' r' t'. refine sc b ab disp adjs best r t = Inr (best', r', t') \<and>
     (tr = [] \<longrightarrow> best' = best) \<and>
     (tr \<noteq> [] \<or> best \<noteq> None \<longrightarrow>
        (\<exists>c d. best' = Some (c, d) \<and> ((d, c) \<in> set tr \<or> best = Some (c, d)) \<and>
           (\<forall>(d', c') \<in> set tr. c' \<le> c) \<and> (\<forall>c0 d0. best = Some (c0, d0) \<longrightarrow> c0 \<le> c)))"
proof (induction adjs arbitrary: best r t tr)
  case Nil
  then show ?case by auto
next
  case (Cons a adjs)
  let ?d = "vadd (vmul (one_plus ab) disp) a"
  show ?case
  proof (cases "within_bounds ?d b")
    case False
    with Cons.prems have "scores sc b (map (\<lambda>a. vadd (vmul (one_plus ab) disp) a) adjs) r t = Some tr"
      by simp
    from Cons.IH [OF this, of best] False show ?thesis by simp
  next
    case True
    with Cons.prems obtain corr r1 t1 tr1 where
      sc: "sc r t ?d = Some (corr, r1, t1)" and
      tr1: "scores sc b (map (\<lambda>a. vadd (vmul (one_plus ab) disp) a) adjs) r1 t1 = Some tr1" and
      tr: "tr = (?d, corr) # tr1"
      by (auto split: option.splits)
    define best1 where "best1 =
      (if (case best of None \<Rightarrow> True | Some (best_corr, _) \<Rightarrow> corr > best_corr)
       then Some (corr, ?d) else best)"
    have nn: "best1 \<noteq> None"
    proof (cases "case best of None \<Rightarrow> True | Some (best_corr, _) \<Rightarrow> corr > best_corr")
      case True
      then have "best1 = Some (corr, ?d)" unfolding best1_def by (rule if_P)
      then show ?thesis by (rule ssubst) (rule option.distinct)
    next
      case False
      then have "best1 = best" unfolding best1_def by (rule if_not_P)
      moreover from False have "best \<noteq> None" by (cases best) simp_all
      ultimately show ?thesis by (rule ssubst)
    qed
    from Cons.IH [OF tr1, of best1] obtain best' r' t' where
      run: "refine sc b ab disp adjs best1 r1 t1 = Inr (best', r', t')" and
      m: "tr1 \<noteq> [] \<or> best1 \<noteq> None \<longrightarrow>
         (\<exists>c d. best' = Some (c, d) \<and> ((d, c) \<in> set tr1 \<or> best1 = Some (c, d)) \<and>
           (\<forall>(d', c') \<in> set tr1. c' \<le> c) \<and> (\<forall>c0 d0. best1 = Some (c0, d0) \<longrightarrow> c0 \<le> c))"
      by blast
    from m nn obtain c d where
      b': "best' = Some (c, d)" and
      mem: "(d, c) \<in> set tr1 \<or> best1 = Some (c, d)" and
      mx: "\<forall>(d', c') \<in> set tr1. c' \<le> c" and
      ge: "\<forall>c0 d0. best1 = Some (c0, d0) \<longrightarrow> c0 \<le> c"
      by blast
    have 1: "refine sc b ab disp (a # adjs) best r t = Inr (best', r', t')"
      using True sc run by (simp add: Let_def best1_def)
    have cs: "(best1 = Some (corr, ?d) \<and> (\<forall>bc bd. best = Some (bc, bd) \<longrightarrow> bc < corr)) \<or>
              (\<exists>bc bd. best1 = best \<and> best = Some (bc, bd) \<and> corr \<le> bc)"
    proof (cases best)
      case None
      then show ?thesis by (simp add: best1_def)
    next
      case (Some p)
      obtain bc bd where p: "p = (bc, bd)" by (cases p)
      show ?thesis
      proof (cases "bc < corr")
        case True
        then have "best1 = Some (corr, ?d)" by (simp add: best1_def Some p)
        with True show ?thesis by (simp only: Some p) blast
      next
        case False
        then have "best1 = best" by (simp add: best1_def Some p)
        moreover from False have "corr \<le> bc" by simp
        ultimately show ?thesis unfolding Some p by blast
      qed
    qed
    have 3: "corr \<le> c"
      using cs
    proof (elim disjE conjE exE)
      assume "best1 = Some (corr, ?d)"
      with ge show ?thesis by blast
    next
      fix bc bd assume "best1 = best" "best = Some (bc, bd)" "corr \<le> bc"
      with ge have "bc \<le> c" by metis
      with \<open>corr \<le> bc\<close> show ?thesis by (rule order_trans)
    qed
    have 4: "\<forall>c0 d0. best = Some (c0, d0) \<longrightarrow> c0 \<le> c"
      using cs
    proof (elim disjE conjE exE)
      assume a: "\<forall>bc bd. best = Some (bc, bd) \<longrightarrow> bc < corr"
      show ?thesis
      proof (intro allI impI)
        fix c0 d0 assume "best = Some (c0, d0)"
        with a have "c0 < corr" by blast
        with 3 show "c0 \<le> c" by simp
      qed
    next
      fix bc bd assume "best1 = best" "best = Some (bc, bd)" "corr \<le> bc"
      with ge show ?thesis by metis
    qed
    have 2: "(d, c) \<in> set tr \<or> best = Some (c, d)"
      using cs
    proof (elim disjE conjE exE)
      assume "best1 = Some (corr, ?d)"
      with mem have "(d, c) \<in> set tr1 \<or> (d, c) = (?d, corr)" by (metis option.inject prod.inject)
      then show ?thesis unfolding tr by (simp only: list.set insert_iff) blast
    next
      fix bc bd assume "best1 = best"
      with mem show ?thesis unfolding tr by (simp only: list.set insert_iff) blast
    qed
    have 5: "\<forall>(d', c') \<in> set tr. c' \<le> c"
      unfolding tr using mx 3 by simp
    have ne: "tr \<noteq> []" unfolding tr by simp
    from 1 2 4 5 b' ne show ?thesis by blast
  qed
qed

lemma scores_survivors:
  "scores sc b ds r t = Some tr \<Longrightarrow> map fst tr = filter (\<lambda>d. within_bounds d b) ds"
  by (induction ds arbitrary: r t tr) (auto split: if_splits option.splits)

lemma local_refinement_scores:
  "(case scores (shifted_corr P) b (candidates ab disp) r t of
      None \<Rightarrow> local_refinement P b ab disp r t = Inl ScoreError
    | Some tr \<Rightarrow>
        if tr = [] then local_refinement P b ab disp r t = Inl AssertNoCandidate
        else \<exists>d c r' t'. local_refinement P b ab disp r t = Inr (d, r', t') \<and>
               (d, c) \<in> set tr \<and> (\<forall>(d', c') \<in> set tr. c' \<le> c))"
proof (cases "scores (shifted_corr P) b (candidates ab disp) r t")
  case None
  then show ?thesis
    using refine_scores_None [of "shifted_corr P" b ab disp "adjustments ab" r t None]
    by (simp add: candidates_def local_refinement_def)
next
  case (Some tr)
  from refine_scores_Some [OF Some [unfolded candidates_def], of None]
  obtain best' r' t' where
    run: "refine (shifted_corr P) b ab disp (adjustments ab) None r t = Inr (best', r', t')" and
    e: "tr = [] \<longrightarrow> best' = None" and
    m: "tr \<noteq> [] \<longrightarrow> (\<exists>c d. best' = Some (c, d) \<and> (d, c) \<in> set tr \<and>
           (\<forall>(d', c') \<in> set tr. c' \<le> c))"
    by auto
  show ?thesis
  proof (cases "tr = []")
    case True
    with e run Some show ?thesis by (simp add: local_refinement_def)
  next
    case False
    with m obtain c d where "best' = Some (c, d)" "(d, c) \<in> set tr" "\<forall>(d', c') \<in> set tr. c' \<le> c"
      by blast
    with run Some False show ?thesis
      by (auto simp: local_refinement_def)
  qed
qed

lemma set_adjustments:
  "set (adjustments (b0, b1, b2)) =
     {(a0, a1, a2). a0 \<in> set (adjustment_range b0) \<and> a1 \<in> set (adjustment_range b1) \<and>
        a2 \<in> set (adjustment_range b2)}"
  by auto

lemma set_adjustment_range: "set (adjustment_range b) = (if b then {- 1, 0, 1} else {0})"
  by (simp add: adjustment_range_def)

lemma adjustments_nonempty: "adjustments ab \<noteq> []"
  by (cases ab) (auto simp: adjustment_range_def)

lemma set_candidates:
  "set (candidates (b0, b1, b2) (x0, x1, x2)) =
     {((if b0 then 2 else 1) * x0 + a0, (if b1 then 2 else 1) * x1 + a1,
       (if b2 then 2 else 1) * x2 + a2) | a0 a1 a2.
        a0 \<in> (if b0 then {- 1, 0, 1} else {0}) \<and> a1 \<in> (if b1 then {- 1, 0, 1} else {0}) \<and>
        a2 \<in> (if b2 then {- 1, 0, 1} else {0})}"
proof -
  have "set (candidates (b0, b1, b2) (x0, x1, x2)) =
      (\<lambda>(a0, a1, a2). ((if b0 then 2 else 1) * x0 + a0, (if b1 then 2 else 1) * x1 + a1,
         (if b2 then 2 else 1) * x2 + a2)) ` set (adjustments (b0, b1, b2))"
    unfolding candidates_def set_map by (rule image_cong) auto
  also have "\<dots> = {((if b0 then 2 else 1) * x0 + a0, (if b1 then 2 else 1) * x1 + a1,
       (if b2 then 2 else 1) * x2 + a2) | a0 a1 a2.
        a0 \<in> set (adjustment_range b0) \<and> a1 \<in> set (adjustment_range b1) \<and>
        a2 \<in> set (adjustment_range b2)}"
    unfolding set_adjustments by (rule set_eqI) (simp add: image_iff, blast)
  finally show ?thesis unfolding set_adjustment_range .
qed

lemma scores_total:
  "\<forall>r t d. sc r t d \<noteq> None \<Longrightarrow> scores sc b ds r t \<noteq> None"
proof (induction ds arbitrary: r t)
  case Nil
  then show ?case by simp
next
  case (Cons d ds)
  show ?case
  proof (cases "within_bounds d b")
    case False
    then show ?thesis using Cons.IH [OF Cons.prems] by simp
  next
    case True
    from Cons.prems obtain corr r1 t1 where sc: "sc r t d = Some (corr, r1, t1)"
      by (metis option.exhaust prod_cases3)
    from Cons.IH [OF Cons.prems, of r1 t1] obtain tr where
      "scores sc b ds r1 t1 = Some tr" by blast
    with True sc show ?thesis by simp
  qed
qed

lemma within_bounds_None: "within_bounds d None"
  by (simp add: within_bounds_def)

lemma candidates_nonempty: "candidates ab disp \<noteq> []"
  by (simp add: candidates_def adjustments_nonempty)

lemma scores_unbounded_nonempty:
  assumes "scores (shifted_corr P) None (candidates ab disp) r t = Some tr"
  shows "tr \<noteq> []"
proof -
  from assms have "map fst tr = filter (\<lambda>d. within_bounds d None) (candidates ab disp)"
    by (rule scores_survivors)
  then have "map fst tr = candidates ab disp" by (simp add: within_bounds_None)
  with candidates_nonempty [of ab disp] show "tr \<noteq> []" by auto
qed

lemma local_refinement_unbounded:
  "local_refinement P None ab disp r t = Inl ScoreError \<or>
   (\<exists>d r' t'. local_refinement P None ab disp r t = Inr (d, r', t'))"
proof (cases "scores (shifted_corr P) None (candidates ab disp) r t")
  case None
  with local_refinement_scores [of P None ab disp r t] show ?thesis by simp
next
  case (Some tr)
  with local_refinement_scores [of P None ab disp r t] scores_unbounded_nonempty [OF Some]
  show ?thesis
    by (simp del: split_paired_Ex split_paired_All) blast
qed

lemma local_refinement_unbounded_total:
  assumes "\<forall>r t d. shifted_corr P r t d \<noteq> None"
  shows "\<exists>d r' t'. local_refinement P None ab disp r t = Inr (d, r', t')"
proof -
  from assms obtain tr where Some: "scores (shifted_corr P) None (candidates ab disp) r t = Some tr"
    using scores_total [of "shifted_corr P" None "candidates ab disp" r t] by blast
  with local_refinement_scores [of P None ab disp r t] scores_unbounded_nonempty [OF Some]
  show ?thesis
    by (simp del: split_paired_Ex split_paired_All) blast
qed

lemma pyramid_align_unbounded_aux:
  assumes gf: "\<forall>img sd. shape (gaussian_filter P img sd) = shape img"
    and ms: "vle (1, 1, 1) min_shape"
  shows "spatial_size (shape reference) (shape target) = n \<Longrightarrow>
         \<exists>res. pyramid_align P reference target min_shape max_levels None = Some res \<and>
           (res = Inl ScoreError \<or> (\<exists>d r' t'. res = Inr (d, r', t'))) \<and>
           ((\<forall>r t d. shifted_corr P r t d \<noteq> None) \<longrightarrow> (\<exists>d r' t'. res = Inr (d, r', t')))"
proof (induction n arbitrary: reference target max_levels rule: less_induct)
  case (less n)
  let ?ab = "axes_bool reference target min_shape"
  have ord: "bounds_ordered None" by (simp add: bounds_ordered_def)
  show ?case
  proof (cases "levels_left max_levels \<and> np_any ?ab")
    case False
    show ?thesis
      unfolding pyramid_align_base [OF ord False] by blast
  next
    case True
    let ?r = "pyr_down_3d (gaussian_filter P) reference (nonzero ?ab)"
    let ?t = "pyr_down_3d (gaussian_filter P) target (nonzero ?ab)"
    have nb: "new_bounds None ?ab = None" by (simp add: new_bounds_def)
    have "spatial_size (shape ?r) (shape ?t) < n"
      using spatial_size_shrinks [OF ms, of reference target] True less.prems
      by (simp add: pyr_down_3d_shape' [OF gf])
    from less.IH [OF this refl, of "map_option (\<lambda>n. n - 1) max_levels"]
    obtain res where
      rec: "pyramid_align P ?r ?t min_shape (map_option (\<lambda>n. n - 1) max_levels)
              (new_bounds None ?ab) = Some res" and
      alt: "res = Inl ScoreError \<or> (\<exists>d r' t'. res = Inr (d, r', t'))" and
      tot: "(\<forall>r t d. shifted_corr P r t d \<noteq> None) \<longrightarrow> (\<exists>d r' t'. res = Inr (d, r', t'))"
      unfolding nb by blast
    show ?thesis
    proof (cases res)
      case (Inl e)
      with alt have e: "res = Inl ScoreError" by auto
      have "pyramid_align P reference target min_shape max_levels None = Some (Inl ScoreError)"
        using True rec e ord by (subst pyramid_align.simps) simp
      moreover from tot e have "\<not> (\<forall>r t d. shifted_corr P r t d \<noteq> None)" by auto
      ultimately show ?thesis by blast
    next
      case (Inr p)
      obtain disp rr tt where p: "p = (disp, rr, tt)" by (cases p)
      have eq: "pyramid_align P reference target min_shape max_levels None =
          Some (local_refinement P None ?ab disp reference target)"
        using True rec [unfolded Inr p] ord by (intro pyramid_align_step) simp_all
      show ?thesis
        unfolding eq
      proof (rule exI, intro conjI impI)
        show "Some (local_refinement P None ?ab disp reference target) =
              Some (local_refinement P None ?ab disp reference target)"
          by (rule refl)
        show "local_refinement P None ?ab disp reference target = Inl ScoreError \<or>
              (\<exists>d r' t'. local_refinement P None ?ab disp reference target = Inr (d, r', t'))"
          by (rule local_refinement_unbounded)
        assume "\<forall>r t d. shifted_corr P r t d \<noteq> None"
        then show "\<exists>d r' t'. local_refinement P None ?ab disp reference target = Inr (d, r', t')"
          by (rule local_refinement_unbounded_total)
      qed
    qed
  qed
qed

subsection \<open>The engine on an instance\<close>

lemmas pyramid_defs = axes_bool_def levels_left_def bounds_ordered_def new_bounds_def
  pyr_down_3d_def slice_len_def local_refinement_def within_bounds_def adjustment_range_def
  toy_externals_def zeros_def Let_def

lemma toy_axes:
  "axes_bool (zeros (1, 4, 4, 1) :: int ndarray) (zeros (1, 4, 4, 1) :: int ndarray) (2, 2, 2) =
      (False, True, True)"
  by (simp add: axes_bool_def zeros_def)

lemma toy_base:
  "pyramid_align toy_externals
     (pyr_down_3d (gaussian_filter toy_externals) (zeros (1, 4, 4, 1)) (nonzero (False, True, True)))
     (pyr_down_3d (gaussian_filter toy_externals) (zeros (1, 4, 4, 1)) (nonzero (False, True, True)))
     (2, 2, 2) (map_option (\<lambda>n. n - 1) None)
     (new_bounds (Some ((0, - 2, - 2), (1, 2, 2))) (False, True, True)) =
   Some (Inr ((0, - 1, - 1),
     pyr_down_3d (gaussian_filter toy_externals) (zeros (1, 4, 4, 1)) (nonzero (False, True, True)),
     pyr_down_3d (gaussian_filter toy_externals) (zeros (1, 4, 4, 1)) (nonzero (False, True, True))))"
  by (subst pyramid_align_base) (simp_all add: pyramid_defs)

lemma toy_refinement:
  "local_refinement toy_externals (Some ((0, - 2, - 2), (1, 2, 2))) (False, True, True)
     (0, - 1, - 1) (zeros (1, 4, 4, 1)) (zeros (1, 4, 4, 1)) =
   Inr ((0, - 1, - 1), zeros (1, 4, 4, 1), zeros (1, 4, 4, 1))"
  by (simp add: pyramid_defs)

lemma toy_bounded:
  "pyramid_align toy_externals (zeros (1, 4, 4, 1)) (zeros (1, 4, 4, 1)) (2, 2, 2) None
     (Some ((0, - 2, - 2), (1, 2, 2))) =
   Some (Inr ((0, - 1, - 1), zeros (1, 4, 4, 1), zeros (1, 4, 4, 1)))"
proof -
  have "pyramid_align toy_externals (zeros (1, 4, 4, 1)) (zeros (1, 4, 4, 1)) (2, 2, 2) None
     (Some ((0, - 2, - 2), (1, 2, 2))) =
     Some (local_refinement toy_externals (Some ((0, - 2, - 2), (1, 2, 2))) (False, True, True)
             (0, - 1, - 1) (zeros (1, 4, 4, 1)) (zeros (1, 4, 4, 1)))"
    using pyramid_align_step [of "Some ((0, - 2, - 2), (1, 2, 2))" None "zeros (1, 4, 4, 1)"
      "zeros (1, 4, 4, 1)" "(2, 2, 2)" toy_externals, unfolded toy_axes, OF _ _ _ toy_base]
    by (simp add: bounds_ordered_def levels_left_def)
  then show ?thesis unfolding toy_refinement .
qed

lemma toy_scores:
  "scores (shifted_corr toy_externals) (Some ((0, - 2, - 2), (1, 2, 2)))
     (candidates (False, True, True) (0, - 1, - 1)) (zeros (1, 4, 4, 1)) (zeros (1, 4, 4, 1)) =
   Some toy_trace"
  by (simp add: candidates_def pyramid_defs toy_trace_def)

subsection \<open>The claims about the engine\<close>

text \<open>
  Claim C2. When \<^verbatim>\<open>pyramid_align\<close> is given bounds and returns a displacement, the
  displacement lies between the lower and the upper bound on every axis, provided the base
  alignment returns a displacement within the bounds it is given whenever these are ordered.
  A displacement that the refinement returns has passed \<^verbatim>\<open>within_bounds\<close> for the
  bounds of the call; the assumption on the base alignment is used where no level is
  downsampled.
\<close>

theorem pyramid_align_within_bounds:
  assumes ret: "pyramid_align P reference target min_shape max_levels (Some (lower, upper)) =
                  Some (Inr (d, r', t'))"
    and base: "\<forall>r t lo hi. vlt lo hi \<longrightarrow>
                 within_bounds (base_alignment P r t (Some (lo, hi))) (Some (lo, hi))"
  shows "vle lower d \<and> vle d upper"
proof -
  let ?b = "Some (lower, upper)"
  let ?ab = "axes_bool reference target min_shape"
  from ret have ord: "vlt lower upper"
    by (subst (asm) pyramid_align.simps) (auto simp: bounds_ordered_def split: if_splits)
  have "within_bounds d ?b"
  proof (cases "levels_left max_levels \<and> np_any ?ab")
    case True
    with ret obtain disp where
      "local_refinement P ?b ?ab disp reference target = Inr (d, r', t')"
      by (subst (asm) pyramid_align.simps)
         (auto split: if_splits sum.splits prod.splits Option.bind_splits)
    then show ?thesis by (rule local_refinement_within)
  next
    case False
    with ret have "d = base_alignment P reference target ?b"
      by (subst (asm) pyramid_align.simps) (auto split: if_splits)
    with base ord show ?thesis by blast
  qed
  then show ?thesis by (simp add: within_bounds_def)
qed

theorem pyramid_align_within_bounds_witness:
  "pyramid_align toy_externals (zeros (1, 4, 4, 1)) (zeros (1, 4, 4, 1)) (2, 2, 2) None
     (Some ((0, - 2, - 2), (1, 2, 2))) =
     Some (Inr ((0, - 1, - 1), zeros (1, 4, 4, 1), zeros (1, 4, 4, 1))) \<and>
   vle (0, - 2, - 2) (0, - 1, - 1) \<and> vle (0, - 1, - 1) (1, 2, 2)"
proof -
  have base: "\<forall>r t lo hi. vlt lo hi \<longrightarrow>
      within_bounds (base_alignment toy_externals r t (Some (lo, hi))) (Some (lo, hi))"
  proof (intro allI impI)
    fix r t :: "int ndarray" and lo hi :: vec3
    assume "vlt lo hi"
    then show "within_bounds (base_alignment toy_externals r t (Some (lo, hi))) (Some (lo, hi))"
      by (cases lo; cases hi) (simp add: toy_externals_def within_bounds_def)
  qed
  from pyramid_align_within_bounds [OF toy_bounded base] toy_bounded show ?thesis
    by (rule_tac conjI)
qed

text \<open>
  What the refinement does at a level that downsamples, with \<open>(x0, x1, x2)\<close> the
  displacement the recursive call returned: the candidates are exactly the vectors with
  twice \<open>x\<close> on a downsampled axis and \<open>x\<close> on another, plus an adjustment from
  -1, 0, 1 on a downsampled axis and 0 on another. The candidates scored are those within
  the bounds of the call (not the halved ones), in the order of the loop. If the scorer
  fails on one of them the call fails with the scorer's error; if none is within the
  bounds the call fails the assertion that a candidate was found; otherwise it returns a
  scored candidate whose score no other scored candidate exceeds. The scores are those
  that the calls of the loop return, each on the arrays as the calls before it left them.
\<close>

lemma refinement_loop_scores:
  assumes ab: "axes_bool reference target min_shape = (b0, b1, b2)"
    and ord: "bounds_ordered bounds" and lev: "levels_left max_levels"
    and any: "b0 \<or> b1 \<or> b2"
    and rec: "pyramid_align P
                (pyr_down_3d (gaussian_filter P) reference (nonzero (b0, b1, b2)))
                (pyr_down_3d (gaussian_filter P) target (nonzero (b0, b1, b2)))
                min_shape (map_option (\<lambda>n. n - 1) max_levels)
                (new_bounds bounds (b0, b1, b2)) = Some (Inr ((x0, x1, x2), rr, tt))"
  shows "set (candidates (b0, b1, b2) (x0, x1, x2)) =
           {((if b0 then 2 else 1) * x0 + a0, (if b1 then 2 else 1) * x1 + a1,
             (if b2 then 2 else 1) * x2 + a2) | a0 a1 a2.
              a0 \<in> (if b0 then {- 1, 0, 1} else {0}) \<and>
              a1 \<in> (if b1 then {- 1, 0, 1} else {0}) \<and>
              a2 \<in> (if b2 then {- 1, 0, 1} else {0})} \<and>
         (case scores (shifted_corr P) bounds (candidates (b0, b1, b2) (x0, x1, x2))
                 reference target of
            None \<Rightarrow>
              pyramid_align P reference target min_shape max_levels bounds =
                Some (Inl ScoreError)
          | Some tr \<Rightarrow>
              map fst tr =
                filter (\<lambda>d. within_bounds d bounds) (candidates (b0, b1, b2) (x0, x1, x2)) \<and>
              (if tr = [] then
                 pyramid_align P reference target min_shape max_levels bounds =
                   Some (Inl AssertNoCandidate)
               else \<exists>d c r' t'.
                 pyramid_align P reference target min_shape max_levels bounds =
                   Some (Inr (d, r', t')) \<and>
                 (d, c) \<in> set tr \<and> (\<forall>(d', c') \<in> set tr. c' \<le> c)))"
proof -
  have eq: "pyramid_align P reference target min_shape max_levels bounds =
      Some (local_refinement P bounds (b0, b1, b2) (x0, x1, x2) reference target)"
    using ord lev any rec by (subst pyramid_align.simps) (simp add: ab)
  show ?thesis
  proof (cases "scores (shifted_corr P) bounds (candidates (b0, b1, b2) (x0, x1, x2))
                 reference target")
    case None
    with local_refinement_scores [of P bounds "(b0, b1, b2)" "(x0, x1, x2)" reference target]
    show ?thesis unfolding eq by (simp add: set_candidates)
  next
    case (Some tr)
    have A: "map fst tr =
        filter (\<lambda>d. within_bounds d bounds) (candidates (b0, b1, b2) (x0, x1, x2))"
      by (rule scores_survivors [OF Some])
    from Some local_refinement_scores [of P bounds "(b0, b1, b2)" "(x0, x1, x2)" reference target]
    have "if tr = [] then
        local_refinement P bounds (b0, b1, b2) (x0, x1, x2) reference target =
          Inl AssertNoCandidate
      else \<exists>d c r' t'.
        local_refinement P bounds (b0, b1, b2) (x0, x1, x2) reference target = Inr (d, r', t') \<and>
        (d, c) \<in> set tr \<and> (\<forall>(d', c') \<in> set tr. c' \<le> c)"
      by simp
    then have B: "if tr = [] then
        pyramid_align P reference target min_shape max_levels bounds =
          Some (Inl AssertNoCandidate)
      else \<exists>d c r' t'.
        pyramid_align P reference target min_shape max_levels bounds = Some (Inr (d, r', t')) \<and>
        (d, c) \<in> set tr \<and> (\<forall>(d', c') \<in> set tr. c' \<le> c)"
      unfolding eq option.inject .
    show ?thesis
      unfolding Some option.case using set_candidates A B by (intro conjI)
  qed
qed

lemma refinement_loop_scores_instance:
  "scores (shifted_corr toy_externals) (Some ((0, - 2, - 2), (1, 2, 2)))
     (candidates (False, True, True) (0, - 1, - 1)) (zeros (1, 4, 4, 1)) (zeros (1, 4, 4, 1)) =
     Some toy_trace \<and>
   (\<exists>d c r' t'.
      pyramid_align toy_externals (zeros (1, 4, 4, 1)) (zeros (1, 4, 4, 1)) (2, 2, 2) None
        (Some ((0, - 2, - 2), (1, 2, 2))) = Some (Inr (d, r', t')) \<and>
      (d, c) \<in> set toy_trace \<and> list_all (\<lambda>(d', c'). c' \<le> c) toy_trace)"
proof -
  have ord: "bounds_ordered (Some ((0, - 2, - 2), (1, 2, 2)))"
    by (simp add: bounds_ordered_def)
  have lev: "levels_left None" by (simp add: levels_left_def)
  have any: "False \<or> True \<or> True" by simp
  have ne: "toy_trace \<noteq> []" by (simp add: toy_trace_def)
  note T = refinement_loop_scores [OF toy_axes ord lev any toy_base, unfolded toy_scores]
  from T [THEN conjunct2] ne have "\<exists>d c r' t'.
      pyramid_align toy_externals (zeros (1, 4, 4, 1)) (zeros (1, 4, 4, 1)) (2, 2, 2) None
        (Some ((0, - 2, - 2), (1, 2, 2))) = Some (Inr (d, r', t')) \<and>
      (d, c) \<in> set toy_trace \<and> (\<forall>(d', c') \<in> set toy_trace. c' \<le> c)"
    by (simp del: split_paired_Ex split_paired_All)
  then show ?thesis
    unfolding list_all_iff using toy_scores by blast
qed

text \<open>
  Claim C6. For a filter that keeps the shape of its argument and a \<^verbatim>\<open>min_shape\<close> of
  at least 1 on every axis, \<^verbatim>\<open>pyramid_align\<close> returns (a value or an exception) for
  every pair of images, every \<^verbatim>\<open>max_levels\<close>, also none, and every bounds. With
  ordered bounds: when no level is left or no axis of both images has twice
  \<^verbatim>\<open>min_shape\<close>, the result is that of the base alignment on the images and bounds
  of the call; otherwise the call recurses once, with \<^verbatim>\<open>max_levels - 1\<close>, on images
  that are strictly shorter on every downsampled axis and unchanged on the others.
\<close>

theorem pyramid_align_terminates:
  assumes gf: "\<forall>img sd. shape (gaussian_filter P img sd) = shape img"
    and ms: "vle (1, 1, 1) min_shape"
  shows "(\<exists>res. pyramid_align P reference target min_shape max_levels bounds = Some res) \<and>
         (bounds_ordered bounds \<and>
          \<not> (levels_left max_levels \<and> np_any (axes_bool reference target min_shape)) \<longrightarrow>
            pyramid_align P reference target min_shape max_levels bounds =
              Some (Inr (base_alignment P reference target bounds, reference, target))) \<and>
         (bounds_ordered bounds \<and> levels_left max_levels \<and>
          np_any (axes_bool reference target min_shape) \<longrightarrow>
            pyramid_align P reference target min_shape max_levels bounds =
              Option.bind
                (pyramid_align P
                   (pyr_down_3d (gaussian_filter P) reference
                      (nonzero (axes_bool reference target min_shape)))
                   (pyr_down_3d (gaussian_filter P) target
                      (nonzero (axes_bool reference target min_shape)))
                   min_shape (map_option (\<lambda>n. n - 1) max_levels)
                   (new_bounds bounds (axes_bool reference target min_shape)))
                (\<lambda>res. case res of
                     Inl e \<Rightarrow> Some (Inl e)
                   | Inr (disp, _, _) \<Rightarrow>
                       Some (local_refinement P bounds (axes_bool reference target min_shape)
                               disp reference target)) \<and>
            shrinks_on (axes_bool reference target min_shape)
              (shape (pyr_down_3d (gaussian_filter P) reference
                        (nonzero (axes_bool reference target min_shape))))
              (shape reference) \<and>
            shrinks_on (axes_bool reference target min_shape)
              (shape (pyr_down_3d (gaussian_filter P) target
                        (nonzero (axes_bool reference target min_shape))))
              (shape target))"
proof (intro conjI impI)
  show "\<exists>res. pyramid_align P reference target min_shape max_levels bounds = Some res"
    using pyramid_align_returns [OF gf ms] by blast
next
  assume "bounds_ordered bounds \<and>
          \<not> (levels_left max_levels \<and> np_any (axes_bool reference target min_shape))"
  then show "pyramid_align P reference target min_shape max_levels bounds =
              Some (Inr (base_alignment P reference target bounds, reference, target))"
    by (subst pyramid_align.simps) auto
next
  assume a: "bounds_ordered bounds \<and> levels_left max_levels \<and>
          np_any (axes_bool reference target min_shape)"
  then show "pyramid_align P reference target min_shape max_levels bounds =
              Option.bind
                (pyramid_align P
                   (pyr_down_3d (gaussian_filter P) reference
                      (nonzero (axes_bool reference target min_shape)))
                   (pyr_down_3d (gaussian_filter P) target
                      (nonzero (axes_bool reference target min_shape)))
                   min_shape (map_option (\<lambda>n. n - 1) max_levels)
                   (new_bounds bounds (axes_bool reference target min_shape)))
                (\<lambda>res. case res of
                     Inl e \<Rightarrow> Some (Inl e)
                   | Inr (disp, _, _) \<Rightarrow>
                       Some (local_refinement P bounds (axes_bool reference target min_shape)
                               disp reference target))"
    by (subst pyramid_align.simps) simp
  show "shrinks_on (axes_bool reference target min_shape)
              (shape (pyr_down_3d (gaussian_filter P) reference
                        (nonzero (axes_bool reference target min_shape))))
              (shape reference)"
    unfolding pyr_down_3d_shape' [OF gf]
    by (rule half_shape_shrinks [OF ms, THEN conjunct1])
  show "shrinks_on (axes_bool reference target min_shape)
              (shape (pyr_down_3d (gaussian_filter P) target
                        (nonzero (axes_bool reference target min_shape))))
              (shape target)"
    unfolding pyr_down_3d_shape' [OF gf]
    by (rule half_shape_shrinks [OF ms, THEN conjunct2])
qed

theorem pyramid_align_terminates_witness:
  "vle (1, 1, 1) (2, 2, 2) \<and>
   (\<exists>res. pyramid_align toy_externals (zeros (1, 4, 4, 1)) (zeros (1, 4, 4, 1)) (2, 2, 2) None
            None = Some res) \<and>
   shrinks_on (False, True, True)
     (shape (pyr_down_3d (gaussian_filter toy_externals) (zeros (1, 4, 4, 1) :: int ndarray)
               (nonzero (False, True, True))))
     (shape (zeros (1, 4, 4, 1) :: int ndarray))"
proof -
  have gf: "\<forall>img sd. shape (gaussian_filter toy_externals img sd) = shape img"
    by (simp add: toy_externals_def)
  have ms: "vle (1, 1, 1) (2, 2, 2)" by simp
  have c: "bounds_ordered None \<and> levels_left None \<and>
      np_any (axes_bool (zeros (1, 4, 4, 1) :: int ndarray) (zeros (1, 4, 4, 1) :: int ndarray)
                (2, 2, 2))"
    unfolding toy_axes by (simp add: bounds_ordered_def levels_left_def)
  note T = pyramid_align_terminates [OF gf ms, of "zeros (1, 4, 4, 1)" "zeros (1, 4, 4, 1)"
      None None]
  from T [THEN conjunct1] T [THEN conjunct2, THEN conjunct2, rule_format, OF c] ms
  show ?thesis unfolding toy_axes by blast
qed

text \<open>
  Claim C10. Without bounds, \<^verbatim>\<open>within_bounds\<close> accepts every displacement and the
  adjustments are never empty, so the refinement never fails the assertion that a
  candidate was found, at any level. For a filter that keeps shapes and a
  \<^verbatim>\<open>min_shape\<close> of at least 1, a call without bounds returns, never with that
  failure, and it returns a displacement whenever the scorer returns a score on every call.
\<close>

theorem pyramid_align_unbounded:
  assumes gf: "\<forall>img sd. shape (gaussian_filter P img sd) = shape img"
    and ms: "vle (1, 1, 1) min_shape"
  shows "(\<forall>d. within_bounds d None) \<and> (\<forall>ab. adjustments ab \<noteq> []) \<and>
         (\<forall>ab disp r t. local_refinement P None ab disp r t \<noteq> Inl AssertNoCandidate) \<and>
         (\<exists>res. pyramid_align P reference target min_shape max_levels None = Some res \<and>
            res \<noteq> Inl AssertNoCandidate \<and>
            ((\<forall>r t d. shifted_corr P r t d \<noteq> None) \<longrightarrow> (\<exists>d r' t'. res = Inr (d, r', t'))))"
proof (intro conjI allI)
  show "within_bounds d None" for d by (rule within_bounds_None)
  show "adjustments ab \<noteq> []" for ab by (rule adjustments_nonempty)
  show "local_refinement P None ab disp r t \<noteq> Inl AssertNoCandidate" for ab disp r t
    using local_refinement_unbounded [of P ab disp r t] by auto
  from pyramid_align_unbounded_aux [OF gf ms refl, of reference target max_levels]
  obtain res where
    "pyramid_align P reference target min_shape max_levels None = Some res"
    "res = Inl ScoreError \<or> (\<exists>d r' t'. res = Inr (d, r', t'))"
    "(\<forall>r t d. shifted_corr P r t d \<noteq> None) \<longrightarrow> (\<exists>d r' t'. res = Inr (d, r', t'))"
    by blast
  then show "\<exists>res. pyramid_align P reference target min_shape max_levels None = Some res \<and>
            res \<noteq> Inl AssertNoCandidate \<and>
            ((\<forall>r t d. shifted_corr P r t d \<noteq> None) \<longrightarrow> (\<exists>d r' t'. res = Inr (d, r', t')))"
    by (intro exI [of _ res]) auto
qed

theorem pyramid_align_unbounded_witness:
  "vle (1, 1, 1) (2, 2, 2) \<and>
   (\<exists>d r' t'. pyramid_align toy_externals (zeros (1, 4, 4, 1)) (zeros (1, 4, 4, 1)) (2, 2, 2)
                None None = Some (Inr (d, r', t')))"
proof -
  have gf: "\<forall>img sd. shape (gaussian_filter toy_externals img sd) = shape img"
    by (simp add: toy_externals_def)
  have ms: "vle (1, 1, 1) (2, 2, 2)" by simp
  have tot: "\<forall>r t d. shifted_corr toy_externals r t d \<noteq> None"
    by (simp add: toy_externals_def split: prod.splits)
  from pyramid_align_unbounded [OF gf ms, of "zeros (1, 4, 4, 1)" "zeros (1, 4, 4, 1)" None]
    tot ms
  show ?thesis by blast
qed


subsection \<open>The scorer on an image and itself\<close>

lemma subtract_means_shape [simp]: "shape (subtract_means a st ext) = shape a"
  by (cases st; cases ext; cases "shape a") (simp add: subtract_means_def)

lemma sqrt_squares: "sqrt 36 = 6" "sqrt 81 = 9" "sqrt 324 = 18"
  by (rule real_sqrt_unique; simp)+

lemma shifted_corr_exact_one_channel:
  assumes "shape r = (r0, r1, r2, 1)" and "shape t = (t0, t1, t2, 1)"
    and "axis_overlap r0 t0 d0 = (rc0, ic0, s0)"
    and "axis_overlap r1 t1 d1 = (rc1, ic1, s1)"
    and "axis_overlap r2 t2 d2 = (rc2, ic2, s2)"
    and "channel_corr
           (channel_values (subtract_means t (ic0, ic1, ic2) (s0, s1, s2))
              (window (ic0, ic1, ic2) (s0, s1, s2)) 0)
           (channel_values (subtract_means r (rc0, rc1, rc2) (s0, s1, s2))
              (window (rc0, rc1, rc2) (s0, s1, s2)) 0) = Some c"
  shows "shifted_corr_exact r t (d0, d1, d2) =
           Some (c, subtract_means r (rc0, rc1, rc2) (s0, s1, s2),
                 subtract_means t (ic0, ic1, ic2) (s0, s1, s2))"
  by (simp add: shifted_corr_exact_def assms np_mean_def del: window.simps)

lemmas row_eval = channel_values_def subtract_means_def bump_row_def upt_rec np_mean_def
  channel_corr_def sqrt_squares

lemma row_overlaps:
  "axis_overlap 1 1 0 = (0, 0, 1)" "axis_overlap 4 4 (- 1) = (0, 1, 3)"
  "axis_overlap 4 4 0 = (0, 0, 4)" "axis_overlap 4 4 1 = (1, 0, 3)"
  by (simp_all add: axis_overlap_def slice_bound_def)

text \<open>
  The three calls of the loop, in its order. The first leaves the reference as
  -2, 1, 1, 4 and the target as 4, 1, 1, -2; the second scores these two arrays.
\<close>

lemma bump_call_1:
  "shifted_corr_exact bump_row bump_row (0, 0, - 1) =
     Some (- 1 / 2, subtract_means bump_row (0, 0, 0) (1, 1, 3),
           subtract_means bump_row (0, 0, 1) (1, 1, 3))"
  by (rule shifted_corr_exact_one_channel [OF _ _ row_overlaps(1) row_overlaps(1) row_overlaps(2)])
     (simp_all add: row_eval)

lemma bump_after_call_1:
  "map (\<lambda>i2. elems (subtract_means bump_row (0, 0, 0) (1, 1, 3)) (0, 0, i2, 0)) [0, 1, 2, 3] =
     [- 2, 1, 1, 4]"
  "map (\<lambda>i2. elems (subtract_means bump_row (0, 0, 1) (1, 1, 3)) (0, 0, i2, 0)) [0, 1, 2, 3] =
     [4, 1, 1, - 2]"
  by (simp_all add: row_eval)

lemma bump_call_2:
  "shifted_corr_exact (subtract_means bump_row (0, 0, 0) (1, 1, 3))
     (subtract_means bump_row (0, 0, 1) (1, 1, 3)) (0, 0, 0) =
     Some (- 1, subtract_means (subtract_means bump_row (0, 0, 0) (1, 1, 3)) (0, 0, 0) (1, 1, 4),
           subtract_means (subtract_means bump_row (0, 0, 1) (1, 1, 3)) (0, 0, 0) (1, 1, 4))"
  by (rule shifted_corr_exact_one_channel [OF _ _ row_overlaps(1) row_overlaps(1) row_overlaps(3)])
     (simp_all add: row_eval)

lemma bump_call_3:
  "shifted_corr_exact
     (subtract_means (subtract_means bump_row (0, 0, 0) (1, 1, 3)) (0, 0, 0) (1, 1, 4))
     (subtract_means (subtract_means bump_row (0, 0, 1) (1, 1, 3)) (0, 0, 0) (1, 1, 4))
     (0, 0, 1) =
     Some (- 1 / 2,
       subtract_means (subtract_means (subtract_means bump_row (0, 0, 0) (1, 1, 3))
          (0, 0, 0) (1, 1, 4)) (0, 0, 1) (1, 1, 3),
       subtract_means (subtract_means (subtract_means bump_row (0, 0, 1) (1, 1, 3))
          (0, 0, 0) (1, 1, 4)) (0, 0, 0) (1, 1, 3))"
  by (rule shifted_corr_exact_one_channel [OF _ _ row_overlaps(1) row_overlaps(1) row_overlaps(4)])
     (simp_all add: row_eval)

text \<open>The scores of the other two candidates on the image and itself.\<close>

lemma bump_score_0:
  "shifted_corr_exact bump_row bump_row (0, 0, 0) =
     Some (1, subtract_means bump_row (0, 0, 0) (1, 1, 4),
           subtract_means bump_row (0, 0, 0) (1, 1, 4))"
  by (rule shifted_corr_exact_one_channel [OF _ _ row_overlaps(1) row_overlaps(1) row_overlaps(3)])
     (simp_all add: row_eval)

lemma bump_score_1:
  "shifted_corr_exact bump_row bump_row (0, 0, 1) =
     Some (- 1 / 2, subtract_means bump_row (0, 0, 1) (1, 1, 3),
           subtract_means bump_row (0, 0, 0) (1, 1, 3))"
  by (rule shifted_corr_exact_one_channel [OF _ _ row_overlaps(1) row_overlaps(1) row_overlaps(4)])
     (simp_all add: row_eval)

lemma bump_scores:
  "scores shifted_corr_exact None (candidates (False, False, True) (0, 0, 0)) bump_row bump_row =
     Some [((0, 0, - 1), - 1 / 2), ((0, 0, 0), - 1), ((0, 0, 1), - 1 / 2)]"
  by (simp add: candidates_def adjustment_range_def within_bounds_def
      bump_call_1 bump_call_2 bump_call_3 del: One_nat_def)

lemma bump_refinement:
  "\<exists>r' t'. local_refinement
      \<lparr>gaussian_filter = g, shifted_corr = shifted_corr_exact, base_alignment = b\<rparr>
      None (False, False, True) (0, 0, 0) bump_row bump_row = Inr ((0, 0, - 1), r', t')"
  by (simp add: local_refinement_def adjustment_range_def within_bounds_def
      bump_call_1 bump_call_2 bump_call_3 del: One_nat_def)

lemma bump_axes: "axes_bool bump_row bump_row (2, 2, 2) = (False, False, True)"
  by (simp add: axes_bool_def bump_row_def)

lemma bump_down_axes:
  assumes "\<forall>img sd. shape (g img sd) = shape img"
  shows "axes_bool (pyr_down_3d g bump_row [2]) (pyr_down_3d g bump_row [2]) (2, 2, 2) =
           (False, False, False)"
  using assms by (simp add: axes_bool_def pyr_down_3d_def bump_row_def slice_len_def Let_def)

lemma bump_pyramid:
  assumes gf: "\<forall>img sd. shape (g img sd) = shape img"
    and coarse: "b (pyr_down_3d g bump_row [2]) (pyr_down_3d g bump_row [2]) None = (0, 0, 0)"
  shows "\<exists>r' t'. pyramid_align
      \<lparr>gaussian_filter = g, shifted_corr = shifted_corr_exact, base_alignment = b\<rparr>
      bump_row bump_row (2, 2, 2) None None = Some (Inr ((0, 0, - 1), r', t'))"
proof -
  let ?P = "\<lparr>gaussian_filter = g, shifted_corr = shifted_corr_exact, base_alignment = b\<rparr>"
  have base: "pyramid_align ?P (pyr_down_3d g bump_row [2]) (pyr_down_3d g bump_row [2])
      (2, 2, 2) None None =
      Some (Inr ((0, 0, 0), pyr_down_3d g bump_row [2], pyr_down_3d g bump_row [2]))"
    by (subst pyramid_align_base) (simp_all add: bounds_ordered_def bump_down_axes [OF gf] coarse)
  have "pyramid_align ?P bump_row bump_row (2, 2, 2) None None =
      Some (local_refinement ?P None (False, False, True) (0, 0, 0) bump_row bump_row)"
    using pyramid_align_step [of None None bump_row bump_row "(2, 2, 2)" ?P, unfolded bump_axes]
      base
    by (simp add: bounds_ordered_def levels_left_def new_bounds_def)
  with bump_refinement [of g b] show ?thesis by auto
qed

text \<open>
  Claim C3, at its failing input: \<^verbatim>\<open>pyramid_align(reference, target, min_shape=2)\<close>
  on two arrays of shape (1, 1, 4, 1) that both hold 4, 7, 7, 4. Only the column axis is
  downsampled; the filter keeps the shape of its argument, and the coarse level aligns
  the two equal arrays with displacement zero. The candidates are then (0, 0, -1),
  (0, 0, 0) and (0, 0, 1). On the reference and target of the call their scores are
  -1/2, 1 and -1/2: the candidate with the highest score is (0, 0, 0). The loop scores
  (0, 0, -1) first, and that call subtracts the means of its two views from the arrays of
  the caller; the score it then computes for (0, 0, 0) is -1, and for (0, 0, 1) it is
  -1/2. The engine returns (0, 0, -1).
\<close>

theorem refinement_returns_lower_score:
  assumes gf: "\<forall>img sd. shape (g img sd) = shape img"
    and coarse: "b (pyr_down_3d g bump_row [2]) (pyr_down_3d g bump_row [2]) None = (0, 0, 0)"
  shows "(\<exists>r' t'. pyramid_align
            \<lparr>gaussian_filter = g, shifted_corr = shifted_corr_exact, base_alignment = b\<rparr>
            bump_row bump_row (2, 2, 2) None None = Some (Inr ((0, 0, - 1), r', t'))) \<and>
         scores shifted_corr_exact None (candidates (False, False, True) (0, 0, 0))
            bump_row bump_row =
           Some [((0, 0, - 1), - 1 / 2), ((0, 0, 0), - 1), ((0, 0, 1), - 1 / 2)] \<and>
         map_option fst (shifted_corr_exact bump_row bump_row (0, 0, - 1)) = Some (- 1 / 2) \<and>
         map_option fst (shifted_corr_exact bump_row bump_row (0, 0, 0)) = Some 1 \<and>
         map_option fst (shifted_corr_exact bump_row bump_row (0, 0, 1)) = Some (- 1 / 2)"
  using bump_pyramid [of g b, OF gf coarse] bump_scores
  by (simp add: bump_call_1 bump_score_0 bump_score_1 del: One_nat_def)

theorem refinement_returns_lower_score_witness:
  "\<exists>r' t'. pyramid_align
      \<lparr>gaussian_filter = (\<lambda>img sd. img), shifted_corr = shifted_corr_exact,
         base_alignment = (\<lambda>r t bnd. (0, 0, 0))\<rparr>
      bump_row bump_row (2, 2, 2) None None = Some (Inr ((0, 0, - 1), r', t'))"
  using refinement_returns_lower_score [of "\<lambda>img sd. img" "\<lambda>r t bnd. (0, 0, 0)"]
  by simp

section \<open>Properties of the frame alignment coordinator\<close>

lemma assign3_Inr:
  "c < length xs \<Longrightarrow> f < length (xs ! c) \<Longrightarrow> p < length (xs ! c ! f) \<Longrightarrow>
   assign3 xs c f p v = Inr (xs[c := (xs ! c)[f := (xs ! c ! f)[p := v]]])"
  by (simp add: assign3_def)

lemma assign3_read:
  "assign3 xs c f p v = Inr ys \<Longrightarrow> ys ! c ! f ! p = v"
  by (auto simp: assign3_def split: if_splits)

lemma seed_plane_Inr:
  assumes "seed_plane F frame_idx plane cycle_idx p ns = Inr ns'"
  shows "shifts ns' ! cycle_idx ! frame_idx ! p = (0, 0, 0) \<and>
         correlations ns' ! cycle_idx ! frame_idx ! p = 1 \<and>
         update_reference (np_nan_to_num F) (np_isfinite F) (pixel_sums ns) (pixel_counts ns)
           (offset ns) (int p, 0, 0) plane = Inr (pixel_sums ns', pixel_counts ns', offset ns')"
  using assms
  by (auto simp: seed_plane_def Let_def split: sum.splits prod.splits dest: assign3_read)

lemma seed_plane_success:
  assumes "cycle_idx < length (correlations ns)"
    and "frame_idx < length (correlations ns ! cycle_idx)"
    and "p < length (correlations ns ! cycle_idx ! frame_idx)"
    and "cycle_idx < length (shifts ns)"
    and "frame_idx < length (shifts ns ! cycle_idx)"
    and "p < length (shifts ns ! cycle_idx ! frame_idx)"
    and "update_reference (np_nan_to_num F) (np_isfinite F) (pixel_sums ns) (pixel_counts ns)
           (offset ns) (int p, 0, 0) plane = Inr (s', c', o')"
  shows "seed_plane F frame_idx plane cycle_idx p ns =
     Inr (ns\<lparr>correlations := (correlations ns)[cycle_idx := (correlations ns ! cycle_idx)
                 [frame_idx := (correlations ns ! cycle_idx ! frame_idx)[p := 1]]],
              shifts := (shifts ns)[cycle_idx := (shifts ns ! cycle_idx)
                 [frame_idx := (shifts ns ! cycle_idx ! frame_idx)[p := (0, 0, 0)]]],
              pixel_sums := s', pixel_counts := c', offset := o'\<rparr>)"
  using assms by (simp add: seed_plane_def Let_def assign3_Inr)

lemma array_divide_same_shape:
  "shape x = shape y \<Longrightarrow> \<exists>r. array_divide d x y = Inr r"
  by (cases "shape y") (simp add: array_divide_def broadcast_extent_def)

lemma align_plane_seed:
  assumes "p < planes (shape (pixel_counts ns))" and "\<not> np_any_plane (pixel_counts ns) p"
  shows "align_plane P F frame_idx frame cycle_idx meth max_displacement p ns =
           Some (seed_plane F frame_idx (expand_plane frame p) cycle_idx p ns)"
  using assms by (simp add: align_plane_def)

lemma np_any_planeI:
  assumes "shape a = (n0, n1, n2, n3)" and "i1 < n1" and "i2 < n2" and "i3 < n3"
    and "elems a (p, i1, i2, i3) \<noteq> 0"
  shows "np_any_plane a p"
  using assms by (auto simp: np_any_plane_def)

lemma align_frame_single:
  assumes "planes (shape frame) = 1"
  shows "align_frame P F (frame_idx, frame, cycle_idx, meth, max_displacement) ns =
           align_plane P F frame_idx frame cycle_idx meth
             (map_option (\<lambda>(y, x). (0, y, x)) max_displacement) 0 ns"
  using assms
  by (cases "align_plane P F frame_idx frame cycle_idx meth
               (map_option (\<lambda>(y, x). (0, y, x)) max_displacement) 0 ns")
     (auto simp: align_frame_def split: sum.splits)

lemma align_plane_method:
  assumes "p < planes (shape (pixel_counts ns))"
    and "np_any_plane (pixel_counts ns) p"
    and "shape (pixel_sums ns) = shape (pixel_counts ns)"
  shows "(meth = ''ECC'' \<longrightarrow>
            align_plane P F frame_idx frame cycle_idx meth max_displacement p ns =
              Some (Inl (NotImplementedError, ns))) \<and>
         (meth \<noteq> ''ECC'' \<and> meth \<noteq> ''correlation'' \<longrightarrow>
            align_plane P F frame_idx frame cycle_idx meth max_displacement p ns =
              Some (Inl (UnrecognizedMethod, ns)))"
proof -
  have "shape (expand_plane (pixel_sums ns) p) = shape (expand_plane (pixel_counts ns) p)"
    using assms(3) by (cases "shape (pixel_counts ns)") (simp add: expand_plane_def)
  then obtain r where "array_divide (np_divide F) (expand_plane (pixel_sums ns) p)
      (expand_plane (pixel_counts ns) p) = Inr r"
    using array_divide_same_shape by blast
  with assms show ?thesis
    by (simp add: align_plane_def)
qed

lemma toy_seed_update:
  "\<exists>s' c'. update_reference (np_nan_to_num toy_float_ops) (np_isfinite toy_float_ops)
       (pixel_sums toy_namespace) (pixel_counts toy_namespace) (offset toy_namespace)
       (int 0, 0, 0) (expand_plane (full (1, 2, 2, 1) 5) 0) = Inr (s', c', (0, 0, 0)) \<and>
     shape s' = (1, 2, 2, 1) \<and> shape c' = (1, 2, 2, 1) \<and>
     elems s' (0, 0, 0, 0) = 5 \<and> elems c' (0, 0, 0, 0) = 1"
  by (simp add: update_reference_def update_sums_and_counts_def resize_array_def
      add_with_offset_def zeros_def full_def map_array_def py_slice_def slice_bound_def
      broadcasts_def Let_def toy_namespace_def init_namespace_def toy_float_ops_def
      expand_plane_def bidx_def)

lemma toy_first_frame:
  "\<exists>ns1. align_frame toy_externals toy_float_ops (0, full (1, 2, 2, 1) 5, 0, m, None)
            toy_namespace = Some (Inr ns1) \<and>
     shifts ns1 = [[[(0, 0, 0)], [(0, 0, 0)]]] \<and> correlations ns1 = [[[1], [9]]] \<and>
     offset ns1 = (0, 0, 0) \<and>
     shape (pixel_sums ns1) = (1, 2, 2, 1) \<and> shape (pixel_counts ns1) = (1, 2, 2, 1) \<and>
     elems (pixel_sums ns1) (0, 0, 0, 0) = 5 \<and> elems (pixel_counts ns1) (0, 0, 0, 0) = 1"
proof -
  from toy_seed_update obtain s' c' where
    u: "update_reference (np_nan_to_num toy_float_ops) (np_isfinite toy_float_ops)
       (pixel_sums toy_namespace) (pixel_counts toy_namespace) (offset toy_namespace)
       (int 0, 0, 0) (expand_plane (full (1, 2, 2, 1) 5) 0) = Inr (s', c', (0, 0, 0))" and
    v: "shape s' = (1, 2, 2, 1)" "shape c' = (1, 2, 2, 1)"
       "elems s' (0, 0, 0, 0) = 5" "elems c' (0, 0, 0, 0) = 1"
    by blast
  have seed: "\<not> np_any_plane (pixel_counts toy_namespace) 0"
    by (simp add: np_any_plane_def toy_namespace_def init_namespace_def zeros_def)
  have inr: "0 < planes (shape (pixel_counts toy_namespace))"
    by (simp add: toy_namespace_def init_namespace_def zeros_def)
  have one: "planes (shape (full (1, 2, 2, 1) (5::int))) = 1" by (simp add: full_def)
  have "seed_plane toy_float_ops 0 (expand_plane (full (1, 2, 2, 1) 5) 0) 0 0 toy_namespace =
     Inr (toy_namespace\<lparr>correlations := (correlations toy_namespace)[0 :=
                              (correlations toy_namespace ! 0)[0 :=
                                (correlations toy_namespace ! 0 ! 0)[0 := 1]]],
                           shifts := (shifts toy_namespace)[0 :=
                              (shifts toy_namespace ! 0)[0 :=
                                (shifts toy_namespace ! 0 ! 0)[0 := (0, 0, 0)]]],
                           pixel_sums := s', pixel_counts := c', offset := (0, 0, 0)\<rparr>)"
    by (rule seed_plane_success [OF _ _ _ _ _ _ u])
       (simp_all add: toy_namespace_def init_namespace_def)
  then have "align_frame toy_externals toy_float_ops (0, full (1, 2, 2, 1) 5, 0, m, None)
            toy_namespace =
     Some (Inr (toy_namespace\<lparr>correlations := (correlations toy_namespace)[0 :=
                              (correlations toy_namespace ! 0)[0 :=
                                (correlations toy_namespace ! 0 ! 0)[0 := 1]]],
                           shifts := (shifts toy_namespace)[0 :=
                              (shifts toy_namespace ! 0)[0 :=
                                (shifts toy_namespace ! 0 ! 0)[0 := (0, 0, 0)]]],
                           pixel_sums := s', pixel_counts := c', offset := (0, 0, 0)\<rparr>))"
    by (simp only: align_frame_single [OF one] align_plane_seed [OF inr seed])
  moreover have "shifts (toy_namespace\<lparr>correlations := (correlations toy_namespace)[0 :=
                              (correlations toy_namespace ! 0)[0 :=
                                (correlations toy_namespace ! 0 ! 0)[0 := 1]]],
                           shifts := (shifts toy_namespace)[0 :=
                              (shifts toy_namespace ! 0)[0 :=
                                (shifts toy_namespace ! 0 ! 0)[0 := (0, 0, 0)]]],
                           pixel_sums := s', pixel_counts := c', offset := (0, 0, 0)\<rparr>) =
       [[[(0, 0, 0)], [(0, 0, 0)]]]"
    by (simp add: toy_namespace_def init_namespace_def numeral_2_eq_2)
  moreover have "correlations (toy_namespace\<lparr>correlations := (correlations toy_namespace)[0 :=
                              (correlations toy_namespace ! 0)[0 :=
                                (correlations toy_namespace ! 0 ! 0)[0 := 1]]],
                           shifts := (shifts toy_namespace)[0 :=
                              (shifts toy_namespace ! 0)[0 :=
                                (shifts toy_namespace ! 0 ! 0)[0 := (0, 0, 0)]]],
                           pixel_sums := s', pixel_counts := c', offset := (0, 0, 0)\<rparr>) =
       [[[1], [9]]]"
    by (simp add: toy_namespace_def init_namespace_def numeral_2_eq_2)
  ultimately show ?thesis
    using v by (intro exI [of _ "toy_namespace\<lparr>correlations := (correlations toy_namespace)[0 :=
                              (correlations toy_namespace ! 0)[0 :=
                                (correlations toy_namespace ! 0 ! 0)[0 := 1]]],
                           shifts := (shifts toy_namespace)[0 :=
                              (shifts toy_namespace ! 0)[0 :=
                                (shifts toy_namespace ! 0 ! 0)[0 := (0, 0, 0)]]],
                           pixel_sums := s', pixel_counts := c', offset := (0, 0, 0)\<rparr>"])
       simp
qed

lemma seed_plane_records:
  assumes "seed_plane F frame_idx plane cycle_idx p ns = Inr ns'"
  shows "correlations ns' = (correlations ns)[cycle_idx := (correlations ns ! cycle_idx)
           [frame_idx := (correlations ns ! cycle_idx ! frame_idx)[p := 1]]] \<and>
         shifts ns' = (shifts ns)[cycle_idx := (shifts ns ! cycle_idx)
           [frame_idx := (shifts ns ! cycle_idx ! frame_idx)[p := (0, 0, 0)]]]"
  using assms
  by (auto simp: seed_plane_def Let_def assign3_def split: sum.splits prod.splits if_splits)

lemma expand_plane_shape: "shape frame = (f0, f1, f2, f3) \<Longrightarrow> shape (expand_plane frame p) = (1, f1, f2, f3)"
  by (simp add: expand_plane_def)

lemma expand_plane_pixel:
  assumes "shape frame = (f0, f1, f2, f3)"
  shows "pixel_at (expand_plane frame p) (int p, 0, 0) (int p, int y, int x, c) =
           elems frame (p, y, x, bidx f3 c)"
  using assms by (simp add: expand_plane_def)

lemma seed_plane_cells:
  assumes s: "seed_plane F frame_idx (expand_plane frame p) cycle_idx p ns = Inr ns'"
    and sf: "shape frame = (f0, f1, f2, f3)"
  shows "offset ns' = vmax (offset ns) (- int p, 0, 0)"
    and "y < f1 \<and> x < f2 \<and> c < channels (shape (pixel_sums ns)) \<longrightarrow>
           stored (shape (pixel_sums ns')) (offset ns') (int p, int y, int x, c) \<and>
           value_at (pixel_sums ns') (offset ns') (int p, int y, int x, c) =
             value_at (pixel_sums ns) (offset ns) (int p, int y, int x, c) +
             np_nan_to_num F (elems frame (p, y, x, bidx f3 c))"
    and "y < f1 \<and> x < f2 \<and> c < channels (shape (pixel_counts ns)) \<longrightarrow>
           stored (shape (pixel_counts ns')) (offset ns') (int p, int y, int x, c) \<and>
           value_at (pixel_counts ns') (offset ns') (int p, int y, int x, c) =
             value_at (pixel_counts ns) (offset ns) (int p, int y, int x, c) +
             (if np_isfinite F (elems frame (p, y, x, bidx f3 c)) then 1 else 0)"
    and "\<not> covers (int p, 0, 0) (1, f1, f2, f3) z \<longrightarrow>
           value_at (pixel_sums ns') (offset ns') z = value_at (pixel_sums ns) (offset ns) z \<and>
           value_at (pixel_counts ns') (offset ns') z = value_at (pixel_counts ns) (offset ns) z"
    and "(stored (shape (pixel_sums ns)) (offset ns) z \<longrightarrow>
            stored (shape (pixel_sums ns')) (offset ns') z) \<and>
         (stored (shape (pixel_counts ns)) (offset ns) z \<longrightarrow>
            stored (shape (pixel_counts ns')) (offset ns') z)"
proof -
  note R = seed_plane_Inr [OF s]
  note ur = update_reference_Inr [OF R [THEN conjunct2, THEN conjunct2]]
  have o': "offset ns' = vmax (offset ns) (vneg (int p, 0, 0))" by (rule ur(1))
  then show "offset ns' = vmax (offset ns) (- int p, 0, 0)" by simp
  note se = expand_plane_shape [OF sf, of p]
  note S = accumulate_cell [OF ur(2) [unfolded o']]
  note C = accumulate_cell [OF ur(3) [unfolded o']]
  have cov: "covers (int p, 0, 0) (shape (expand_plane frame p)) (int p, int y, int x, c) =
      (y < f1 \<and> x < f2)"
    by (simp add: se)
  show "y < f1 \<and> x < f2 \<and> c < channels (shape (pixel_sums ns)) \<longrightarrow>
           stored (shape (pixel_sums ns')) (offset ns') (int p, int y, int x, c) \<and>
           value_at (pixel_sums ns') (offset ns') (int p, int y, int x, c) =
             value_at (pixel_sums ns) (offset ns) (int p, int y, int x, c) +
             np_nan_to_num F (elems frame (p, y, x, bidx f3 c))"
    using S(1) [of "int p" "int y" "int x" c] S(2) [of "int p" "int y" "int x" c]
    unfolding o' cov expand_plane_pixel [OF sf] by simp
  show "y < f1 \<and> x < f2 \<and> c < channels (shape (pixel_counts ns)) \<longrightarrow>
           stored (shape (pixel_counts ns')) (offset ns') (int p, int y, int x, c) \<and>
           value_at (pixel_counts ns') (offset ns') (int p, int y, int x, c) =
             value_at (pixel_counts ns) (offset ns) (int p, int y, int x, c) +
             (if np_isfinite F (elems frame (p, y, x, bidx f3 c)) then 1 else 0)"
    using C(1) [of "int p" "int y" "int x" c] C(2) [of "int p" "int y" "int x" c]
    unfolding o' cov expand_plane_pixel [OF sf] by simp
  obtain z0 z1 z2 zc where z: "z = (z0, z1, z2, zc)" by (cases z)
  show "\<not> covers (int p, 0, 0) (1, f1, f2, f3) z \<longrightarrow>
           value_at (pixel_sums ns') (offset ns') z = value_at (pixel_sums ns) (offset ns) z \<and>
           value_at (pixel_counts ns') (offset ns') z = value_at (pixel_counts ns) (offset ns) z"
    using S(1) [of z0 z1 z2 zc] C(1) [of z0 z1 z2 zc]
    unfolding o' z se by simp
  show "(stored (shape (pixel_sums ns)) (offset ns) z \<longrightarrow>
            stored (shape (pixel_sums ns')) (offset ns') z) \<and>
         (stored (shape (pixel_counts ns)) (offset ns) z \<longrightarrow>
            stored (shape (pixel_counts ns')) (offset ns') z)"
    using S(3) [of z0 z1 z2 zc] C(3) [of z0 z1 z2 zc]
    unfolding o' z by simp
qed


text \<open>
  Claim C4. For a plane whose counts in the accumulator are all zero when the frame is
  processed: the result does not depend on the search (on none of the external functions,
  nor on the method or the maximal displacement), and a result there is, also for a search
  that would not return. When the plane is processed without an exception:
  \<^item> the shift record of this cycle, frame and plane is the zero vector and the
    correlation record is 1, and no other entry of the two records has changed;
  \<^item> the offset is the maximum of the old offset and \<open>(-p, 0, 0)\<close>;
  \<^item> every pixel \<open>(y, x)\<close> of plane \<open>p\<close> of the frame has been added at the coordinate
    \<open>(p, y, x)\<close>, that is with displacement zero in the plane: the sums hold there what
    they held (zero where they did not reach) plus \<^verbatim>\<open>nan_to_num\<close> of the pixel, the
    counts what they held plus one for a finite pixel, and the coordinate is stored in
    both arrays;
  \<^item> at every other coordinate the sums and the counts hold what they held, and every
    coordinate that was stored still is.

  It is processed without an exception when the indices are inside both records and the
  channels of the frame broadcast to those of the sums and the counts.
\<close>

theorem seed_plane_committed:
  assumes inr: "p < planes (shape (pixel_counts ns))"
    and seed: "\<not> np_any_plane (pixel_counts ns) p"
    and sf: "shape frame = (f0, f1, f2, f3)"
  shows "(\<forall>P' meth' max_displacement'.
            align_plane P' F frame_idx frame cycle_idx meth' max_displacement' p ns =
            align_plane P F frame_idx frame cycle_idx meth max_displacement p ns) \<and>
         (\<exists>res. align_plane P F frame_idx frame cycle_idx meth max_displacement p ns =
                  Some res) \<and>
         (\<forall>ns'. align_plane P F frame_idx frame cycle_idx meth max_displacement p ns =
                  Some (Inr ns') \<longrightarrow>
            shifts ns' ! cycle_idx ! frame_idx ! p = (0, 0, 0) \<and>
            correlations ns' ! cycle_idx ! frame_idx ! p = 1 \<and>
            shifts ns' = (shifts ns)[cycle_idx := (shifts ns ! cycle_idx)
              [frame_idx := (shifts ns ! cycle_idx ! frame_idx)[p := (0, 0, 0)]]] \<and>
            correlations ns' = (correlations ns)[cycle_idx := (correlations ns ! cycle_idx)
              [frame_idx := (correlations ns ! cycle_idx ! frame_idx)[p := 1]]] \<and>
            offset ns' = vmax (offset ns) (- int p, 0, 0) \<and>
            (\<forall>y x c. y < f1 \<and> x < f2 \<and> c < channels (shape (pixel_sums ns)) \<longrightarrow>
               stored (shape (pixel_sums ns')) (offset ns') (int p, int y, int x, c) \<and>
               value_at (pixel_sums ns') (offset ns') (int p, int y, int x, c) =
                 value_at (pixel_sums ns) (offset ns) (int p, int y, int x, c) +
                 np_nan_to_num F (elems frame (p, y, x, bidx f3 c))) \<and>
            (\<forall>y x c. y < f1 \<and> x < f2 \<and> c < channels (shape (pixel_counts ns)) \<longrightarrow>
               stored (shape (pixel_counts ns')) (offset ns') (int p, int y, int x, c) \<and>
               value_at (pixel_counts ns') (offset ns') (int p, int y, int x, c) =
                 value_at (pixel_counts ns) (offset ns) (int p, int y, int x, c) +
                 (if np_isfinite F (elems frame (p, y, x, bidx f3 c)) then 1 else 0)) \<and>
            (\<forall>z. \<not> covers (int p, 0, 0) (1, f1, f2, f3) z \<longrightarrow>
               value_at (pixel_sums ns') (offset ns') z =
                 value_at (pixel_sums ns) (offset ns) z \<and>
               value_at (pixel_counts ns') (offset ns') z =
                 value_at (pixel_counts ns) (offset ns) z) \<and>
            (\<forall>z. (stored (shape (pixel_sums ns)) (offset ns) z \<longrightarrow>
                    stored (shape (pixel_sums ns')) (offset ns') z) \<and>
                 (stored (shape (pixel_counts ns)) (offset ns) z \<longrightarrow>
                    stored (shape (pixel_counts ns')) (offset ns') z))) \<and>
         (cycle_idx < length (correlations ns) \<and>
          frame_idx < length (correlations ns ! cycle_idx) \<and>
          p < length (correlations ns ! cycle_idx ! frame_idx) \<and>
          cycle_idx < length (shifts ns) \<and>
          frame_idx < length (shifts ns ! cycle_idx) \<and>
          p < length (shifts ns ! cycle_idx ! frame_idx) \<and>
          broadcasts f3 (channels (shape (pixel_sums ns))) \<and>
          broadcasts f3 (channels (shape (pixel_counts ns))) \<longrightarrow>
            (\<exists>ns'. align_plane P F frame_idx frame cycle_idx meth max_displacement p ns =
                     Some (Inr ns')))"
proof -
  have eq: "align_plane P' F frame_idx frame cycle_idx meth' max_displacement' p ns =
      Some (seed_plane F frame_idx (expand_plane frame p) cycle_idx p ns)"
    for P' :: "('a, 'b) externals" and meth' max_displacement'
    using inr seed by (simp add: align_plane_def)
  show ?thesis
  proof (intro conjI allI impI)
    show "align_plane P' F frame_idx frame cycle_idx meth' max_displacement' p ns =
          align_plane P F frame_idx frame cycle_idx meth max_displacement p ns"
      for P' meth' max_displacement'
      by (simp only: eq)
    show "\<exists>res. align_plane P F frame_idx frame cycle_idx meth max_displacement p ns = Some res"
      by (simp only: eq) blast
  next
    fix ns' assume "align_plane P F frame_idx frame cycle_idx meth max_displacement p ns =
                  Some (Inr ns')"
    then have s: "seed_plane F frame_idx (expand_plane frame p) cycle_idx p ns = Inr ns'"
      by (simp only: eq option.inject)
    note R = seed_plane_Inr [OF s]
    note Q = seed_plane_records [OF s]
    note K = seed_plane_cells [OF s sf]
    show "shifts ns' ! cycle_idx ! frame_idx ! p = (0, 0, 0)" by (rule R [THEN conjunct1])
    show "correlations ns' ! cycle_idx ! frame_idx ! p = 1"
      by (rule R [THEN conjunct2, THEN conjunct1])
    show "shifts ns' = (shifts ns)[cycle_idx := (shifts ns ! cycle_idx)
              [frame_idx := (shifts ns ! cycle_idx ! frame_idx)[p := (0, 0, 0)]]]"
      by (rule Q [THEN conjunct2])
    show "correlations ns' = (correlations ns)[cycle_idx := (correlations ns ! cycle_idx)
              [frame_idx := (correlations ns ! cycle_idx ! frame_idx)[p := 1]]]"
      by (rule Q [THEN conjunct1])
    show "offset ns' = vmax (offset ns) (- int p, 0, 0)" by (rule K(1))
    show "stored (shape (pixel_sums ns')) (offset ns') (int p, int y, int x, c)"
      if "y < f1 \<and> x < f2 \<and> c < channels (shape (pixel_sums ns))" for y x c
      using K(2) [of y x c] that by blast
    show "value_at (pixel_sums ns') (offset ns') (int p, int y, int x, c) =
                 value_at (pixel_sums ns) (offset ns) (int p, int y, int x, c) +
                 np_nan_to_num F (elems frame (p, y, x, bidx f3 c))"
      if "y < f1 \<and> x < f2 \<and> c < channels (shape (pixel_sums ns))" for y x c
      using K(2) [of y x c] that by blast
    show "stored (shape (pixel_counts ns')) (offset ns') (int p, int y, int x, c)"
      if "y < f1 \<and> x < f2 \<and> c < channels (shape (pixel_counts ns))" for y x c
      using K(3) [of y x c] that by blast
    show "value_at (pixel_counts ns') (offset ns') (int p, int y, int x, c) =
                 value_at (pixel_counts ns) (offset ns) (int p, int y, int x, c) +
                 (if np_isfinite F (elems frame (p, y, x, bidx f3 c)) then 1 else 0)"
      if "y < f1 \<and> x < f2 \<and> c < channels (shape (pixel_counts ns))" for y x c
      using K(3) [of y x c] that by blast
    show "value_at (pixel_sums ns') (offset ns') z = value_at (pixel_sums ns) (offset ns) z"
      if "\<not> covers (int p, 0, 0) (1, f1, f2, f3) z" for z
      using K(4) [of z] that by blast
    show "value_at (pixel_counts ns') (offset ns') z = value_at (pixel_counts ns) (offset ns) z"
      if "\<not> covers (int p, 0, 0) (1, f1, f2, f3) z" for z
      using K(4) [of z] that by blast
    show "stored (shape (pixel_sums ns')) (offset ns') z"
      if "stored (shape (pixel_sums ns)) (offset ns) z" for z
      using K(5) [of z] that by blast
    show "stored (shape (pixel_counts ns')) (offset ns') z"
      if "stored (shape (pixel_counts ns)) (offset ns) z" for z
      using K(5) [of z] that by blast
  next
    assume a: "cycle_idx < length (correlations ns) \<and>
          frame_idx < length (correlations ns ! cycle_idx) \<and>
          p < length (correlations ns ! cycle_idx ! frame_idx) \<and>
          cycle_idx < length (shifts ns) \<and>
          frame_idx < length (shifts ns ! cycle_idx) \<and>
          p < length (shifts ns ! cycle_idx ! frame_idx) \<and>
          broadcasts f3 (channels (shape (pixel_sums ns))) \<and>
          broadcasts f3 (channels (shape (pixel_counts ns)))"
    have ch: "channels (shape (expand_plane frame p)) = f3"
      by (simp add: expand_plane_shape [OF sf])
    from a have "\<exists>s' c'. update_reference (np_nan_to_num F) (np_isfinite F) (pixel_sums ns)
        (pixel_counts ns) (offset ns) (int p, 0, 0) (expand_plane frame p) =
        Inr (s', c', vmax (offset ns) (vneg (int p, 0, 0)))"
      by (intro update_reference_total) (simp_all add: ch)
    then obtain s' c' where u: "update_reference (np_nan_to_num F) (np_isfinite F) (pixel_sums ns)
        (pixel_counts ns) (offset ns) (int p, 0, 0) (expand_plane frame p) =
        Inr (s', c', vmax (offset ns) (vneg (int p, 0, 0)))"
      by blast
    show "\<exists>ns'. align_plane P F frame_idx frame cycle_idx meth max_displacement p ns =
                     Some (Inr ns')"
      unfolding eq option.inject
      using seed_plane_success [OF _ _ _ _ _ _ u, of cycle_idx frame_idx] a by blast
  qed
qed


theorem seed_plane_committed_witness:
  "\<exists>ns'. align_plane toy_externals toy_float_ops 0 two_plane_frame 0 ''correlation'' None 1
            two_plane_namespace = Some (Inr ns') \<and>
     shifts ns' = [[[(0, 0, 0), (0, 0, 0)]]] \<and> correlations ns' = [[[9, 1]]] \<and>
     offset ns' = (0, 0, 0) \<and>
     elems (pixel_sums ns') (1, 0, 0, 0) = 5 \<and> elems (pixel_sums ns') (1, 0, 1, 0) = 6 \<and>
     elems (pixel_sums ns') (1, 1, 0, 0) = 7 \<and> elems (pixel_sums ns') (1, 1, 1, 0) = 8 \<and>
     elems (pixel_counts ns') (1, 0, 0, 0) = 1 \<and> elems (pixel_counts ns') (1, 1, 1, 0) = 1 \<and>
     elems (pixel_sums ns') (0, 0, 0, 0) = 0 \<and> elems (pixel_counts ns') (0, 0, 0, 0) = 0"
proof -
  have inr: "1 < planes (shape (pixel_counts two_plane_namespace))"
    by (simp add: two_plane_namespace_def init_namespace_def zeros_def)
  have seed: "\<not> np_any_plane (pixel_counts two_plane_namespace) 1"
    by (simp add: np_any_plane_def two_plane_namespace_def init_namespace_def zeros_def)
  have sf: "shape two_plane_frame = (2, 2, 2, 1)"
    by (simp add: two_plane_frame_def)
  have ok: "0 < length (correlations two_plane_namespace) \<and>
      0 < length (correlations two_plane_namespace ! 0) \<and>
      1 < length (correlations two_plane_namespace ! 0 ! 0) \<and>
      0 < length (shifts two_plane_namespace) \<and> 0 < length (shifts two_plane_namespace ! 0) \<and>
      1 < length (shifts two_plane_namespace ! 0 ! 0) \<and>
      broadcasts 1 (channels (shape (pixel_sums two_plane_namespace))) \<and>
      broadcasts 1 (channels (shape (pixel_counts two_plane_namespace)))"
    by (simp add: two_plane_namespace_def init_namespace_def zeros_def broadcasts_def
        numeral_2_eq_2)
  note T = seed_plane_committed [OF inr seed sf, where P = toy_externals and F = toy_float_ops
      and frame_idx = 0 and cycle_idx = 0 and meth = "''correlation''"
      and max_displacement = None]
  from T [THEN conjunct2, THEN conjunct2, THEN conjunct2, rule_format, OF ok]
  obtain ns' where
    r: "align_plane toy_externals toy_float_ops 0 two_plane_frame 0 ''correlation'' None 1
          two_plane_namespace = Some (Inr ns')"
    by blast
  note U = T [THEN conjunct2, THEN conjunct2, THEN conjunct1, rule_format, OF r]
  have sh: "shifts ns' = [[[(0, 0, 0), (0, 0, 0)]]]"
    using U [THEN conjunct2, THEN conjunct2, THEN conjunct1]
    by (simp add: two_plane_namespace_def init_namespace_def numeral_2_eq_2)
  have co: "correlations ns' = [[[9, 1]]]"
    using U [THEN conjunct2, THEN conjunct2, THEN conjunct2, THEN conjunct1]
    by (simp add: two_plane_namespace_def init_namespace_def numeral_2_eq_2)
  have off: "offset ns' = (0, 0, 0)"
    using U [THEN conjunct2, THEN conjunct2, THEN conjunct2, THEN conjunct2, THEN conjunct1]
    by (simp add: two_plane_namespace_def init_namespace_def)
  note V = U [THEN conjunct2, THEN conjunct2, THEN conjunct2, THEN conjunct2, THEN conjunct2]
  note Vs = V [THEN conjunct1, rule_format]
  note Vc = V [THEN conjunct2, THEN conjunct1, rule_format]
  note Vn = V [THEN conjunct2, THEN conjunct2, THEN conjunct1, rule_format]
  note Vk = V [THEN conjunct2, THEN conjunct2, THEN conjunct2, rule_format]
  have old: "pixel_sums two_plane_namespace = zeros (2, 2, 2, 1)"
      "pixel_counts two_plane_namespace = zeros (2, 2, 2, 1)"
      "offset two_plane_namespace = (0, 0, 0)"
    by (simp_all add: two_plane_namespace_def init_namespace_def)
  have s: "elems (pixel_sums ns') (1, y, x, 0) = elems two_plane_frame (1, y, x, 0)"
    if "y < 2 \<and> x < 2" for y x
    using Vs [of y x 0] that
    by (auto simp: value_at_def off old zeros_def toy_float_ops_def bidx_def)
  have c: "elems (pixel_counts ns') (1, y, x, 0) = 1"
    if "y < 2 \<and> x < 2" for y x
    using Vc [of y x 0] that
    by (auto simp: value_at_def off old zeros_def toy_float_ops_def bidx_def)
  have z: "elems (pixel_sums ns') (0, 0, 0, 0) = 0 \<and> elems (pixel_counts ns') (0, 0, 0, 0) = 0"
    using Vn [of "(0, 0, 0, 0)"] Vk [of "(0, 0, 0, 0)"]
    by (auto simp: value_at_def off old zeros_def)
  from r sh co off s [of 0 0] s [of 0 1] s [of 1 0] s [of 1 1] c [of 0 0] c [of 1 1] z
  show ?thesis
    by (intro exI [of _ ns']) (simp add: two_plane_frame_def)
qed


text \<open>
  Claim C8, as the code has it. The method is looked at only for a plane whose counts are
  not all zero. There, with sums and counts of one shape, \<^verbatim>\<open>'ECC'\<close> raises
  \<^verbatim>\<open>NotImplementedError\<close> and a method that is neither \<^verbatim>\<open>'ECC'\<close> nor
  \<^verbatim>\<open>'correlation'\<close> raises the \<^verbatim>\<open>ValueError\<close> for an unrecognised method, a
  different exception, and the namespace is as it was before the plane.
\<close>

theorem method_dispatch:
  assumes "p < planes (shape (pixel_counts ns))"
    and "np_any_plane (pixel_counts ns) p"
    and "shape (pixel_sums ns) = shape (pixel_counts ns)"
  shows "(meth = ''ECC'' \<longrightarrow>
            align_plane P F frame_idx frame cycle_idx meth max_displacement p ns =
              Some (Inl (NotImplementedError, ns))) \<and>
         (meth \<noteq> ''ECC'' \<and> meth \<noteq> ''correlation'' \<longrightarrow>
            align_plane P F frame_idx frame cycle_idx meth max_displacement p ns =
              Some (Inl (UnrecognizedMethod, ns))) \<and>
         NotImplementedError \<noteq> UnrecognizedMethod"
proof -
  have "shape (expand_plane (pixel_sums ns) p) = shape (expand_plane (pixel_counts ns) p)"
    using assms(3) by (cases "shape (pixel_counts ns)") (simp add: expand_plane_def)
  then obtain r where "array_divide (np_divide F) (expand_plane (pixel_sums ns) p)
      (expand_plane (pixel_counts ns) p) = Inr r"
    using array_divide_same_shape by blast
  with assms show ?thesis
    by (simp add: align_plane_def)
qed

theorem method_dispatch_witness:
  "\<exists>ns1. align_frame toy_externals toy_float_ops (0, full (1, 2, 2, 1) 5, 0, ''ECC'', None)
            toy_namespace = Some (Inr ns1) \<and>
     align_plane toy_externals toy_float_ops 1 (full (1, 2, 2, 1) 5) 0 ''ECC'' None 0 ns1 =
       Some (Inl (NotImplementedError, ns1)) \<and>
     align_plane toy_externals toy_float_ops 1 (full (1, 2, 2, 1) 5) 0 ''optical_flow'' None 0 ns1 =
       Some (Inl (UnrecognizedMethod, ns1))"
proof -
  from toy_first_frame [of "''ECC''"] obtain ns1 where
    r: "align_frame toy_externals toy_float_ops (0, full (1, 2, 2, 1) 5, 0, ''ECC'', None)
            toy_namespace = Some (Inr ns1)" and
    v: "shape (pixel_sums ns1) = (1, 2, 2, 1)" "shape (pixel_counts ns1) = (1, 2, 2, 1)"
       "elems (pixel_counts ns1) (0, 0, 0, 0) = 1"
    by blast
  have inr: "0 < planes (shape (pixel_counts ns1))" by (simp add: v)
  have anyp: "np_any_plane (pixel_counts ns1) 0"
    by (rule np_any_planeI [OF v(2), of 0 0 0]) (simp_all add: v)
  have sh: "shape (pixel_sums ns1) = shape (pixel_counts ns1)" by (simp add: v)
  from method_dispatch [OF inr anyp sh, where meth = "''ECC''" and P = toy_externals
      and F = toy_float_ops and frame_idx = 1 and frame = "full (1, 2, 2, 1) 5"
      and cycle_idx = 0 and max_displacement = None]
    method_dispatch [OF inr anyp sh, where meth = "''optical_flow''" and P = toy_externals
      and F = toy_float_ops and frame_idx = 1 and frame = "full (1, 2, 2, 1) 5"
      and cycle_idx = 0 and max_displacement = None] r
  show ?thesis by (intro exI [of _ ns1]) simp
qed

text \<open>
  Claim C8 as stated fails: a plane whose counts are all zero is committed without a look
  at the method. On a fresh namespace the first frame is processed under \<^verbatim>\<open>'ECC'\<close>
  without any exception, and its shift, its correlation and its pixels are committed; the
  exception comes with the second frame, and leaves what the first one committed.
\<close>

theorem ecc_after_seed_frame:
  "align_frame toy_externals toy_float_ops (0, full (1, 2, 2, 1) 5, 0, ''ECC'', None)
     toy_namespace \<noteq> Some (Inl (NotImplementedError, toy_namespace)) \<and>
   (case align_frame toy_externals toy_float_ops (0, full (1, 2, 2, 1) 5, 0, ''ECC'', None)
           toy_namespace of
      Some (Inr ns1) \<Rightarrow>
        shifts ns1 = [[[(0, 0, 0)], [(0, 0, 0)]]] \<and> correlations ns1 = [[[1], [9]]] \<and>
        elems (pixel_sums ns1) (0, 0, 0, 0) = 5 \<and> elems (pixel_counts ns1) (0, 0, 0, 0) = 1 \<and>
        elems (pixel_counts toy_namespace) (0, 0, 0, 0) = 0 \<and>
        align_frame toy_externals toy_float_ops (1, full (1, 2, 2, 1) 5, 0, ''ECC'', None) ns1 =
          Some (Inl (NotImplementedError, ns1))
    | _ \<Rightarrow> False)"
proof -
  from toy_first_frame [of "''ECC''"] obtain ns1 where
    r: "align_frame toy_externals toy_float_ops (0, full (1, 2, 2, 1) 5, 0, ''ECC'', None)
            toy_namespace = Some (Inr ns1)" and
    v: "shifts ns1 = [[[(0, 0, 0)], [(0, 0, 0)]]]" "correlations ns1 = [[[1], [9]]]"
       "shape (pixel_sums ns1) = (1, 2, 2, 1)" "shape (pixel_counts ns1) = (1, 2, 2, 1)"
       "elems (pixel_sums ns1) (0, 0, 0, 0) = 5" "elems (pixel_counts ns1) (0, 0, 0, 0) = 1"
    by blast
  have z: "elems (pixel_counts toy_namespace) (0, 0, 0, 0) = 0"
    by (simp add: toy_namespace_def init_namespace_def zeros_def)
  have one: "planes (shape (full (1, 2, 2, 1) (5::int))) = 1" by (simp add: full_def)
  have inr: "0 < planes (shape (pixel_counts ns1))" by (simp add: v)
  have anyp: "np_any_plane (pixel_counts ns1) 0"
    by (rule np_any_planeI [OF v(4), of 0 0 0]) (simp_all add: v)
  have sh: "shape (pixel_sums ns1) = shape (pixel_counts ns1)" by (simp add: v)
  have "align_frame toy_externals toy_float_ops (1, full (1, 2, 2, 1) 5, 0, ''ECC'', None) ns1 =
          Some (Inl (NotImplementedError, ns1))"
    unfolding align_frame_single [OF one]
    using align_plane_method [OF inr anyp sh, where meth = "''ECC''"] by simp
  with r v z show ?thesis by simp
qed

section \<open>Properties of the plane drift correction\<close>

lemma bit_length_numeral:
  "bit_length 0 = 0" "bit_length (Suc 0) = 1" "bit_length 1 = 1"
  "bit_length (numeral k) = Suc (bit_length (numeral k div 2))"
  by (simp_all add: bit_length.simps)

lemmas float64_eval = float64_def binade_def round_half_even_def bit_length_numeral
  power_int_def power_one_over

text \<open>The rounding on numbers whose float64 is well known: a third, and two to the 53 plus 1.\<close>

lemma float64_third: "float64 (1 / 3) = 6004799503160661 / 2 ^ 54"
  by (simp add: float64_eval)

lemma float64_tie: "float64 (2 ^ 53 + 1) = 2 ^ 53" "float64 (2 ^ 53 + 3) = 2 ^ 53 + 4"
  by (simp_all add: float64_eval)

lemma float64_small_integers: "float64 (- 13) = - 13" "float64 1 = 1" "float64 6 = 6"
  by (simp_all add: float64_eval)

text \<open>
  Whatever the planes are, one vector is subtracted from the shifts of all of them: zero
  from the rows and one integer from the columns.
\<close>

lemma align_planes_one_alteration:
  assumes "concat (concat shift_records) \<noteq> []"
  shows "\<exists>a. align_planes shift_records =
           Inr (map (map (map (\<lambda>(y, x). (y, x - a)))) shift_records)"
proof -
  have z: "astype_int (float64 0) = 0"
    by (simp add: float64_def astype_int_def)
  show ?thesis
    using assms
    by (intro exI [of _ "astype_int (float64
          (float_mean (map snd (concat (concat shift_records))) -
           float_mean (map fst (concat (concat shift_records)))))"])
       (simp add: align_planes_def nanmean_axis0_def Let_def z del: concat_eq_Nil_conv)
qed

text \<open>
  Two planes that drift apart by (2, 6) in every frame: the code subtracts (0, 2) from both
  of them, where a correction per plane would bring the second plane to the first.
\<close>

lemma align_planes_two_planes:
  "align_planes [[[(0, 0), (2, 6)], [(0, 0), (2, 6)]]] =
     Inr [[[(0, - 2), (2, 4)], [(0, - 2), (2, 4)]]]"
  by (simp add: align_planes_def nanmean_axis0_def float_mean_def astype_int_def float64_eval)

lemma align_planes_empty: "align_planes [] = Inl TypeError"
  by (simp add: align_planes_def nanmean_axis0_def)

text \<open>
  Claim C7, at its failing input. One cycle, three frames, one plane, with the shifts
  (-1, -13), (0, 0) and (0, 0). The mean row shift is the float64 next to -1/3 and the mean
  column shift the one next to -13/3; their difference rounds to the float64 just above
  -4, and the cast drops the fraction: the first pass subtracts -3 from every column
  shift. On its result the means are those next to -1/3 and -4/3; their difference lies
  half way between -1 and the float64 above it and rounds to -1: the second pass
  subtracts -1 again. The second pass is not without effect, and its correction is not
  zero.
\<close>

theorem align_planes_second_pass:
  "align_planes [[[(- 1, - 13)], [(0, 0)], [(0, 0)]]] =
     Inr [[[(- 1, - 10)], [(0, 3)], [(0, 3)]]] \<and>
   align_planes [[[(- 1, - 10)], [(0, 3)], [(0, 3)]]] =
     Inr [[[(- 1, - 9)], [(0, 4)], [(0, 4)]]]"
  by (simp add: align_planes_def nanmean_axis0_def float_mean_def astype_int_def float64_eval)

end
